theory Spec2Isabelle
  imports Complex_Main "HOL-Library.Sublist"
begin

section \<open>The evaluation driver (test\_time.py)\<close>

subsection \<open>Exceptions, statements and loops\<close>

text \<open>
  The exceptions the driver itself can raise, and those a routine it calls can raise besides:
  \<open>AttributeErrorSubclass name\<close> is an exception of a class derived from
  \<^verbatim>\<open>AttributeError\<close>, \<open>Raised name\<close> an exception of any other class.
\<close>

datatype exn = AssertionError | IndexError | ZeroDivisionError | AttributeError | KeyError
  | AttributeErrorSubclass string | Raised string

text \<open>\<^verbatim>\<open>isinstance(e, AttributeError)\<close>, which is what \<^verbatim>\<open>except AttributeError\<close> tests.\<close>

definition is_AttributeError :: "exn \<Rightarrow> bool" where
  "is_AttributeError e =
     (case e of AttributeError \<Rightarrow> True | AttributeErrorSubclass _ \<Rightarrow> True | _ \<Rightarrow> False)"

text \<open>
  A statement takes the program state and gives back the state it leaves, together with
  the value it returns (\<open>Inr\<close>) or the exception it raises (\<open>Inl\<close>).
\<close>

type_synonym ('a, 's) stmt = "'s \<Rightarrow> (exn + 'a) \<times> 's"

definition ret :: "'a \<Rightarrow> ('a, 's) stmt" where
  "ret v s = (Inr v, s)"

definition raise_exn :: "exn \<Rightarrow> ('a, 's) stmt" where
  "raise_exn e s = (Inl e, s)"

definition and_then :: "('a, 's) stmt \<Rightarrow> ('a \<Rightarrow> ('b, 's) stmt) \<Rightarrow> ('b, 's) stmt" where
  "and_then f g s = (case f s of (Inr v, s') \<Rightarrow> g v s' | (Inl e, s') \<Rightarrow> (Inl e, s'))"

definition modify :: "('s \<Rightarrow> 's) \<Rightarrow> (unit, 's) stmt" where
  "modify f s = (Inr (), f s)"

text \<open>Reading a variable of the program.\<close>

definition read_var :: "('s \<Rightarrow> 'a) \<Rightarrow> ('a, 's) stmt" where
  "read_var x s = (Inr (x s), s)"

definition py_assert :: "bool \<Rightarrow> (unit, 's) stmt" where
  "py_assert b = (if b then ret () else raise_exn AssertionError)"

definition when_do :: "bool \<Rightarrow> (unit, 's) stmt \<Rightarrow> (unit, 's) stmt" where
  "when_do b f = (if b then f else ret ())"

text \<open>\<^verbatim>\<open>for x in xs: body\<close>: the first exception ends the loop.\<close>

fun for_each :: "('a \<Rightarrow> (unit, 's) stmt) \<Rightarrow> 'a list \<Rightarrow> (unit, 's) stmt" where
  "for_each body [] s = (Inr (), s)"
| "for_each body (x # xs) s =
     (case body x s of (Inr _, s') \<Rightarrow> for_each body xs s' | (Inl e, s') \<Rightarrow> (Inl e, s'))"

text \<open>\<^verbatim>\<open>try: body  except AttributeError: handler\<close>\<close>

definition try_except_AttributeError ::
  "(unit, 's) stmt \<Rightarrow> (unit, 's) stmt \<Rightarrow> (unit, 's) stmt" where
  "try_except_AttributeError body handler s =
     (case body s of
        (Inl e, s') \<Rightarrow> if is_AttributeError e then handler s' else (Inl e, s')
      | (Inr v, s') \<Rightarrow> (Inr v, s'))"

text \<open>\<^verbatim>\<open>xs[i]\<close> for a non-negative index.\<close>

definition py_index :: "'a list \<Rightarrow> nat \<Rightarrow> ('a, 's) stmt" where
  "py_index xs i = (if i < length xs then ret (xs ! i) else raise_exn IndexError)"

text \<open>
  \<^verbatim>\<open>sum(xs) / len(xs)\<close>. The numbers are Python floats; they are modelled as reals, so
  rounding and overflow are left out.
\<close>

definition py_mean :: "real list \<Rightarrow> (real, 's) stmt" where
  "py_mean xs =
     (if length xs = 0 then raise_exn ZeroDivisionError
      else ret (sum_list xs / real (length xs)))"

text \<open>\<^verbatim>\<open>needle in hay\<close> on strings: \<open>needle\<close> occurs in \<open>hay\<close> as a contiguous piece.\<close>

fun starts_with :: "string \<Rightarrow> string \<Rightarrow> bool" where
  "starts_with [] hay = True"
| "starts_with (c # cs) [] = False"
| "starts_with (c # cs) (h # hs) = (c = h \<and> starts_with cs hs)"

fun str_in :: "string \<Rightarrow> string \<Rightarrow> bool" where
  "str_in needle [] = (needle = [])"
| "str_in needle (h # hs) = (starts_with needle (h # hs) \<or> str_in needle hs)"

text \<open>\<^verbatim>\<open>range(a, b)\<close> keeps its bounds; \<open>range_start\<close> is \<^verbatim>\<open>.start\<close>.\<close>

type_synonym range = "nat \<times> nat"

definition range_list :: "range \<Rightarrow> nat list" where
  "range_list r = [fst r ..< snd r]"

definition range_start :: "range \<Rightarrow> nat" where
  "range_start r = fst r"

subsection \<open>Configuration, calls and program state\<close>

text \<open>The entries of \<^verbatim>\<open>cfg\<close> that \<^verbatim>\<open>evaluate\<close> itself reads.\<close>

record cfg =
  SETTING :: string
  MODEL_ADAPTATION :: string
  CORRUPTION_DATASET :: string
  CORRUPTION_TYPE :: "string list"
  CORRUPTION_SEVERITY :: "int list"
  MODEL_CKPT_PATH :: string
  Ours_LOSSES :: "string list"
  TEST_DEBUG :: bool

text \<open>
  The routines \<^verbatim>\<open>evaluate\<close> calls live outside test\_time.py. Each call is written into a
  trace, which is not a variable of the program: it records where the call was made,
  what was called and how the call ended, so that properties of the calls can be stated.
\<close>

datatype place =
    Setup
  | AtSubgroup range
  | AtEval range nat nat    \<comment> \<open>subgroup, cycle, \<^verbatim>\<open>i_dom\<close>\<close>
  | AtMixedPass
  | AtFinish

datatype call =
    LoadCfgFromArgs string
  | WandbSetup
  | GetNumClasses string
  | GetModel
  | RegisteredNames
  | BuildAdaptation string
  | WandbSummary
  | CkptPathToDomainSeq string
  | ModelReset
  | GetTestLoader string string int    \<comment> \<open>setting, domain name, severity\<close>
  | GetAccuracy string string int      \<comment> \<open>setting, domain name; the severity of the loader\<close>
  | EvalDomainDict
  | PrintMemoryInfo
  | WandbSave
  | WandbFinish

datatype outcome = Returned | ReturnedAcc real nat | Raises exn

datatype event = Ev (ev_place: place) (ev_call: call) (ev_outcome: outcome)

datatype log_entry =
    InfoPrepared string
  | InfoDescription "string list" "string list"
  | InfoDomainSequence string "string list"
  | InfoSeverities "int list"
  | InfoReset range
  | WarningResetNotAvailable
  | InfoTransform
  | InfoError string string int nat real
  | InfoCycleAvg range nat real
  | InfoSubgroupAvg range real
  | InfoCycleAcross nat real
  | InfoFinalSubgroup nat real
  | InfoTotalAvg real
  | InfoMeanError "real option" "real option option"

record ('w, 'd) state =
  world :: 'w    \<comment> \<open>everything outside the driver: the model, wandb, the data\<close>
  domain_dict :: 'd
  errs :: "real list"
  errs_5 :: "real list"
  subgroup_avgs :: "real list"
  cycle_avgs_all_subgroups :: "(nat \<times> real list) list"
  subgroup_cycle_errs :: "real list"
  cycle_errs :: "real list"
  logged :: "log_entry list"
  trace :: "event list"

text \<open>
  The routines called, as parameters: each takes the world and returns the world it
  leaves, with its value or the exception it raised.
\<close>

record ('w, 'd, 'l) env =
  load_cfg_from_args :: "string \<Rightarrow> 'w \<Rightarrow> (exn + cfg) \<times> 'w"
  wandb_setup :: "cfg \<Rightarrow> 'w \<Rightarrow> (exn + unit) \<times> 'w"
  get_num_classes :: "string \<Rightarrow> 'w \<Rightarrow> (exn + nat) \<times> 'w"
  get_model :: "cfg \<Rightarrow> nat \<Rightarrow> 'w \<Rightarrow> (exn + unit) \<times> 'w"
  registered_names :: "'w \<Rightarrow> (exn + string list) \<times> 'w"
  build_adaptation :: "cfg \<Rightarrow> nat \<Rightarrow> 'w \<Rightarrow> (exn + unit) \<times> 'w"
  wandb_summary :: "string list \<Rightarrow> string list \<Rightarrow> 'w \<Rightarrow> (exn + unit) \<times> 'w"
  ckpt_path_to_domain_seq :: "string \<Rightarrow> 'w \<Rightarrow> (exn + string list) \<times> 'w"
  model_reset :: "'w \<Rightarrow> (exn + unit) \<times> 'w"
  get_test_loader ::
    "cfg \<Rightarrow> string \<Rightarrow> string \<Rightarrow> string list \<Rightarrow> int \<Rightarrow> 'w \<Rightarrow> (exn + 'l) \<times> 'w"
  get_accuracy ::
    "cfg \<Rightarrow> 'l \<Rightarrow> string \<Rightarrow> string \<Rightarrow> 'd \<Rightarrow> 'w \<Rightarrow> (exn + real \<times> 'd \<times> nat) \<times> 'w"
  empty_dict :: 'd
  dict_len :: "'d \<Rightarrow> nat"
  eval_domain_dict :: "'d \<Rightarrow> string list \<Rightarrow> 'w \<Rightarrow> (exn + unit) \<times> 'w"
  print_memory_info :: "'w \<Rightarrow> (exn + unit) \<times> 'w"
  wandb_save :: "'w \<Rightarrow> (exn + unit) \<times> 'w"
  wandb_finish :: "'w \<Rightarrow> (exn + unit) \<times> 'w"

definition ext_call ::
  "place \<Rightarrow> call \<Rightarrow> ('a \<Rightarrow> outcome) \<Rightarrow> ('w \<Rightarrow> (exn + 'a) \<times> 'w) \<Rightarrow> ('a, ('w, 'd) state) stmt" where
  "ext_call p c oc f s =
     (case f (world s) of (r, w') \<Rightarrow>
        (r, s\<lparr>world := w',
              trace := trace s @ [Ev p c (case r of Inl e \<Rightarrow> Raises e | Inr v \<Rightarrow> oc v)]\<rparr>))"

definition info :: "log_entry \<Rightarrow> (unit, ('w, 'd) state) stmt" where
  "info entry = modify (\<lambda>s. s\<lparr>logged := logged s @ [entry]\<rparr>)"

subsection \<open>Setting up: lines 22 to 133\<close>

definition valid_settings :: "string list" where
  "valid_settings =
     [''reset_each_shift'', ''continual'', ''gradual'', ''mixed_domains'', ''correlated'',
      ''mixed_domains_correlated'', ''gradual_correlated'', ''reset_each_shift_correlated'',
      ''continual_mixed_domain'']"

definition loss_name :: "(string \<times> string) list" where
  "loss_name =
     [(''ce_s_t1'', ''Symmetric Cross Entropy (T1)''),
      (''ce_s_t2'', ''Symmetric Cross Entropy (T2)''),
      (''ce_s_aug_t1'', ''Symmetric Cross Entropy (Aug X to T1)''),
      (''contr_t2_proto'', ''Contrastive (T2 - Prototype)''),
      (''mse_t2_proto'', ''MSE (T2 - Prototype)''),
      (''contr_t2'', ''Contrastive (T2 - Aug and Prototype)''),
      (''im_loss'', ''Information Maximization Loss (T2)''),
      (''differ_loss'', ''Differential Loss (S - T1 - T2)''),
      (''mem_loss'', ''Maximum Mean Discrepancy Loss (T2)''),
      (''kld_t2_proto'', ''KL Divergence Loss (T2 - Prototype)'')]"

text \<open>\<^verbatim>\<open>[loss_name[loss] for loss in losses if loss in keep]\<close>\<close>

fun loss_names :: "string list \<Rightarrow> string list \<Rightarrow> (string list, 's) stmt" where
  "loss_names keep [] = ret []"
| "loss_names keep (loss # losses) =
     (if loss \<in> set keep then
        (case map_of loss_name loss of
           None \<Rightarrow> raise_exn KeyError
         | Some n \<Rightarrow> and_then (loss_names keep losses) (\<lambda>ns. ret (n # ns)))
      else loss_names keep losses)"

text \<open>Lines 48 to 62; the calls of \<^verbatim>\<open>wandb\<close> of lines 35 to 46 are one call, made before.\<close>

definition setup_model :: "('w, 'd, 'l) env \<Rightarrow> cfg \<Rightarrow> (unit, ('w, 'd) state) stmt" where
  "setup_model env cfg =
     and_then (ext_call Setup (GetNumClasses (CORRUPTION_DATASET cfg)) (\<lambda>_. Returned)
                 (get_num_classes env (CORRUPTION_DATASET cfg))) (\<lambda>num_classes.
     and_then (ext_call Setup GetModel (\<lambda>_. Returned) (get_model env cfg num_classes)) (\<lambda>_.
     and_then (ext_call Setup RegisteredNames (\<lambda>_. Returned) (registered_names env))
       (\<lambda>available_adaptations.
     and_then (py_assert (MODEL_ADAPTATION cfg \<in> set available_adaptations)) (\<lambda>_.
     and_then (ext_call Setup (BuildAdaptation (MODEL_ADAPTATION cfg)) (\<lambda>_. Returned)
                 (build_adaptation env cfg num_classes)) (\<lambda>_.
     info (InfoPrepared (MODEL_ADAPTATION cfg)))))))"

definition describe_ours :: "('w, 'd, 'l) env \<Rightarrow> cfg \<Rightarrow> (unit, ('w, 'd) state) stmt" where
  "describe_ours env cfg =
     when_do (MODEL_ADAPTATION cfg = ''ours'')
       (and_then (loss_names [''ce_s_t1'', ''ce_s_t2'', ''ce_s_aug_t1'', ''differ_loss'']
                    (Ours_LOSSES cfg)) (\<lambda>student_losses.
        and_then (loss_names [''contr_t2_proto'', ''mse_t2_proto'', ''contr_t2'', ''im_loss'',
                              ''mem_loss'', ''kld_t2_proto'']
                    (Ours_LOSSES cfg)) (\<lambda>t2_losses.
        and_then (ext_call Setup WandbSummary (\<lambda>_. Returned)
                    (wandb_summary env student_losses t2_losses)) (\<lambda>_.
        info (InfoDescription student_losses t2_losses)))))"

definition get_domain_sequence ::
  "('w, 'd, 'l) env \<Rightarrow> cfg \<Rightarrow> (string list, ('w, 'd) state) stmt" where
  "get_domain_sequence env cfg =
     (if CORRUPTION_DATASET cfg = ''domainnet126'' then
        ext_call Setup (CkptPathToDomainSeq (MODEL_CKPT_PATH cfg)) (\<lambda>_. Returned)
          (ckpt_path_to_domain_seq env (MODEL_CKPT_PATH cfg))
      else if CORRUPTION_DATASET cfg \<in> set [''imagenet_d'', ''imagenet_d109''] then
        and_then (py_index (CORRUPTION_TYPE cfg) 0) (\<lambda>type0.
          if type0 = [] then ret [''clipart'', ''infograph'', ''painting'', ''real'', ''sketch'']
          else ret (CORRUPTION_TYPE cfg))
      else ret (CORRUPTION_TYPE cfg))"

definition domain_seq_loop_of :: "cfg \<Rightarrow> string list \<Rightarrow> string list" where
  "domain_seq_loop_of cfg domain_sequence =
     (if str_in ''mixed_domains'' (SETTING cfg) then [''mixed''] else domain_sequence)"

definition gradual_severities :: "cfg \<Rightarrow> bool" where
  "gradual_severities cfg \<longleftrightarrow>
     str_in ''gradual'' (SETTING cfg)
     \<and> CORRUPTION_DATASET cfg \<in> set [''cifar10_c'', ''cifar100_c'', ''imagenet_c'']
     \<and> length (CORRUPTION_SEVERITY cfg) = 1"

definition severities_of :: "cfg \<Rightarrow> int list" where
  "severities_of cfg =
     (if gradual_severities cfg then [1, 2, 3, 4, 5, 4, 3, 2, 1] else CORRUPTION_SEVERITY cfg)"

definition init_lists :: "('w, 'd, 'l) env \<Rightarrow> (unit, ('w, 'd) state) stmt" where
  "init_lists env =
     modify (\<lambda>s. s\<lparr>errs := [], errs_5 := [], domain_dict := empty_dict env,
                    subgroup_avgs := [], cycle_avgs_all_subgroups := [(1, []), (2, [])]\<rparr>)"

subsection \<open>The subgroup loop: lines 136 to 214\<close>

definition subgroups :: "range list" where
  "subgroups = [(0, 3), (3, 7), (7, 10), (10, 12), (12, 15)]"

text \<open>The body of the severity loop, lines 162 to 203.\<close>

definition evaluate_one ::
  "('w, 'd, 'l) env \<Rightarrow> cfg \<Rightarrow> string list \<Rightarrow> range \<Rightarrow> nat \<Rightarrow> nat \<Rightarrow> string \<Rightarrow> int
     \<Rightarrow> (unit, ('w, 'd) state) stmt" where
  "evaluate_one env cfg domain_sequence subgroup cycle i_dom domain_name severity =
     and_then (ext_call (AtEval subgroup cycle i_dom)
                 (GetTestLoader (SETTING cfg) domain_name severity) (\<lambda>_. Returned)
                 (get_test_loader env cfg (SETTING cfg) domain_name domain_sequence severity))
       (\<lambda>test_data_loader.
     and_then (when_do (i_dom = range_start subgroup) (info InfoTransform)) (\<lambda>_.
     and_then (read_var domain_dict) (\<lambda>domain_dict0.
     and_then (ext_call (AtEval subgroup cycle i_dom)
                 (GetAccuracy (SETTING cfg) domain_name severity)
                 (\<lambda>(acc, dd, num_samples). ReturnedAcc acc num_samples)
                 (get_accuracy env cfg test_data_loader domain_name (SETTING cfg) domain_dict0))
       (\<lambda>(acc, dd, num_samples).
     and_then (modify (\<lambda>s. s\<lparr>domain_dict := dd\<rparr>)) (\<lambda>_.
     and_then (modify (\<lambda>s. s\<lparr>errs := errs s @ [1 - acc]\<rparr>)) (\<lambda>_.
     and_then (modify (\<lambda>s. s\<lparr>cycle_errs := cycle_errs s @ [1 - acc]\<rparr>)) (\<lambda>_.
     and_then (when_do (severity = 5 \<and> domain_name \<noteq> ''none'')
                 (modify (\<lambda>s. s\<lparr>errs_5 := errs_5 s @ [1 - acc]\<rparr>))) (\<lambda>_.
     info (InfoError (CORRUPTION_DATASET cfg) domain_name severity num_samples
             (1 - acc))))))))))"

text \<open>\<^verbatim>\<open>cycle_avgs_all_subgroups[k].append(v)\<close>\<close>

definition dict_append :: "nat \<Rightarrow> real \<Rightarrow> (unit, ('w, 'd) state) stmt" where
  "dict_append k v =
     and_then (read_var cycle_avgs_all_subgroups) (\<lambda>d.
       case map_of d k of
         None \<Rightarrow> raise_exn KeyError
       | Some _ \<Rightarrow>
           modify (\<lambda>s. s\<lparr>cycle_avgs_all_subgroups :=
                           map (\<lambda>(k', l). if k' = k then (k', l @ [v]) else (k', l)) d\<rparr>))"

text \<open>The body of the domain loop, lines 159 to 203.\<close>

definition run_domain ::
  "('w, 'd, 'l) env \<Rightarrow> cfg \<Rightarrow> string list \<Rightarrow> string list \<Rightarrow> int list \<Rightarrow> range \<Rightarrow> nat \<Rightarrow> nat
     \<Rightarrow> (unit, ('w, 'd) state) stmt" where
  "run_domain env cfg domain_sequence domain_seq_loop severities subgroup cycle i_dom =
     and_then (py_index domain_seq_loop i_dom) (\<lambda>domain_name.
       for_each (evaluate_one env cfg domain_sequence subgroup cycle i_dom domain_name)
         severities)"

text \<open>The body of the cycle loop, lines 156 to 209; the cycle is counted from 0.\<close>

definition run_cycle ::
  "('w, 'd, 'l) env \<Rightarrow> cfg \<Rightarrow> string list \<Rightarrow> string list \<Rightarrow> int list \<Rightarrow> range \<Rightarrow> nat
     \<Rightarrow> (unit, ('w, 'd) state) stmt" where
  "run_cycle env cfg domain_sequence domain_seq_loop severities subgroup cycle =
     and_then (modify (\<lambda>s. s\<lparr>cycle_errs := []\<rparr>)) (\<lambda>_.
     and_then (for_each
                 (run_domain env cfg domain_sequence domain_seq_loop severities subgroup cycle)
                 (range_list subgroup)) (\<lambda>_.
     and_then (and_then (read_var cycle_errs) py_mean) (\<lambda>cycle_avg.
     and_then (modify (\<lambda>s. s\<lparr>subgroup_cycle_errs := subgroup_cycle_errs s @ [cycle_avg]\<rparr>)) (\<lambda>_.
     and_then (dict_append (cycle + 1) cycle_avg) (\<lambda>_.
     info (InfoCycleAvg subgroup (cycle + 1) cycle_avg))))))"

text \<open>The reset at the start of a subgroup, lines 149 to 153.\<close>

definition reset_model :: "('w, 'd, 'l) env \<Rightarrow> range \<Rightarrow> (unit, ('w, 'd) state) stmt" where
  "reset_model env subgroup =
     try_except_AttributeError
       (and_then (ext_call (AtSubgroup subgroup) ModelReset (\<lambda>_. Returned) (model_reset env))
          (\<lambda>_. info (InfoReset subgroup)))
       (info WarningResetNotAvailable)"

text \<open>The two cycles of a subgroup and its average, lines 155 to 214.\<close>

definition run_cycles ::
  "('w, 'd, 'l) env \<Rightarrow> cfg \<Rightarrow> string list \<Rightarrow> string list \<Rightarrow> int list \<Rightarrow> range
     \<Rightarrow> (unit, ('w, 'd) state) stmt" where
  "run_cycles env cfg domain_sequence domain_seq_loop severities subgroup =
     and_then (for_each (run_cycle env cfg domain_sequence domain_seq_loop severities subgroup)
                 [0 ..< 2]) (\<lambda>_.
     and_then (and_then (read_var subgroup_cycle_errs) py_mean) (\<lambda>subgroup_avg.
     and_then (modify (\<lambda>s. s\<lparr>subgroup_avgs := subgroup_avgs s @ [subgroup_avg]\<rparr>)) (\<lambda>_.
     info (InfoSubgroupAvg subgroup subgroup_avg))))"

text \<open>The body of the subgroup loop, lines 146 to 214.\<close>

definition run_subgroup ::
  "('w, 'd, 'l) env \<Rightarrow> cfg \<Rightarrow> string list \<Rightarrow> string list \<Rightarrow> int list \<Rightarrow> range
     \<Rightarrow> (unit, ('w, 'd) state) stmt" where
  "run_subgroup env cfg domain_sequence domain_seq_loop severities subgroup =
     and_then (modify (\<lambda>s. s\<lparr>subgroup_cycle_errs := []\<rparr>)) (\<lambda>_.
     and_then (reset_model env subgroup) (\<lambda>_.
     run_cycles env cfg domain_sequence domain_seq_loop severities subgroup))"

definition run_subgroups ::
  "('w, 'd, 'l) env \<Rightarrow> cfg \<Rightarrow> string list \<Rightarrow> string list \<Rightarrow> int list
     \<Rightarrow> (unit, ('w, 'd) state) stmt" where
  "run_subgroups env cfg domain_sequence domain_seq_loop severities =
     for_each (run_subgroup env cfg domain_sequence domain_seq_loop severities) subgroups"

text \<open>Lines 119 to 214: the lists are set up and the subgroup loop runs.\<close>

definition evaluation_phase ::
  "('w, 'd, 'l) env \<Rightarrow> cfg \<Rightarrow> string list \<Rightarrow> (unit, ('w, 'd) state) stmt" where
  "evaluation_phase env cfg domain_sequence =
     and_then (when_do (gradual_severities cfg) (info (InfoSeverities (severities_of cfg)))) (\<lambda>_.
     and_then (init_lists env) (\<lambda>_.
     run_subgroups env cfg domain_sequence (domain_seq_loop_of cfg domain_sequence)
       (severities_of cfg)))"

subsection \<open>Reporting and the rest: lines 216 to 290\<close>

definition report_averages :: "(unit, ('w, 'd) state) stmt" where
  "report_averages =
     and_then (and_then (read_var cycle_avgs_all_subgroups)
                 (for_each (\<lambda>(cycle, cycle_errors).
                    and_then (py_mean cycle_errors) (\<lambda>cycle_avg_across_subgroups.
                      info (InfoCycleAcross cycle cycle_avg_across_subgroups))))) (\<lambda>_.
     and_then (and_then (read_var subgroup_avgs) (\<lambda>avgs.
                 for_each (\<lambda>(idx, avg). info (InfoFinalSubgroup (idx + 1) avg))
                   (enumerate 0 avgs))) (\<lambda>_.
     and_then (and_then (read_var subgroup_avgs) py_mean) (\<lambda>total_avg_error.
     info (InfoTotalAvg total_avg_error))))"

text \<open>The body of the loop of lines 233 to 274, where \<^verbatim>\<open>i_dom, domain_name = 0, 'mixed'\<close>.\<close>

definition evaluate_mixed ::
  "('w, 'd, 'l) env \<Rightarrow> cfg \<Rightarrow> string list \<Rightarrow> int \<Rightarrow> (unit, ('w, 'd) state) stmt" where
  "evaluate_mixed env cfg domain_sequence severity =
     and_then (ext_call AtMixedPass (GetTestLoader ''mixed_domains'' ''mixed'' severity)
                 (\<lambda>_. Returned)
                 (get_test_loader env cfg ''mixed_domains'' ''mixed'' domain_sequence severity))
       (\<lambda>test_data_loader.
     and_then (when_do ((0::nat) = 0) (info InfoTransform)) (\<lambda>_.
     and_then (read_var domain_dict) (\<lambda>domain_dict0.
     and_then (ext_call AtMixedPass (GetAccuracy ''mixed_domains'' ''mixed'' severity)
                 (\<lambda>(acc, dd, num_samples). ReturnedAcc acc num_samples)
                 (get_accuracy env cfg test_data_loader ''mixed'' ''mixed_domains''
                    domain_dict0))
       (\<lambda>(acc, dd, num_samples).
     and_then (modify (\<lambda>s. s\<lparr>domain_dict := dd\<rparr>)) (\<lambda>_.
     and_then (modify (\<lambda>s. s\<lparr>errs := errs s @ [1 - acc]\<rparr>)) (\<lambda>_.
     and_then (when_do (severity = 5 \<and> ''mixed'' \<noteq> ''none'')
                 (modify (\<lambda>s. s\<lparr>errs_5 := errs_5 s @ [1 - acc]\<rparr>))) (\<lambda>_.
     info (InfoError (CORRUPTION_DATASET cfg) ''mixed'' severity num_samples
             (1 - acc)))))))))"

text \<open>\<^verbatim>\<open>np.mean(xs)\<close>; of an empty list it is nan, here \<open>None\<close>.\<close>

definition np_mean :: "real list \<Rightarrow> real option" where
  "np_mean xs = (if xs = [] then None else Some (sum_list xs / real (length xs)))"

definition finish :: "('w, 'd, 'l) env \<Rightarrow> cfg \<Rightarrow> string list \<Rightarrow> (unit, ('w, 'd) state) stmt" where
  "finish env cfg domain_sequence =
     and_then (and_then (read_var errs) (\<lambda>es. and_then (read_var errs_5) (\<lambda>es5.
                 if length es5 > 0
                 then info (InfoMeanError (np_mean es) (Some (np_mean es5)))
                 else info (InfoMeanError (np_mean es) None)))) (\<lambda>_.
     and_then (and_then (read_var domain_dict) (\<lambda>dd.
                 when_do (str_in ''mixed_domains'' (SETTING cfg) \<and> dict_len env dd > 0)
                   (ext_call AtFinish EvalDomainDict (\<lambda>_. Returned)
                      (eval_domain_dict env dd domain_sequence)))) (\<lambda>_.
     and_then (when_do (TEST_DEBUG cfg)
                 (ext_call AtFinish PrintMemoryInfo (\<lambda>_. Returned) (print_memory_info env))) (\<lambda>_.
     and_then (ext_call AtFinish WandbSave (\<lambda>_. Returned) (wandb_save env)) (\<lambda>_.
     ext_call AtFinish WandbFinish (\<lambda>_. Returned) (wandb_finish env)))))"

subsection \<open>The function evaluate\<close>

text \<open>What follows the setting up of \<^verbatim>\<open>wandb\<close>: lines 48 to 290.\<close>

definition after_wandb_setup :: "('w, 'd, 'l) env \<Rightarrow> cfg \<Rightarrow> (unit, ('w, 'd) state) stmt" where
  "after_wandb_setup env cfg =
     and_then (setup_model env cfg) (\<lambda>_.
     and_then (describe_ours env cfg) (\<lambda>_.
     and_then (get_domain_sequence env cfg) (\<lambda>domain_sequence.
     and_then (info (InfoDomainSequence (CORRUPTION_DATASET cfg) domain_sequence)) (\<lambda>_.
     and_then (evaluation_phase env cfg domain_sequence) (\<lambda>_.
     and_then report_averages (\<lambda>_.
     and_then (when_do (SETTING cfg = ''continual_mixed_domain'')
                 (for_each (evaluate_mixed env cfg domain_sequence) (severities_of cfg))) (\<lambda>_.
     finish env cfg domain_sequence)))))))"

text \<open>What follows the validation of the setting: lines 35 to 290.\<close>

definition after_validation :: "('w, 'd, 'l) env \<Rightarrow> cfg \<Rightarrow> (unit, ('w, 'd) state) stmt" where
  "after_validation env cfg =
     and_then (ext_call Setup WandbSetup (\<lambda>_. Returned) (wandb_setup env cfg)) (\<lambda>_.
     after_wandb_setup env cfg)"

definition evaluate_stmt :: "('w, 'd, 'l) env \<Rightarrow> string \<Rightarrow> (unit, ('w, 'd) state) stmt" where
  "evaluate_stmt env description =
     and_then (ext_call Setup (LoadCfgFromArgs description) (\<lambda>_. Returned)
                 (load_cfg_from_args env description)) (\<lambda>cfg.
     and_then (py_assert (SETTING cfg \<in> set valid_settings)) (\<lambda>_.
     after_validation env cfg))"

text \<open>Before \<^verbatim>\<open>evaluate\<close> runs, nothing has been recorded.\<close>

definition initial_state :: "('w, 'd, 'l) env \<Rightarrow> 'w \<Rightarrow> ('w, 'd) state" where
  "initial_state env w =
     \<lparr>world = w, domain_dict = empty_dict env, errs = [], errs_5 = [], subgroup_avgs = [],
      cycle_avgs_all_subgroups = [], subgroup_cycle_errs = [], cycle_errs = [],
      logged = [], trace = []\<rparr>"

definition evaluate :: "('w, 'd, 'l) env \<Rightarrow> string \<Rightarrow> 'w \<Rightarrow> (exn + unit) \<times> ('w, 'd) state" where
  "evaluate env description w = evaluate_stmt env description (initial_state env w)"

section \<open>What the claims speak about\<close>

subsection \<open>The iteration plan\<close>

datatype routine = Loader | Accuracy

text \<open>
  The calls of the data-loader factory and of the accuracy routine made inside the
  subgroup loop, each with the subgroup, the cycle and the domain index at which it was
  made and the severity it was given.
\<close>

definition eval_call :: "event \<Rightarrow> (routine \<times> range \<times> nat \<times> nat \<times> int) list" where
  "eval_call ev =
     (case ev_place ev of
        AtEval sg c i \<Rightarrow>
          (case ev_call ev of
             GetTestLoader st dn sev \<Rightarrow> [(Loader, sg, c, i, sev)]
           | GetAccuracy st dn sev \<Rightarrow> [(Accuracy, sg, c, i, sev)]
           | _ \<Rightarrow> [])
      | _ \<Rightarrow> [])"

definition eval_calls :: "event list \<Rightarrow> (routine \<times> range \<times> nat \<times> nat \<times> int) list" where
  "eval_calls tr = concat (map eval_call tr)"

text \<open>
  The plan: the five subgroups in order, two cycles each, the domain indices of the
  subgroup in increasing order, every severity in order, and for each of these one call
  of the loader followed by one call of the accuracy routine.
\<close>

definition plan_calls :: "int list \<Rightarrow> (routine \<times> range \<times> nat \<times> nat \<times> int) list" where
  "plan_calls severities =
     [(r, sg, c, i, sev).
        sg \<leftarrow> [(0, 3), (3, 7), (7, 10), (10, 12), (12, 15)], c \<leftarrow> [0, 1],
        i \<leftarrow> [fst sg ..< snd sg], sev \<leftarrow> severities, r \<leftarrow> [Loader, Accuracy]]"

subsection \<open>Routines that do not raise\<close>

definition returns :: "(exn + 'a) \<times> 'w \<Rightarrow> bool" where
  "returns r = (case fst r of Inr _ \<Rightarrow> True | Inl _ \<Rightarrow> False)"

text \<open>
  Inside the subgroup loop nothing goes wrong in the routines called: the loader factory
  and the accuracy routine return, and \<^verbatim>\<open>model.reset()\<close> returns or is missing.
\<close>

definition quiet_loop :: "('w, 'd, 'l) env \<Rightarrow> bool" where
  "quiet_loop env \<longleftrightarrow>
     (\<forall>w. case fst (model_reset env w) of Inr _ \<Rightarrow> True | Inl e \<Rightarrow> e = AttributeError)
     \<and> (\<forall>c st dn ds sev w. returns (get_test_loader env c st dn ds sev w))
     \<and> (\<forall>c l dn st dd w. returns (get_accuracy env c l dn st dd w))"

section \<open>Reasoning about statements\<close>

text \<open>
  \<open>post f s Q E\<close>: running \<open>f\<close> from \<open>s\<close> either returns a value and a state that
  satisfy \<open>Q\<close>, or raises an exception and leaves a state that satisfy \<open>E\<close>.
\<close>

definition post ::
  "('a, 's) stmt \<Rightarrow> 's \<Rightarrow> ('a \<Rightarrow> 's \<Rightarrow> bool) \<Rightarrow> (exn \<Rightarrow> 's \<Rightarrow> bool) \<Rightarrow> bool" where
  "post f s Q E = (case f s of (Inr v, s') \<Rightarrow> Q v s' | (Inl e, s') \<Rightarrow> E e s')"

text \<open>
  \<open>emits f P\<close>: whatever \<open>f\<close> does, the loader and accuracy calls it makes inside the
  subgroup loop are \<open>P\<close> when it returns, and an initial part of \<open>P\<close> when it raises.
\<close>

definition emits :: "('a, ('w, 'd) state) stmt \<Rightarrow> (routine \<times> range \<times> nat \<times> nat \<times> int) list \<Rightarrow> bool"
  where
  "emits f P =
     (\<forall>s. post f s (\<lambda>_ s'. \<exists>T. trace s' = trace s @ T \<and> eval_calls T = P)
                    (\<lambda>_ s'. \<exists>T. trace s' = trace s @ T \<and> prefix (eval_calls T) P))"

text \<open>\<open>preserves I E f\<close>: from a state in \<open>I\<close>, \<open>f\<close> returns in \<open>I\<close> or raises in \<open>E\<close>.\<close>

definition preserves ::
  "('s \<Rightarrow> bool) \<Rightarrow> (exn \<Rightarrow> 's \<Rightarrow> bool) \<Rightarrow> ('a, 's) stmt \<Rightarrow> bool" where
  "preserves I E f = (\<forall>s. I s \<longrightarrow> post f s (\<lambda>_. I) E)"

definition keys_ready :: "('w, 'd) state \<Rightarrow> bool" where
  "keys_ready s \<longleftrightarrow> map fst (cycle_avgs_all_subgroups s) = [1, 2]"

definition filled :: "('w, 'd) state \<Rightarrow> nat \<Rightarrow> bool" where
  "filled s k \<longleftrightarrow> (\<exists>l. map_of (cycle_avgs_all_subgroups s) k = Some l \<and> l \<noteq> [])"

definition same_averages :: "('w, 'd) state \<Rightarrow> ('w, 'd) state \<Rightarrow> bool" where
  "same_averages s s' \<longleftrightarrow>
     cycle_avgs_all_subgroups s' = cycle_avgs_all_subgroups s
     \<and> subgroup_cycle_errs s' = subgroup_cycle_errs s
     \<and> subgroup_avgs s' = subgroup_avgs s"

definition loop_raise :: "string list \<Rightarrow> int list \<Rightarrow> nat list \<Rightarrow> exn \<Rightarrow> bool" where
  "loop_raise dsl sevs xs e \<longleftrightarrow>
     (e = IndexError \<and> (\<exists>i\<in>set xs. \<not> i < length dsl))
     \<or> (e = ZeroDivisionError \<and> sevs = [] \<and> (\<forall>i\<in>set xs. i < length dsl))"

definition ready_to_report :: "('w, 'd) state \<Rightarrow> bool" where
  "ready_to_report s \<longleftrightarrow> keys_ready s \<and> filled s 1 \<and> filled s 2 \<and> subgroup_avgs s \<noteq> []"

subsection \<open>An example run\<close>

text \<open>
  The fifteen corruptions of ImageNet-C at severity 5, and routines that always return:
  the world counts the calls of \<^verbatim>\<open>get_accuracy\<close>, the \<open>n\<close>-th of which (from 0) reports
  the accuracy \<open>1 / (n + 2)\<close>; the model has no \<^verbatim>\<open>reset\<close>.
\<close>

definition example_cfg :: cfg where
  "example_cfg =
     \<lparr>SETTING = ''continual'', MODEL_ADAPTATION = ''source'',
      CORRUPTION_DATASET = ''imagenet_c'',
      CORRUPTION_TYPE =
        [''gaussian_noise'', ''shot_noise'', ''impulse_noise'', ''defocus_blur'', ''glass_blur'',
         ''motion_blur'', ''zoom_blur'', ''snow'', ''frost'', ''fog'', ''brightness'',
         ''contrast'', ''elastic_transform'', ''pixelate'', ''jpeg_compression''],
      CORRUPTION_SEVERITY = [5], MODEL_CKPT_PATH = [], Ours_LOSSES = [], TEST_DEBUG = False\<rparr>"

definition example_env :: "cfg \<Rightarrow> (nat, nat, unit) env" where
  "example_env c =
     \<lparr>load_cfg_from_args = (\<lambda>description w. (Inr c, w)),
      wandb_setup = (\<lambda>cfg w. (Inr (), w)),
      get_num_classes = (\<lambda>dataset_name w. (Inr 1000, w)),
      get_model = (\<lambda>cfg num_classes w. (Inr (), w)),
      registered_names = (\<lambda>w. (Inr [''source'', ''ours''], w)),
      build_adaptation = (\<lambda>cfg num_classes w. (Inr (), w)),
      wandb_summary = (\<lambda>student_losses t2_losses w. (Inr (), w)),
      ckpt_path_to_domain_seq = (\<lambda>ckpt_path w. (Inr [], w)),
      model_reset = (\<lambda>w. (Inl AttributeError, w)),
      get_test_loader = (\<lambda>cfg setting domain_name domain_names_all severity w. (Inr (), w)),
      get_accuracy = (\<lambda>cfg loader domain_name setting dd w.
                        (Inr (1 / (real w + 2), dd + 1, 10), w + 1)),
      empty_dict = 0,
      dict_len = (\<lambda>dd. dd),
      eval_domain_dict = (\<lambda>dd domain_seq w. (Inr (), w)),
      print_memory_info = (\<lambda>w. (Inr (), w)),
      wandb_save = (\<lambda>w. (Inr (), w)),
      wandb_finish = (\<lambda>w. (Inr (), w))\<rparr>"

definition mixed_cfg :: cfg where
  "mixed_cfg = example_cfg\<lparr>SETTING := ''mixed_domains''\<rparr>"

definition no_severity_cfg :: cfg where
  "no_severity_cfg =
     example_cfg\<lparr>CORRUPTION_TYPE :=
                   [''gaussian_noise'', ''shot_noise'', ''impulse_noise'', ''defocus_blur'',
                    ''glass_blur''],
                 CORRUPTION_SEVERITY := []\<rparr>"

definition bogus_cfg :: cfg where
  "bogus_cfg = example_cfg\<lparr>SETTING := ''episodic''\<rparr>"

definition error_of :: "event \<Rightarrow> real list" where
  "error_of ev = (case ev_outcome ev of ReturnedAcc acc n \<Rightarrow> [1 - acc] | _ \<Rightarrow> [])"

definition in_cycle :: "range \<Rightarrow> nat \<Rightarrow> event \<Rightarrow> bool" where
  "in_cycle sg c ev = (case ev_place ev of AtEval sg' c' i \<Rightarrow> sg' = sg \<and> c' = c | _ \<Rightarrow> False)"

definition cycle_errors :: "range \<Rightarrow> nat \<Rightarrow> event list \<Rightarrow> real list" where
  "cycle_errors sg c tr = concat (map error_of (filter (in_cycle sg c) tr))"

definition arithmetic_mean :: "real list \<Rightarrow> real" where
  "arithmetic_mean xs = sum_list xs / real (length xs)"

definition cycle_mean :: "range \<Rightarrow> nat \<Rightarrow> event list \<Rightarrow> real" where
  "cycle_mean sg c tr = arithmetic_mean (cycle_errors sg c tr)"

definition subgroup_mean :: "range \<Rightarrow> event list \<Rightarrow> real" where
  "subgroup_mean sg tr = arithmetic_mean [cycle_mean sg 0 tr, cycle_mean sg 1 tr]"

definition is_average :: "log_entry \<Rightarrow> bool" where
  "is_average entry =
     (case entry of
        InfoCycleAvg sg c v \<Rightarrow> True
      | InfoSubgroupAvg sg v \<Rightarrow> True
      | InfoTotalAvg v \<Rightarrow> True
      | _ \<Rightarrow> False)"

definition reported_averages :: "log_entry list \<Rightarrow> log_entry list" where
  "reported_averages entries = filter is_average entries"

definition subgroup_report :: "event list \<Rightarrow> range \<Rightarrow> log_entry list" where
  "subgroup_report tr sg =
     [InfoCycleAvg sg 1 (cycle_mean sg 0 tr), InfoCycleAvg sg 2 (cycle_mean sg 1 tr),
      InfoSubgroupAvg sg (subgroup_mean sg tr)]"

definition expected_averages :: "event list \<Rightarrow> log_entry list" where
  "expected_averages tr =
     concat (map (subgroup_report tr) [(0, 3), (3, 7), (7, 10), (10, 12), (12, 15)])
     @ [InfoTotalAvg (arithmetic_mean
          (map (\<lambda>sg. subgroup_mean sg tr) [(0, 3), (3, 7), (7, 10), (10, 12), (12, 15)]))]"

definition cycle_rel ::
  "range \<Rightarrow> nat \<Rightarrow> ('w, 'd) state \<Rightarrow> ('w, 'd) state \<Rightarrow> bool" where
  "cycle_rel sg c s0 s \<longleftrightarrow>
     (\<exists>T L. trace s = trace s0 @ T \<and> logged s = logged s0 @ L
        \<and> list_all (in_cycle sg c) T \<and> reported_averages L = []
        \<and> cycle_errs s = cycle_errs s0 @ concat (map error_of T))
     \<and> subgroup_cycle_errs s = subgroup_cycle_errs s0
     \<and> subgroup_avgs s = subgroup_avgs s0
     \<and> cycle_avgs_all_subgroups s = cycle_avgs_all_subgroups s0"

definition cycle_effect ::
  "range \<Rightarrow> nat \<Rightarrow> ('w, 'd) state \<Rightarrow> ('w, 'd) state \<Rightarrow> bool" where
  "cycle_effect sg c s s' \<longleftrightarrow>
     (\<exists>T L. trace s' = trace s @ T \<and> logged s' = logged s @ L
        \<and> list_all (in_cycle sg c) T
        \<and> reported_averages L
            = [InfoCycleAvg sg (c + 1) (arithmetic_mean (concat (map error_of T)))]
        \<and> subgroup_cycle_errs s'
            = subgroup_cycle_errs s @ [arithmetic_mean (concat (map error_of T))])
     \<and> subgroup_avgs s' = subgroup_avgs s"

definition eval_of :: "range \<Rightarrow> event \<Rightarrow> bool" where
  "eval_of sg ev = (case ev_place ev of AtEval sg' c i \<Rightarrow> sg' = sg | _ \<Rightarrow> True)"

definition no_eval :: "event \<Rightarrow> bool" where
  "no_eval ev = (case ev_place ev of AtEval sg c i \<Rightarrow> False | _ \<Rightarrow> True)"

definition subgroup_effect :: "range \<Rightarrow> ('w, 'd) state \<Rightarrow> ('w, 'd) state \<Rightarrow> bool" where
  "subgroup_effect sg s s' \<longleftrightarrow>
     (\<exists>T L. trace s' = trace s @ T \<and> logged s' = logged s @ L
        \<and> list_all (eval_of sg) T
        \<and> reported_averages L = subgroup_report T sg
        \<and> subgroup_avgs s' = subgroup_avgs s @ [subgroup_mean sg T])"

definition tagged :: "range list \<Rightarrow> event \<Rightarrow> bool" where
  "tagged done ev = (case ev_place ev of AtEval sg c i \<Rightarrow> sg \<in> set done | _ \<Rightarrow> True)"

definition loop_report :: "range list \<Rightarrow> ('w, 'd) state \<Rightarrow> bool" where
  "loop_report done s \<longleftrightarrow>
     list_all (tagged done) (trace s)
     \<and> reported_averages (logged s) = concat (map (subgroup_report (trace s)) done)
     \<and> subgroup_avgs s = map (\<lambda>sg. subgroup_mean sg (trace s)) done"

definition clean :: "('w, 'd) state \<Rightarrow> bool" where
  "clean s \<longleftrightarrow> list_all no_eval (trace s) \<and> reported_averages (logged s) = []"

definition final_report :: "('w, 'd) state \<Rightarrow> bool" where
  "final_report s \<longleftrightarrow> reported_averages (logged s) = expected_averages (trace s)"

definition report_frame :: "('w, 'd) state \<Rightarrow> ('w, 'd) state \<Rightarrow> bool" where
  "report_frame s0 s \<longleftrightarrow>
     trace s = trace s0 \<and> subgroup_avgs s = subgroup_avgs s0
     \<and> reported_averages (logged s) = reported_averages (logged s0)"

definition error_5_of :: "event \<Rightarrow> real list" where
  "error_5_of ev =
     (case ev_call ev of
        GetAccuracy st dn sev \<Rightarrow> (if sev = 5 \<and> dn \<noteq> ''none'' then error_of ev else [])
      | _ \<Rightarrow> [])"

definition recorded :: "('w, 'd) state \<Rightarrow> bool" where
  "recorded s \<longleftrightarrow>
     errs s = concat (map error_of (trace s)) \<and> errs_5 s = concat (map error_5_of (trace s))"

definition blank :: "('w, 'd) state \<Rightarrow> bool" where
  "blank s \<longleftrightarrow>
     list_all (\<lambda>ev. error_of ev = []) (trace s) \<and> errs s = [] \<and> errs_5 s = []"

definition continual_mixed_cfg :: cfg where
  "continual_mixed_cfg = example_cfg\<lparr>SETTING := ''continual_mixed_domain''\<rparr>"

subsection \<open>The reset at the start of a subgroup\<close>

text \<open>
  The calls made inside the subgroup loop: the reset of a subgroup, the loader and accuracy
  calls with the subgroup, the cycle, the domain index and the severity, and any other call.
\<close>

datatype step = ResetOf range | EvalOf routine range nat nat int | OtherCall call

definition loop_step :: "event \<Rightarrow> step list" where
  "loop_step ev =
     (case ev_place ev of
        AtSubgroup sg \<Rightarrow>
          (case ev_call ev of ModelReset \<Rightarrow> [ResetOf sg] | c \<Rightarrow> [OtherCall c])
      | AtEval sg c i \<Rightarrow>
          (case ev_call ev of
             GetTestLoader st dn sev \<Rightarrow> [EvalOf Loader sg c i sev]
           | GetAccuracy st dn sev \<Rightarrow> [EvalOf Accuracy sg c i sev]
           | c \<Rightarrow> [OtherCall c])
      | _ \<Rightarrow> [])"

definition loop_steps :: "event list \<Rightarrow> step list" where
  "loop_steps tr = concat (map loop_step tr)"

text \<open>
  The plan of the loop with its resets: for each of the five subgroups in order, first the
  reset, then the loader and accuracy calls of its two cycles, and no other call.
\<close>

definition loop_plan :: "int list \<Rightarrow> step list" where
  "loop_plan severities =
     concat (map (\<lambda>sg. ResetOf sg #
                    [EvalOf r sg c i sev.
                       c \<leftarrow> [0, 1], i \<leftarrow> [fst sg ..< snd sg], sev \<leftarrow> severities,
                       r \<leftarrow> [Loader, Accuracy]])
               [(0, 3), (3, 7), (7, 10), (10, 12), (12, 15)])"

text \<open>
  \<open>makes f P\<close>: whatever \<open>f\<close> does, the calls it makes inside the subgroup loop are \<open>P\<close>
  when it returns, and an initial part of \<open>P\<close> when it raises.
\<close>

definition makes :: "('a, ('w, 'd) state) stmt \<Rightarrow> step list \<Rightarrow> bool" where
  "makes f P =
     (\<forall>s. post f s (\<lambda>_ s'. \<exists>T. trace s' = trace s @ T \<and> loop_steps T = P)
                    (\<lambda>_ s'. \<exists>T. trace s' = trace s @ T \<and> prefix (loop_steps T) P))"

text \<open>
  A call that raised is recovered when it is \<^verbatim>\<open>model.reset()\<close> and the exception is an
  AttributeError; calls that returned count as recovered.
\<close>

definition recovered :: "event \<Rightarrow> bool" where
  "recovered ev =
     (case ev_outcome ev of
        Raises e \<Rightarrow> ev_call ev = ModelReset \<and> is_AttributeError e
      | _ \<Rightarrow> True)"

text \<open>The exceptions that the statements of \<^verbatim>\<open>evaluate\<close> themselves raise.\<close>

definition own_exception :: "exn \<Rightarrow> bool" where
  "own_exception e \<longleftrightarrow> e \<in> set [AssertionError, IndexError, ZeroDivisionError, KeyError]"

text \<open>What the logger is told about a reset, and the log entries that are about a reset.\<close>

definition reset_entry :: "event \<Rightarrow> log_entry list" where
  "reset_entry ev =
     (case ev_place ev of
        AtSubgroup sg \<Rightarrow>
          (case ev_call ev of
             ModelReset \<Rightarrow>
               (case ev_outcome ev of
                  Raises e \<Rightarrow> if is_AttributeError e then [WarningResetNotAvailable] else []
                | _ \<Rightarrow> [InfoReset sg])
           | _ \<Rightarrow> [])
      | _ \<Rightarrow> [])"

definition about_reset :: "log_entry \<Rightarrow> bool" where
  "about_reset entry =
     (case entry of InfoReset sg \<Rightarrow> True | WarningResetNotAvailable \<Rightarrow> True | _ \<Rightarrow> False)"

definition reset_log :: "('w, 'd) state \<Rightarrow> bool" where
  "reset_log s \<longleftrightarrow> filter about_reset (logged s) = concat (map reset_entry (trace s))"

text \<open>
  \<open>in_order s\<close>: so far every exception was recovered; \<open>raised e s\<close>: the exception \<open>e\<close>
  is either one of the driver's own, raised when all calls so far were recovered, or it
  is the exception of the last call made, which is not recovered.
\<close>

definition in_order :: "('w, 'd) state \<Rightarrow> bool" where
  "in_order s \<longleftrightarrow> list_all recovered (trace s) \<and> reset_log s"

definition raised :: "exn \<Rightarrow> ('w, 'd) state \<Rightarrow> bool" where
  "raised e s \<longleftrightarrow>
     reset_log s
     \<and> (if list_all recovered (trace s) then own_exception e
        else trace s \<noteq> [] \<and> ev_outcome (last (trace s)) = Raises e
             \<and> list_all recovered (butlast (trace s)))"

text \<open>
  A quiet environment: no routine raises, a missing \<^verbatim>\<open>reset\<close> apart; the registry knows
  the adaptations \<open>names\<close> and the checkpoint path gives the domain sequence \<open>ckpt_seq\<close>.
\<close>

definition quiet_env :: "('w, 'd, 'l) env \<Rightarrow> string list \<Rightarrow> string list \<Rightarrow> bool" where
  "quiet_env env names ckpt_seq \<longleftrightarrow>
     quiet_loop env
     \<and> (\<forall>c w. returns (wandb_setup env c w))
     \<and> (\<forall>d w. returns (get_num_classes env d w))
     \<and> (\<forall>c n w. returns (get_model env c n w))
     \<and> (\<forall>w. fst (registered_names env w) = Inr names)
     \<and> (\<forall>c n w. returns (build_adaptation env c n w))
     \<and> (\<forall>l1 l2 w. returns (wandb_summary env l1 l2 w))
     \<and> (\<forall>p w. fst (ckpt_path_to_domain_seq env p w) = Inr ckpt_seq)
     \<and> (\<forall>dd ds w. returns (eval_domain_dict env dd ds w))
     \<and> (\<forall>w. returns (print_memory_info env w))
     \<and> (\<forall>w. returns (wandb_save env w))
     \<and> (\<forall>w. returns (wandb_finish env w))"

text \<open>The domain sequence of lines 109 to 117, when \<^verbatim>\<open>cfg.CORRUPTION.TYPE[0]\<close> can be read.\<close>

definition domain_sequence_of :: "cfg \<Rightarrow> string list \<Rightarrow> string list" where
  "domain_sequence_of cfg ckpt_seq =
     (if CORRUPTION_DATASET cfg = ''domainnet126'' then ckpt_seq
      else if CORRUPTION_DATASET cfg \<in> set [''imagenet_d'', ''imagenet_d109'']
              \<and> hd (CORRUPTION_TYPE cfg) = []
      then [''clipart'', ''infograph'', ''painting'', ''real'', ''sketch'']
      else CORRUPTION_TYPE cfg)"

text \<open>
  How the subgroup loop ends in a quiet environment, for a looped domain sequence of \<open>n\<close>
  entries: the index 0, 1 or 2 is out of range (line 159), or the first cycle has no
  error to average (line 206), or a later index is out of range, or the loop completes.
\<close>

definition loop_outcome :: "nat \<Rightarrow> int list \<Rightarrow> exn + unit" where
  "loop_outcome n severities =
     (if n < 3 then Inl IndexError
      else if severities = [] then Inl ZeroDivisionError
      else if n < 15 then Inl IndexError
      else Inr ())"

text \<open>
  How \<^verbatim>\<open>evaluate\<close> ends in a quiet environment: with the exception of the first of its
  own statements that fails (lines 33, 59, 113, 159 and 206), and normally if none does.
\<close>

definition own_outcome :: "cfg \<Rightarrow> string list \<Rightarrow> string list \<Rightarrow> exn + unit" where
  "own_outcome cfg names ckpt_seq =
     (if SETTING cfg \<notin> set valid_settings then Inl AssertionError
      else if MODEL_ADAPTATION cfg \<notin> set names then Inl AssertionError
      else if CORRUPTION_DATASET cfg \<in> set [''imagenet_d'', ''imagenet_d109'']
              \<and> CORRUPTION_TYPE cfg = []
      then Inl IndexError
      else loop_outcome (length (domain_seq_loop_of cfg (domain_sequence_of cfg ckpt_seq)))
             (severities_of cfg))"

text \<open>
  Environments for examples: a \<^verbatim>\<open>reset\<close> that raises RuntimeError, one that raises an
  exception of a class derived from AttributeError, one that works, and a \<^verbatim>\<open>wandb\<close> that
  cannot be reached.
\<close>

definition broken_reset_env :: "(nat, nat, unit) env" where
  "broken_reset_env =
     (example_env example_cfg)\<lparr>model_reset := (\<lambda>w. (Inl (Raised ''RuntimeError''), w))\<rparr>"

definition frozen_reset_env :: "(nat, nat, unit) env" where
  "frozen_reset_env =
     (example_env example_cfg)
       \<lparr>model_reset := (\<lambda>w. (Inl (AttributeErrorSubclass ''FrozenInstanceError''), w))\<rparr>"

definition working_reset_env :: "(nat, nat, unit) env" where
  "working_reset_env = (example_env example_cfg)\<lparr>model_reset := (\<lambda>w. (Inr (), 0))\<rparr>"

definition no_wandb_env :: "(nat, nat, unit) env" where
  "no_wandb_env =
     (example_env example_cfg)\<lparr>wandb_setup := (\<lambda>cfg w. (Inl (Raised ''CommError''), w))\<rparr>"

section \<open>The loss functions (utils/losses.py)\<close>

subsection \<open>Floats\<close>

text \<open>
  A float is a real number, plus or minus infinity, or not a number. Rounding, overflow and
  the sign of zero are left out: an operation on finite numbers whose result is defined
  gives that result exactly, and a division by zero gives what floating point gives for
  a positive zero.
\<close>

datatype fval = Finite real | PosInf | NegInf | NaN

fun fneg :: "fval \<Rightarrow> fval" where
  "fneg (Finite a) = Finite (- a)"
| "fneg PosInf = NegInf"
| "fneg NegInf = PosInf"
| "fneg NaN = NaN"

fun fadd :: "fval \<Rightarrow> fval \<Rightarrow> fval" where
  "fadd (Finite a) (Finite b) = Finite (a + b)"
| "fadd NaN y = NaN"
| "fadd x NaN = NaN"
| "fadd PosInf NegInf = NaN"
| "fadd NegInf PosInf = NaN"
| "fadd PosInf y = PosInf"
| "fadd x PosInf = PosInf"
| "fadd NegInf y = NegInf"
| "fadd x NegInf = NegInf"

definition fsub :: "fval \<Rightarrow> fval \<Rightarrow> fval" where
  "fsub x y = fadd x (fneg y)"

text \<open>The sign of a float that is not NaN: \<open>1\<close>, \<open>0\<close> or \<open>-1\<close>.\<close>

fun fsign :: "fval \<Rightarrow> real" where
  "fsign (Finite a) = sgn a"
| "fsign PosInf = 1"
| "fsign NegInf = - 1"
| "fsign NaN = 0"

definition signed_inf :: "real \<Rightarrow> fval" where
  "signed_inf s = (if 0 < s then PosInf else if s < 0 then NegInf else NaN)"

fun fmul :: "fval \<Rightarrow> fval \<Rightarrow> fval" where
  "fmul (Finite a) (Finite b) = Finite (a * b)"
| "fmul NaN y = NaN"
| "fmul x NaN = NaN"
| "fmul x y = signed_inf (fsign x * fsign y)"

fun fdiv :: "fval \<Rightarrow> fval \<Rightarrow> fval" where
  "fdiv (Finite a) (Finite b) = (if b = 0 then signed_inf (sgn a) else Finite (a / b))"
| "fdiv NaN y = NaN"
| "fdiv x NaN = NaN"
| "fdiv (Finite a) y = Finite 0"
| "fdiv x (Finite b) = signed_inf (fsign x * (if b < 0 then - 1 else 1))"
| "fdiv x y = NaN"

fun fexp :: "fval \<Rightarrow> fval" where
  "fexp (Finite a) = Finite (exp a)"
| "fexp PosInf = PosInf"
| "fexp NegInf = Finite 0"
| "fexp NaN = NaN"

fun flog :: "fval \<Rightarrow> fval" where
  "flog (Finite a) = (if 0 < a then Finite (ln a) else if a = 0 then NegInf else NaN)"
| "flog PosInf = PosInf"
| "flog NegInf = NaN"
| "flog NaN = NaN"

definition fsum :: "fval list \<Rightarrow> fval" where
  "fsum xs = foldr fadd xs (Finite 0)"

fun is_finite :: "fval \<Rightarrow> bool" where
  "is_finite (Finite a) = True"
| "is_finite x = False"

fun real_of :: "fval \<Rightarrow> real" where
  "real_of (Finite a) = a"
| "real_of x = 0"

subsection \<open>Tensors and the operations of torch that the losses use\<close>

text \<open>
  A tensor of floats: its shape and its entries in row-major order. Strides are not
  modelled: every tensor is contiguous. What the operations of torch do is taken from
  their documentation; an operation that torch refuses returns the exception.
\<close>

record tensor =
  shape :: "nat list"
  elems :: "fval list"

definition numel :: "tensor \<Rightarrow> nat" where
  "numel t = prod_list (shape t)"

definition wf_tensor :: "tensor \<Rightarrow> bool" where
  "wf_tensor t \<longleftrightarrow> length (elems t) = prod_list (shape t)"

definition scalar :: "fval \<Rightarrow> tensor" where
  "scalar v = \<lparr>shape = [], elems = [v]\<rparr>"

definition bind_exn :: "exn + 'a \<Rightarrow> ('a \<Rightarrow> exn + 'b) \<Rightarrow> exn + 'b" where
  "bind_exn r f = (case r of Inl e \<Rightarrow> Inl e | Inr v \<Rightarrow> f v)"

text \<open>\<open>grid r c f\<close>: the entries \<open>f i j\<close> of \<open>r\<close> rows and \<open>c\<close> columns, row after row.\<close>

definition grid :: "nat \<Rightarrow> nat \<Rightarrow> (nat \<Rightarrow> nat \<Rightarrow> 'a) \<Rightarrow> 'a list" where
  "grid r c f = concat (map (\<lambda>i. map (f i) [0 ..< c]) [0 ..< r])"

text \<open>
  Along a dimension \<open>d\<close> a tensor falls into fibres: with \<open>n\<close> the size of that dimension,
  \<open>outer\<close> the product of the sizes before it and \<open>inner\<close> the product of those after it,
  the fibre at \<open>(o, i)\<close> has the entries at \<open>(o * n + k) * inner + i\<close> for \<open>k < n\<close>. For
  dimensions a tensor without dimensions counts as one of shape \<open>[1]\<close>.
\<close>

definition dims :: "tensor \<Rightarrow> nat list" where
  "dims t = (if shape t = [] then [1] else shape t)"

definition outer :: "tensor \<Rightarrow> nat \<Rightarrow> nat" where
  "outer t d = prod_list (take d (dims t))"

definition inner :: "tensor \<Rightarrow> nat \<Rightarrow> nat" where
  "inner t d = prod_list (drop (Suc d) (dims t))"

definition fibre :: "tensor \<Rightarrow> nat \<Rightarrow> nat \<Rightarrow> nat \<Rightarrow> fval list" where
  "fibre t d o' i = map (\<lambda>k. elems t ! ((o' * (dims t ! d) + k) * inner t d + i)) [0 ..< dims t ! d]"

text \<open>An operation that works on every fibre along \<open>d\<close> and keeps the shape.\<close>

definition along :: "nat \<Rightarrow> (fval list \<Rightarrow> fval list) \<Rightarrow> tensor \<Rightarrow> exn + tensor" where
  "along d f t =
     (if d < length (dims t) then
        Inr (t\<lparr>elems :=
               concat (map (\<lambda>o'. grid (dims t ! d) (inner t d) (\<lambda>k i. f (fibre t d o' i) ! k))
                         [0 ..< outer t d])\<rparr>)
      else Inl IndexError)"

text \<open>An operation that replaces every fibre along \<open>d\<close> by one number; the dimension goes.\<close>

definition reduce :: "nat \<Rightarrow> (fval list \<Rightarrow> fval) \<Rightarrow> tensor \<Rightarrow> exn + tensor" where
  "reduce d g t =
     (if d < length (dims t) then
        Inr \<lparr>shape = take d (dims t) @ drop (Suc d) (dims t),
             elems = grid (outer t d) (inner t d) (\<lambda>o' i. g (fibre t d o' i))\<rparr>
      else Inl IndexError)"

definition softmax_list :: "fval list \<Rightarrow> fval list" where
  "softmax_list r = map (\<lambda>v. fdiv (fexp v) (fsum (map fexp r))) r"

definition log_softmax_list :: "fval list \<Rightarrow> fval list" where
  "log_softmax_list r = map flog (softmax_list r)"

text \<open>\<^verbatim>\<open>t.softmax(d)\<close>, \<^verbatim>\<open>t.log_softmax(d)\<close>, \<^verbatim>\<open>t.sum(d)\<close> and \<^verbatim>\<open>t.mean(dim=d)\<close>.\<close>

definition torch_softmax :: "tensor \<Rightarrow> nat \<Rightarrow> exn + tensor" where
  "torch_softmax t d = along d softmax_list t"

definition torch_log_softmax :: "tensor \<Rightarrow> nat \<Rightarrow> exn + tensor" where
  "torch_log_softmax t d = along d log_softmax_list t"

definition torch_sum_dim :: "tensor \<Rightarrow> nat \<Rightarrow> exn + tensor" where
  "torch_sum_dim t d = reduce d fsum t"

definition fmean :: "fval list \<Rightarrow> fval" where
  "fmean r = fdiv (fsum r) (Finite (real (length r)))"

definition torch_mean_dim :: "tensor \<Rightarrow> nat \<Rightarrow> exn + tensor" where
  "torch_mean_dim t d = reduce d fmean t"

text \<open>\<^verbatim>\<open>t.sum()\<close> and \<^verbatim>\<open>t.mean()\<close> over all entries; the mean of no entries is NaN.\<close>

definition torch_sum :: "tensor \<Rightarrow> tensor" where
  "torch_sum t = scalar (fsum (elems t))"

definition torch_mean :: "tensor \<Rightarrow> tensor" where
  "torch_mean t = scalar (fmean (elems t))"

text \<open>Operations entry by entry: \<^verbatim>\<open>-t\<close>, \<^verbatim>\<open>torch.log(t)\<close>, \<^verbatim>\<open>t.pow(2)\<close>, and those with a Python number.\<close>

definition entrywise :: "(fval \<Rightarrow> fval) \<Rightarrow> tensor \<Rightarrow> tensor" where
  "entrywise f t = t\<lparr>elems := map f (elems t)\<rparr>"

definition torch_neg :: "tensor \<Rightarrow> tensor" where
  "torch_neg = entrywise fneg"

definition torch_log :: "tensor \<Rightarrow> tensor" where
  "torch_log = entrywise flog"

definition torch_pow2 :: "tensor \<Rightarrow> tensor" where
  "torch_pow2 = entrywise (\<lambda>v. fmul v v)"

definition torch_add_number :: "tensor \<Rightarrow> real \<Rightarrow> tensor" where
  "torch_add_number t c = entrywise (\<lambda>v. fadd v (Finite c)) t"

definition torch_number_mul :: "real \<Rightarrow> tensor \<Rightarrow> tensor" where
  "torch_number_mul c t = entrywise (\<lambda>v. fmul (Finite c) v) t"

definition torch_div_number :: "tensor \<Rightarrow> real \<Rightarrow> tensor" where
  "torch_div_number t c = entrywise (\<lambda>v. fdiv v (Finite c)) t"

text \<open>
  Operations on two tensors, with broadcasting: the shapes are aligned at their last
  dimension, a missing dimension counts as 1, two sizes go together when they are equal
  or one of them is 1, and a dimension of size 1 is repeated.
\<close>

fun unravel :: "nat list \<Rightarrow> nat \<Rightarrow> nat list" where
  "unravel [] i = []"
| "unravel (d # ds) i = (i div prod_list ds) # unravel ds (i mod prod_list ds)"

fun ravel :: "nat list \<Rightarrow> nat list \<Rightarrow> nat" where
  "ravel (d # ds) (k # ks) = k * prod_list ds + ravel ds ks"
| "ravel ds ks = 0"

fun broadcast_shapes :: "nat list \<Rightarrow> nat list \<Rightarrow> nat list option" where
  "broadcast_shapes (a # as) (b # bs) =
     (case broadcast_shapes as bs of
        None \<Rightarrow> None
      | Some s \<Rightarrow>
          if a = b then Some (a # s) else if a = 1 then Some (b # s)
          else if b = 1 then Some (a # s) else None)"
| "broadcast_shapes as bs = Some []"

definition pad_shape :: "nat \<Rightarrow> nat list \<Rightarrow> nat list" where
  "pad_shape n s = replicate (n - length s) 1 @ s"

definition source_index :: "nat list \<Rightarrow> nat list \<Rightarrow> nat" where
  "source_index s ks = ravel s (map2 (\<lambda>d k. if d = 1 then 0 else k) s ks)"

definition pointwise :: "(fval \<Rightarrow> fval \<Rightarrow> fval) \<Rightarrow> tensor \<Rightarrow> tensor \<Rightarrow> exn + tensor" where
  "pointwise f a b =
     (let n = max (length (shape a)) (length (shape b));
          sa = pad_shape n (shape a); sb = pad_shape n (shape b)
      in case broadcast_shapes sa sb of
           None \<Rightarrow> Inl (Raised ''RuntimeError'')
         | Some s \<Rightarrow>
             Inr \<lparr>shape = s,
                  elems = map (\<lambda>idx. f (elems a ! source_index sa (unravel s idx))
                                       (elems b ! source_index sb (unravel s idx)))
                            [0 ..< prod_list s]\<rparr>)"

definition torch_mul :: "tensor \<Rightarrow> tensor \<Rightarrow> exn + tensor" where
  "torch_mul = pointwise fmul"

definition torch_sub :: "tensor \<Rightarrow> tensor \<Rightarrow> exn + tensor" where
  "torch_sub = pointwise fsub"

text \<open>\<^verbatim>\<open>t.size(0)\<close>; a tensor without dimensions has no size 0.\<close>

definition torch_size0 :: "tensor \<Rightarrow> exn + nat" where
  "torch_size0 t = (case shape t of [] \<Rightarrow> Inl IndexError | n # ds \<Rightarrow> Inr n)"

text \<open>
  \<^verbatim>\<open>t.view(n, -1)\<close>: the second size is the number of entries divided by \<open>n\<close>; torch refuses
  when \<open>n\<close> is 0 or does not divide the number of entries.
\<close>

definition torch_view_rows :: "tensor \<Rightarrow> nat \<Rightarrow> exn + tensor" where
  "torch_view_rows t n =
     (if 0 < n \<and> numel t mod n = 0 then Inr (t\<lparr>shape := [n, numel t div n]\<rparr>)
      else Inl (Raised ''RuntimeError''))"

text \<open>\<^verbatim>\<open>t.t()\<close> of a tensor of two dimensions, and \<^verbatim>\<open>torch.mm(a, b)\<close>.\<close>

definition torch_t :: "tensor \<Rightarrow> exn + tensor" where
  "torch_t t =
     (case shape t of
        [r, c] \<Rightarrow> Inr \<lparr>shape = [c, r], elems = grid c r (\<lambda>j i. elems t ! (i * c + j))\<rparr>
      | [] \<Rightarrow> Inr t
      | [n] \<Rightarrow> Inr t
      | _ \<Rightarrow> Inl (Raised ''RuntimeError''))"

definition torch_mm :: "tensor \<Rightarrow> tensor \<Rightarrow> exn + tensor" where
  "torch_mm a b =
     (case (shape a, shape b) of
        ([r, m], [m', c]) \<Rightarrow>
          if m = m' then
            Inr \<lparr>shape = [r, c],
                 elems = grid r c (\<lambda>i j. fsum (map (\<lambda>k. fmul (elems a ! (i * m + k))
                                                            (elems b ! (k * c + j)))
                                               [0 ..< m]))\<rparr>
          else Inl (Raised ''RuntimeError'')
      | _ \<Rightarrow> Inl (Raised ''RuntimeError''))"

subsection \<open>The losses\<close>

record SymmetricCrossEntropy =
  alpha :: real

text \<open>
  \<^verbatim>\<open>SymmetricCrossEntropy.__call__(self, x, x_ema)\<close>, lines 18 to 21. The unary minus
  binds tighter than the product: the first factor is \<open>- (1 - alpha)\<close>.
\<close>

definition SymmetricCrossEntropy_call ::
  "SymmetricCrossEntropy \<Rightarrow> tensor \<Rightarrow> tensor \<Rightarrow> exn + tensor" where
  "SymmetricCrossEntropy_call self x x_ema =
     bind_exn (torch_softmax x_ema 1) (\<lambda>p_ema.
     bind_exn (torch_log_softmax x 1) (\<lambda>l.
     bind_exn (torch_mul p_ema l) (\<lambda>prod1.
     bind_exn (torch_sum_dim prod1 1) (\<lambda>sum1.
     bind_exn (torch_softmax x 1) (\<lambda>p.
     bind_exn (torch_log_softmax x_ema 1) (\<lambda>l_ema.
     bind_exn (torch_mul p l_ema) (\<lambda>prod2.
     bind_exn (torch_sum_dim prod2 1) (\<lambda>sum2.
     torch_sub (torch_number_mul (- (1 - alpha self)) sum1)
       (torch_number_mul (alpha self) sum2)))))))))"

text \<open>\<^verbatim>\<open>entropy_loss(probs)\<close>, lines 74 and 75.\<close>

definition entropy_loss :: "tensor \<Rightarrow> exn + tensor" where
  "entropy_loss probs =
     bind_exn (torch_mul probs (torch_log (torch_add_number probs (1 / 10 ^ 16)))) (\<lambda>prod.
     bind_exn (torch_sum_dim prod 1) (\<lambda>s.
     Inr (torch_mean (torch_neg s))))"

text \<open>\<^verbatim>\<open>diversity_loss(ensemble_probs)\<close>, lines 88 to 90.\<close>

definition diversity_loss :: "tensor \<Rightarrow> exn + tensor" where
  "diversity_loss ensemble_probs =
     bind_exn (torch_mean_dim ensemble_probs 0) (\<lambda>mean_probs.
     bind_exn (torch_mul mean_probs (torch_log (torch_add_number mean_probs (1 / 10 ^ 16))))
       (\<lambda>prod.
     Inr (torch_neg (torch_sum prod))))"

text \<open>\<^verbatim>\<open>info_max_loss(probs)\<close>, lines 103 to 105.\<close>

definition info_max_loss :: "tensor \<Rightarrow> exn + tensor" where
  "info_max_loss probs =
     bind_exn (entropy_loss probs) (\<lambda>ent.
     bind_exn (diversity_loss probs) (\<lambda>div'.
     torch_sub ent div'))"

text \<open>
  \<^verbatim>\<open>orthogonal_loss(prototypes)\<close>, lines 118 to 122; \<open>n_prototypes * (n_prototypes - 1)\<close>
  is a product of Python integers.
\<close>

definition orthogonal_loss :: "tensor \<Rightarrow> exn + tensor" where
  "orthogonal_loss prototypes =
     bind_exn (torch_size0 prototypes) (\<lambda>n_prototypes.
     bind_exn (torch_view_rows prototypes n_prototypes) (\<lambda>prototypes.
     bind_exn (torch_t prototypes) (\<lambda>transposed.
     bind_exn (torch_mm prototypes transposed) (\<lambda>gram.
     Inr (torch_div_number (torch_sum (torch_pow2 gram))
            (real_of_int (int n_prototypes * (int n_prototypes - 1))))))))"

subsection \<open>What the claims about the losses speak about\<close>

definition finite_tensor :: "tensor \<Rightarrow> bool" where
  "finite_tensor t \<longleftrightarrow> list_all is_finite (elems t)"

text \<open>The entry \<open>(i, j)\<close> of a tensor of two dimensions with finite entries.\<close>

definition entry_at :: "tensor \<Rightarrow> nat \<Rightarrow> nat \<Rightarrow> real" where
  "entry_at t i j = real_of (elems t ! (i * (shape t ! 1) + j))"

text \<open>
  The prototypes as a matrix of \<open>m\<close> columns: the inner product of the rows \<open>i\<close> and \<open>j\<close>,
  which is the entry \<open>(i, j)\<close> of the Gram matrix, and the sum of the squares of all
  entries of the Gram matrix of \<open>n\<close> prototypes.
\<close>

definition gram_entry :: "tensor \<Rightarrow> nat \<Rightarrow> nat \<Rightarrow> nat \<Rightarrow> real" where
  "gram_entry p m i j =
     (\<Sum>k<m. real_of (elems p ! (i * m + k)) * real_of (elems p ! (j * m + k)))"

definition gram_square_sum :: "tensor \<Rightarrow> nat \<Rightarrow> real" where
  "gram_square_sum p n = (\<Sum>i<n. \<Sum>j<n. (gram_entry p (numel p div n) i j)\<^sup>2)"

text \<open>A call returns a finite scalar.\<close>

definition returns_finite_scalar :: "exn + tensor \<Rightarrow> bool" where
  "returns_finite_scalar r =
     (case r of Inr t \<Rightarrow> shape t = [] \<and> length (elems t) = 1 \<and> is_finite (elems t ! 0)
      | Inl e \<Rightarrow> False)"

text \<open>Two orthogonal prototypes, a single prototype, and no prototype at all.\<close>

definition two_prototypes :: tensor where
  "two_prototypes = \<lparr>shape = [2, 2], elems = [Finite 1, Finite 0, Finite 0, Finite 1]\<rparr>"

definition one_prototype :: tensor where
  "one_prototype = \<lparr>shape = [1, 2], elems = [Finite 1, Finite 0]\<rparr>"

definition no_prototype :: tensor where
  "no_prototype = \<lparr>shape = [0, 2], elems = []\<rparr>"

(*DEFS_END*)

subsection \<open>Rules for statements\<close>

lemma is_AttributeError_simps [simp]:
  "is_AttributeError AttributeError"
  "is_AttributeError (AttributeErrorSubclass name)"
  "\<not> is_AttributeError AssertionError"
  "\<not> is_AttributeError IndexError"
  "\<not> is_AttributeError ZeroDivisionError"
  "\<not> is_AttributeError KeyError"
  "\<not> is_AttributeError (Raised name)"
  by (simp_all add: is_AttributeError_def)

lemma post_ret [simp]: "post (ret v) s Q E = Q v s"
  by (simp add: post_def ret_def)

lemma post_raise_exn [simp]: "post (raise_exn e) s Q E = E e s"
  by (simp add: post_def raise_exn_def)

lemma post_and_then [simp]:
  "post (and_then f g) s Q E = post f s (\<lambda>v s'. post (g v) s' Q E) E"
  by (simp add: post_def and_then_def split: prod.splits sum.splits)

lemma post_modify [simp]: "post (modify f) s Q E = Q () (f s)"
  by (simp add: post_def modify_def)

lemma post_read_var [simp]: "post (read_var x) s Q E = Q (x s) s"
  by (simp add: post_def read_var_def)

lemma post_py_assert [simp]: "post (py_assert b) s Q E = (if b then Q () s else E AssertionError s)"
  by (simp add: py_assert_def)

lemma post_when_do [simp]: "post (when_do b f) s Q E = (if b then post f s Q E else Q () s)"
  by (simp add: when_do_def)

lemma post_py_index [simp]:
  "post (py_index xs i) s Q E = (if i < length xs then Q (xs ! i) s else E IndexError s)"
  by (simp add: py_index_def)

lemma post_py_mean [simp]:
  "post (py_mean xs) s Q E =
     (if xs = [] then E ZeroDivisionError s else Q (sum_list xs / real (length xs)) s)"
  by (simp add: py_mean_def)

lemma post_info [simp]: "post (info entry) s Q E = Q () (s\<lparr>logged := logged s @ [entry]\<rparr>)"
  by (simp add: info_def)

lemma post_ext_call:
  "post (ext_call p c oc f) s Q E =
     (case f (world s) of
        (Inr v, w') \<Rightarrow> Q v (s\<lparr>world := w', trace := trace s @ [Ev p c (oc v)]\<rparr>)
      | (Inl e, w') \<Rightarrow> E e (s\<lparr>world := w', trace := trace s @ [Ev p c (Raises e)]\<rparr>))"
  by (simp add: post_def ext_call_def split: prod.splits sum.splits)

lemma post_try_except [simp]:
  "post (try_except_AttributeError body handler) s Q E =
     post body s Q (\<lambda>e s'. if is_AttributeError e then post handler s' Q E else E e s')"
  by (auto simp add: post_def try_except_AttributeError_def split: prod.splits sum.splits exn.splits)

declare for_each.simps [simp del]

lemma post_for_each_Nil [simp]: "post (for_each body []) s Q E = Q () s"
  by (simp add: post_def for_each.simps)

lemma post_for_each_Cons [simp]:
  "post (for_each body (x # xs)) s Q E =
     post (body x) s (\<lambda>_ s'. post (for_each body xs) s' Q E) E"
  by (simp add: post_def for_each.simps split: prod.splits sum.splits)

lemma post_mono:
  assumes "post f s Q E"
    and "\<And>v s'. Q v s' \<Longrightarrow> Q' v s'"
    and "\<And>e s'. E e s' \<Longrightarrow> E' e s'"
  shows "post f s Q' E'"
  using assms by (auto simp add: post_def split: prod.splits sum.splits)

lemma post_for_each:
  assumes "I [] s"
    and "\<And>ys x zs s. xs = ys @ x # zs \<Longrightarrow> I ys s \<Longrightarrow> post (body x) s (\<lambda>_. I (ys @ [x])) E"
  shows "post (for_each body xs) s (\<lambda>_. I xs) E"
  using assms
proof (induction xs arbitrary: s I)
  case Nil
  then show ?case by simp
next
  case (Cons x xs)
  have step: "post (body x) s (\<lambda>_. I [x]) E"
    using Cons.prems(2) [of "[]" x xs s] Cons.prems(1) by simp
  have rest: "post (for_each body xs) s' (\<lambda>_. I (x # xs)) E" if "I [x] s'" for s'
  proof -
    have "post (for_each body xs) s' (\<lambda>_. (\<lambda>ys. I (x # ys)) xs) E"
    proof (rule Cons.IH [where I = "\<lambda>ys. I (x # ys)"])
      show "I [x] s'" by (rule that)
    next
      fix ys y zs t
      assume "xs = ys @ y # zs" and "I (x # ys) t"
      then show "post (body y) t (\<lambda>_. I (x # ys @ [y])) E"
        using Cons.prems(2) [of "x # ys" y zs t] by simp
    qed
    then show ?thesis .
  qed
  show ?case
    by (simp, rule post_mono [OF step]) (auto intro: rest)
qed

lemma post_returns: "post f s Q E \<Longrightarrow> f s = (Inr v, s') \<Longrightarrow> Q v s'"
  by (simp add: post_def)

lemma post_raises: "post f s Q E \<Longrightarrow> f s = (Inl e, s') \<Longrightarrow> E e s'"
  by (simp add: post_def)

lemma post_result: "post f s (\<lambda>v s'. f s = (Inr v, s')) (\<lambda>e s'. f s = (Inl e, s'))"
  by (simp add: post_def split: prod.splits sum.splits)


named_theorems emits_intros

lemma eval_calls_simps [simp]:
  "eval_calls [] = []"
  "eval_calls (xs @ ys) = eval_calls xs @ eval_calls ys"
  "eval_calls (ev # xs) = eval_call ev @ eval_calls xs"
  by (simp_all add: eval_calls_def)

lemma emits_ret [emits_intros]: "emits (ret v) []"
  by (simp add: emits_def)

lemma emits_raise_exn [emits_intros]: "emits (raise_exn e) P"
  by (simp add: emits_def)

lemma emits_read_var [emits_intros]: "emits (read_var x) []"
  by (simp add: emits_def)

lemma emits_modify [emits_intros]: "(\<And>s. trace (f s) = trace s) \<Longrightarrow> emits (modify f) []"
  by (simp add: emits_def)

lemma emits_info [emits_intros]: "emits (info entry) []"
  by (simp add: emits_def)

lemma emits_py_assert [emits_intros]: "emits (py_assert b) []"
  by (simp add: emits_def)

lemma emits_py_index [emits_intros]: "emits (py_index xs i) []"
  by (simp add: emits_def)

lemma emits_py_mean [emits_intros]: "emits (py_mean xs) []"
  by (simp add: emits_def)

lemma eval_call_outcome: "eval_call (Ev p c oc) = eval_call (Ev p c Returned)"
  by (simp add: eval_call_def split: place.splits)

lemma emits_ext_call: "emits (ext_call p c oc f) (eval_call (Ev p c Returned))"
  by (simp add: emits_def post_ext_call eval_call_outcome [of p c "Raises _"]
        eval_call_outcome [of p c "oc _"] split: prod.splits sum.splits)

lemma emits_and_then:
  fixes f :: "('a, ('w, 'd) state) stmt" and g :: "'a \<Rightarrow> ('b, ('w, 'd) state) stmt"
  assumes "emits f P" and "\<And>v. emits (g v) P'"
  shows "emits (and_then f g) (P @ P')"
  unfolding emits_def
proof
  fix s :: "('w, 'd) state"
  show "post (and_then f g) s (\<lambda>_ s'. \<exists>T. trace s' = trace s @ T \<and> eval_calls T = P @ P')
          (\<lambda>_ s'. \<exists>T. trace s' = trace s @ T \<and> prefix (eval_calls T) (P @ P'))"
  proof (simp, rule post_mono [OF assms(1) [unfolded emits_def, rule_format, of s]])
    fix v and s1 :: "('w, 'd) state"
    assume "\<exists>T. trace s1 = trace s @ T \<and> eval_calls T = P"
    then obtain T where T: "trace s1 = trace s @ T" "eval_calls T = P" by blast
    show "post (g v) s1 (\<lambda>_ s'. \<exists>T. trace s' = trace s @ T \<and> eval_calls T = P @ P')
            (\<lambda>_ s'. \<exists>T. trace s' = trace s @ T \<and> prefix (eval_calls T) (P @ P'))"
    proof (rule post_mono [OF assms(2) [unfolded emits_def, rule_format, of v s1]])
      fix u and s2 :: "('w, 'd) state"
      assume "\<exists>T'. trace s2 = trace s1 @ T' \<and> eval_calls T' = P'"
      then obtain T' where "trace s2 = trace s1 @ T'" "eval_calls T' = P'" by blast
      with T have "trace s2 = trace s @ (T @ T') \<and> eval_calls (T @ T') = P @ P'" by simp
      then show "\<exists>T. trace s2 = trace s @ T \<and> eval_calls T = P @ P'" by blast
    next
      fix e and s2 :: "('w, 'd) state"
      assume "\<exists>T'. trace s2 = trace s1 @ T' \<and> prefix (eval_calls T') P'"
      then obtain T' where "trace s2 = trace s1 @ T'" "prefix (eval_calls T') P'" by blast
      with T have "trace s2 = trace s @ (T @ T') \<and> prefix (eval_calls (T @ T')) (P @ P')" by simp
      then show "\<exists>T. trace s2 = trace s @ T \<and> prefix (eval_calls T) (P @ P')" by blast
    qed
  next
    fix e and s1 :: "('w, 'd) state"
    assume "\<exists>T. trace s1 = trace s @ T \<and> prefix (eval_calls T) P"
    then show "\<exists>T. trace s1 = trace s @ T \<and> prefix (eval_calls T) (P @ P')"
      by auto
  qed
qed

lemma emits_and_then_Nil [emits_intros]:
  assumes "emits f []" and "\<And>v. emits (g v) P"
  shows "emits (and_then f g) P"
  using emits_and_then [OF assms] by simp

lemma emits_for_each:
  assumes "\<And>x. x \<in> set xs \<Longrightarrow> emits (body x) (P x)"
  shows "emits (for_each body xs) (concat (map P xs))"
  using assms
proof (induction xs)
  case Nil
  then show ?case by (simp add: emits_def)
next
  case (Cons x xs)
  have "for_each body (x # xs) = and_then (body x) (\<lambda>_. for_each body xs)"
    by (rule ext) (simp add: for_each.simps and_then_def split: prod.splits sum.splits)
  moreover have "emits (and_then (body x) (\<lambda>_. for_each body xs)) (P x @ concat (map P xs))"
    by (rule emits_and_then) (simp_all add: Cons)
  ultimately show ?case by simp
qed

lemma emits_when_do_Nil [emits_intros]: "emits f [] \<Longrightarrow> emits (when_do b f) []"
  by (simp add: emits_def)

lemma emits_try_except [emits_intros]:
  fixes body :: "(unit, ('w, 'd) state) stmt"
  assumes "emits body []" and "emits handler []"
  shows "emits (try_except_AttributeError body handler) []"
  unfolding emits_def
proof
  fix s :: "('w, 'd) state"
  obtain r s1 where b: "body s = (r, s1)" by fastforce
  obtain r2 s2 where h: "handler s1 = (r2, s2)" by fastforce
  from assms(1) b have 1: "\<exists>T. trace s1 = trace s @ T \<and> eval_calls T = []"
    by (auto simp add: emits_def post_def split: sum.splits dest!: spec [of _ s])
  from assms(2) h have 2: "\<exists>T. trace s2 = trace s1 @ T \<and> eval_calls T = []"
    by (auto simp add: emits_def post_def split: sum.splits dest!: spec [of _ s1])
  from 1 2 have 3: "\<exists>T. trace s2 = trace s @ T \<and> eval_calls T = []"
    by (metis append.assoc eval_calls_simps(2) append_Nil)
  show "post (try_except_AttributeError body handler) s
          (\<lambda>_ s'. \<exists>T. trace s' = trace s @ T \<and> eval_calls T = [])
          (\<lambda>_ s'. \<exists>T. trace s' = trace s @ T \<and> prefix (eval_calls T) [])"
    using b h 1 3
    by (auto simp add: post_def try_except_AttributeError_def split: sum.splits exn.splits)
qed

lemma emits_evaluate_one:
  "emits (evaluate_one env cfg ds sg c i dn sev) [(Loader, sg, c, i, sev), (Accuracy, sg, c, i, sev)]"
proof -
  have "emits (evaluate_one env cfg ds sg c i dn sev)
          (eval_call (Ev (AtEval sg c i) (GetTestLoader (SETTING cfg) dn sev) Returned)
           @ eval_call (Ev (AtEval sg c i) (GetAccuracy (SETTING cfg) dn sev) Returned) @ [])"
    unfolding evaluate_one_def
    by (intro emits_and_then emits_ext_call emits_intros allI) (auto intro!: emits_intros split: prod.splits)
  then show ?thesis by (simp add: eval_call_def)
qed


lemma emits_run_domain:
  "emits (run_domain env cfg ds dsl sevs sg c i)
     (concat (map (\<lambda>sev. [(Loader, sg, c, i, sev), (Accuracy, sg, c, i, sev)]) sevs))"
  unfolding run_domain_def
  by (intro emits_and_then_Nil emits_py_index emits_for_each emits_evaluate_one)

lemma emits_dict_append: "emits (dict_append k v) []"
  unfolding dict_append_def
  by (auto intro!: emits_intros split: option.splits)

lemma upt_0_2: "[0 ..< 2] = [0, 1::nat]"
  by code_simp

lemma upt_0_3: "[0 ..< 3] = [0, 1, 2::nat]"
  by code_simp

lemma emits_run_cycle:
  "emits (run_cycle env cfg ds dsl sevs sg c)
     (concat (map (\<lambda>i. concat (map (\<lambda>sev. [(Loader, sg, c, i, sev), (Accuracy, sg, c, i, sev)]) sevs))
        (range_list sg)))"
proof -
  have "emits (run_cycle env cfg ds dsl sevs sg c)
     (concat (map (\<lambda>i. concat (map (\<lambda>sev. [(Loader, sg, c, i, sev), (Accuracy, sg, c, i, sev)]) sevs))
        (range_list sg)) @ [])"
    unfolding run_cycle_def
    apply (rule emits_and_then_Nil)
     apply (rule emits_modify, simp)
    apply (rule emits_and_then)
     apply (rule emits_for_each, rule emits_run_domain)
    apply (intro emits_intros emits_dict_append)
    apply simp
    done
  then show ?thesis by simp
qed

lemma emits_run_subgroup:
  "emits (run_subgroup env cfg ds dsl sevs sg)
     (concat (map (\<lambda>c. concat (map (\<lambda>i. concat (map (\<lambda>sev.
        [(Loader, sg, c, i, sev), (Accuracy, sg, c, i, sev)]) sevs)) (range_list sg))) [0 ..< 2]))"
proof -
  have reset: "emits (ext_call (AtSubgroup sg) ModelReset (\<lambda>_. Returned) (model_reset env)) []"
    using emits_ext_call [of "AtSubgroup sg" ModelReset] by (simp add: eval_call_def)
  have "emits (run_subgroup env cfg ds dsl sevs sg)
     (concat (map (\<lambda>c. concat (map (\<lambda>i. concat (map (\<lambda>sev.
        [(Loader, sg, c, i, sev), (Accuracy, sg, c, i, sev)]) sevs)) (range_list sg))) [0 ..< 2]) @ [])"
    unfolding run_subgroup_def reset_model_def run_cycles_def
    apply (rule emits_and_then_Nil)
     apply (rule emits_modify, simp)
    apply (rule emits_and_then_Nil)
     apply (intro emits_intros reset)
    apply (rule emits_and_then)
     apply (rule emits_for_each, rule emits_run_cycle)
    apply (intro emits_intros)
    apply simp
    done
  then show ?thesis by simp
qed

lemma emits_run_subgroups: "emits (run_subgroups env cfg ds dsl sevs) (plan_calls sevs)"
proof -
  have "emits (run_subgroups env cfg ds dsl sevs)
     (concat (map (\<lambda>sg. concat (map (\<lambda>c. concat (map (\<lambda>i. concat (map (\<lambda>sev.
        [(Loader, sg, c, i, sev), (Accuracy, sg, c, i, sev)]) sevs)) (range_list sg))) [0 ..< 2]))
        subgroups))"
    unfolding run_subgroups_def by (intro emits_for_each emits_run_subgroup)
  also have "concat (map (\<lambda>sg. concat (map (\<lambda>c. concat (map (\<lambda>i. concat (map (\<lambda>sev.
        [(Loader, sg, c, i, sev), (Accuracy, sg, c, i, sev)]) sevs)) (range_list sg))) [0 ..< 2]))
        subgroups) = plan_calls sevs"
    by (simp add: plan_calls_def subgroups_def range_list_def upt_0_2 upt_0_3)
  finally show ?thesis .
qed

lemma emits_ext_call_Setup [emits_intros]: "emits (ext_call Setup c oc f) []"
  using emits_ext_call [of Setup c oc f] by (simp add: eval_call_def)

lemma emits_ext_call_AtSubgroup [emits_intros]: "emits (ext_call (AtSubgroup sg) c oc f) []"
  using emits_ext_call [of "AtSubgroup sg" c oc f] by (simp add: eval_call_def)

lemma emits_ext_call_AtMixedPass [emits_intros]: "emits (ext_call AtMixedPass c oc f) []"
  using emits_ext_call [of AtMixedPass c oc f] by (simp add: eval_call_def)

lemma emits_ext_call_AtFinish [emits_intros]: "emits (ext_call AtFinish c oc f) []"
  using emits_ext_call [of AtFinish c oc f] by (simp add: eval_call_def)

lemma emits_for_each_Nil [emits_intros]:
  assumes "\<And>x. emits (body x) []"
  shows "emits (for_each body xs) []"
proof -
  have "concat (map (\<lambda>_. []) xs) = ([] :: (routine \<times> range \<times> nat \<times> nat \<times> int) list)"
    by (induction xs) simp_all
  with emits_for_each [of xs body "\<lambda>_. []"] assms show ?thesis by simp
qed

lemma emits_if [emits_intros]: "emits f P \<Longrightarrow> emits g P \<Longrightarrow> emits (if b then f else g) P"
  by simp

lemma emits_case_prod [emits_intros]:
  "(\<And>a b. emits (f a b) P) \<Longrightarrow> emits (case x of (a, b) \<Rightarrow> f a b) P"
  by (cases x) simp

lemma emits_case_option [emits_intros]:
  "emits f P \<Longrightarrow> (\<And>a. emits (g a) P) \<Longrightarrow> emits (case x of None \<Rightarrow> f | Some a \<Rightarrow> g a) P"
  by (cases x) simp_all

lemma emits_loss_names [emits_intros]: "emits (loss_names keep losses) []"
  by (induction losses) (auto intro!: emits_intros split: option.splits)

lemma emits_setup_model [emits_intros]: "emits (setup_model env cfg) []"
  unfolding setup_model_def by (intro emits_intros)

lemma emits_describe_ours [emits_intros]: "emits (describe_ours env cfg) []"
  unfolding describe_ours_def by (intro emits_intros)

lemma emits_get_domain_sequence [emits_intros]: "emits (get_domain_sequence env cfg) []"
  unfolding get_domain_sequence_def by (intro emits_intros)

lemma emits_init_lists [emits_intros]: "emits (init_lists env) []"
  unfolding init_lists_def by (intro emits_intros) simp

lemma emits_report_averages [emits_intros]: "emits report_averages []"
  unfolding report_averages_def by (intro emits_intros)

lemma emits_evaluate_mixed [emits_intros]: "emits (evaluate_mixed env cfg ds sev) []"
  unfolding evaluate_mixed_def by (intro emits_intros) simp_all

lemma emits_finish [emits_intros]: "emits (finish env cfg ds) []"
  unfolding finish_def by (intro emits_intros)


lemma emits_evaluation_phase:
  "emits (evaluation_phase env cfg ds) (plan_calls (severities_of cfg))"
  unfolding evaluation_phase_def
  by (intro emits_and_then_Nil emits_run_subgroups emits_intros)

lemma emits_after_wandb_setup:
  "emits (after_wandb_setup env cfg) (plan_calls (severities_of cfg))"
proof -
  have "emits (after_wandb_setup env cfg) (plan_calls (severities_of cfg) @ [])"
    unfolding after_wandb_setup_def
    apply (rule emits_and_then_Nil, intro emits_intros)+
    apply (rule emits_and_then)
     apply (rule emits_evaluation_phase)
    apply (intro emits_intros)
    done
  then show ?thesis by simp
qed

lemma emits_after_validation:
  "emits (after_validation env cfg) (plan_calls (severities_of cfg))"
  unfolding after_validation_def
  by (intro emits_and_then_Nil emits_after_wandb_setup emits_intros)

lemma emits_evaluate_stmt:
  assumes "load_cfg_from_args env description w = (Inr cfg, w')"
  shows "post (evaluate_stmt env description) (initial_state env w)
           (\<lambda>_ s'. eval_calls (trace s') = plan_calls (severities_of cfg))
           (\<lambda>_ s'. prefix (eval_calls (trace s')) (plan_calls (severities_of cfg)))"
proof -
  let ?s1 = "(initial_state env w)\<lparr>world := w',
      trace := [Ev Setup (LoadCfgFromArgs description) Returned]\<rparr>"
  have "post (after_validation env cfg) ?s1
          (\<lambda>_ s'. eval_calls (trace s') = plan_calls (severities_of cfg))
          (\<lambda>_ s'. prefix (eval_calls (trace s')) (plan_calls (severities_of cfg)))"
    by (rule post_mono [OF emits_after_validation [unfolded emits_def, rule_format, of _ _ ?s1]])
       (auto simp add: eval_call_def)
  then show ?thesis
    by (simp add: evaluate_stmt_def post_ext_call assms initial_state_def eval_call_def)
qed

lemma returnsE: "returns r \<Longrightarrow> (\<And>v w. r = (Inr v, w) \<Longrightarrow> thesis) \<Longrightarrow> thesis"
  by (cases r) (auto simp add: returns_def split: sum.splits)

lemma returns_iff: "returns r \<longleftrightarrow> (\<exists>v w. r = (Inr v, w))"
  by (cases r) (auto simp add: returns_def split: sum.splits)

lemma quiet_loader:
  "quiet_loop env \<Longrightarrow> \<exists>ld w1. get_test_loader env c st dn ds sev w = (Inr ld, w1)"
  unfolding quiet_loop_def returns_iff by blast

lemma quiet_accuracy:
  "quiet_loop env \<Longrightarrow> \<exists>r w1. get_accuracy env c l dn st dd w = (Inr r, w1)"
  unfolding quiet_loop_def returns_iff by blast

lemma evaluate_one_quiet:
  fixes s :: "('w, 'd) state"
  assumes "quiet_loop env"
  shows "post (evaluate_one env cfg ds sg c i dn sev) s
           (\<lambda>_ s'. same_averages s s' \<and> length (cycle_errs s') = Suc (length (cycle_errs s)))
           (\<lambda>_ _. False)"
proof -
  obtain ld w1 where ld:
    "get_test_loader env cfg (SETTING cfg) dn ds sev (world s) = (Inr ld, w1)"
    using quiet_loader [OF assms] by blast
  obtain r w2 where acc:
    "get_accuracy env cfg ld dn (SETTING cfg) (domain_dict s) w1 = (Inr r, w2)"
    using quiet_accuracy [OF assms] by blast
  show ?thesis
    unfolding evaluate_one_def
    by (cases r) (simp add: post_ext_call ld acc same_averages_def)
qed

lemma severities_quiet:
  fixes s :: "('w, 'd) state"
  assumes "quiet_loop env"
  shows "post (for_each (evaluate_one env cfg ds sg c i dn) sevs) s
           (\<lambda>_ s'. same_averages s s'
                    \<and> length (cycle_errs s') = length (cycle_errs s) + length sevs)
           (\<lambda>_ _. False)"
proof -
  have "post (for_each (evaluate_one env cfg ds sg c i dn) sevs) s
          (\<lambda>_. (\<lambda>ys s'. same_averages s s'
                    \<and> length (cycle_errs s') = length (cycle_errs s) + length ys) sevs)
          (\<lambda>_ _. False)"
  proof (rule post_for_each)
    show "same_averages s s \<and> length (cycle_errs s) = length (cycle_errs s) + length []"
      by (simp add: same_averages_def)
  next
    fix ys :: "int list" and x zs and t :: "('w, 'd) state"
    assume "same_averages s t \<and> length (cycle_errs t) = length (cycle_errs s) + length ys"
    then show "post (evaluate_one env cfg ds sg c i dn x) t
        (\<lambda>_ s'. same_averages s s'
                 \<and> length (cycle_errs s') = length (cycle_errs s) + length (ys @ [x]))
        (\<lambda>_ _. False)"
      by (intro post_mono [OF evaluate_one_quiet [OF assms]]) (auto simp add: same_averages_def)
  qed
  then show ?thesis .
qed

lemma run_domain_quiet:
  fixes s :: "('w, 'd) state"
  assumes "quiet_loop env"
  shows "post (run_domain env cfg ds dsl sevs sg c i) s
           (\<lambda>_ s'. i < length dsl \<and> same_averages s s'
                    \<and> length (cycle_errs s') = length (cycle_errs s) + length sevs)
           (\<lambda>e _. e = IndexError \<and> \<not> i < length dsl)"
  unfolding run_domain_def
  by (simp, intro impI post_mono [OF severities_quiet [OF assms]]) auto

lemma domains_quiet:
  fixes s :: "('w, 'd) state"
  assumes "quiet_loop env"
  shows "post (for_each (run_domain env cfg ds dsl sevs sg c) xs) s
           (\<lambda>_ s'. (\<forall>i\<in>set xs. i < length dsl) \<and> same_averages s s'
                    \<and> length (cycle_errs s') = length (cycle_errs s) + length xs * length sevs)
           (\<lambda>e _. e = IndexError \<and> (\<exists>i\<in>set xs. \<not> i < length dsl))"
proof -
  have "post (for_each (run_domain env cfg ds dsl sevs sg c) xs) s
          (\<lambda>_. (\<lambda>ys s'. (\<forall>i\<in>set ys. i < length dsl) \<and> same_averages s s'
                    \<and> length (cycle_errs s') = length (cycle_errs s) + length ys * length sevs) xs)
          (\<lambda>e _. e = IndexError \<and> (\<exists>i\<in>set xs. \<not> i < length dsl))"
  proof (rule post_for_each)
    show "(\<forall>i\<in>set []. i < length dsl) \<and> same_averages s s
            \<and> length (cycle_errs s) = length (cycle_errs s) + length ([]::nat list) * length sevs"
      by (simp add: same_averages_def)
  next
    fix ys :: "nat list" and x zs and t :: "('w, 'd) state"
    assume xs: "xs = ys @ x # zs"
      and "(\<forall>i\<in>set ys. i < length dsl) \<and> same_averages s t
            \<and> length (cycle_errs t) = length (cycle_errs s) + length ys * length sevs"
    then show "post (run_domain env cfg ds dsl sevs sg c x) t
        (\<lambda>_ s'. (\<forall>i\<in>set (ys @ [x]). i < length dsl) \<and> same_averages s s'
                 \<and> length (cycle_errs s') = length (cycle_errs s) + length (ys @ [x]) * length sevs)
        (\<lambda>e _. e = IndexError \<and> (\<exists>i\<in>set xs. \<not> i < length dsl))"
      by (intro post_mono [OF run_domain_quiet [OF assms]]) (auto simp add: same_averages_def)
  qed
  then show ?thesis .
qed

lemma map_fst_dict_update:
  "map fst (map (\<lambda>(k', l). if k' = k then (k', l @ [v]) else (k', l)) d) = map fst d"
  by (induction d) auto

lemma map_of_dict_update:
  "map_of (map (\<lambda>(k', l). if k' = k then (k', l @ [v]) else (k', l)) d) k'' =
     (case map_of d k'' of None \<Rightarrow> None | Some l \<Rightarrow> Some (if k'' = k then l @ [v] else l))"
  by (induction d) auto

lemma keys_ready_lookup:
  "keys_ready s \<Longrightarrow> k = 1 \<or> k = 2 \<Longrightarrow> \<exists>l. map_of (cycle_avgs_all_subgroups s) k = Some l"
  unfolding keys_ready_def
  by (metis domIff list.set_intros(1,2) dom_map_of_conv_image_fst list.set_map option.exhaust)

lemma dict_append_ready:
  fixes s :: "('w, 'd) state"
  assumes "keys_ready s" and "k = 1 \<or> k = 2"
  shows "post (dict_append k v) s
           (\<lambda>_ s'. keys_ready s' \<and> filled s' k \<and> (\<forall>j. filled s j \<longrightarrow> filled s' j)
                    \<and> subgroup_cycle_errs s' = subgroup_cycle_errs s
                    \<and> subgroup_avgs s' = subgroup_avgs s)
           (\<lambda>_ _. False)"
proof -
  obtain l where l: "map_of (cycle_avgs_all_subgroups s) k = Some l"
    using keys_ready_lookup [OF assms] by blast
  show ?thesis
    unfolding dict_append_def
    using assms(1) l
    by (auto simp add: keys_ready_def filled_def map_fst_dict_update map_of_dict_update)
qed

lemma keys_ready_update [simp]:
  "keys_ready (s\<lparr>logged := a\<rparr>) = keys_ready s"
  "keys_ready (s\<lparr>subgroup_cycle_errs := b\<rparr>) = keys_ready s"
  "keys_ready (s\<lparr>subgroup_avgs := b\<rparr>) = keys_ready s"
  "keys_ready (s\<lparr>cycle_errs := b\<rparr>) = keys_ready s"
  "keys_ready (s\<lparr>trace := t\<rparr>) = keys_ready s"
  "keys_ready (s\<lparr>world := w\<rparr>) = keys_ready s"
  by (simp_all add: keys_ready_def)

lemma filled_update [simp]:
  "filled (s\<lparr>logged := a\<rparr>) k = filled s k"
  "filled (s\<lparr>subgroup_cycle_errs := b\<rparr>) k = filled s k"
  "filled (s\<lparr>subgroup_avgs := b\<rparr>) k = filled s k"
  "filled (s\<lparr>cycle_errs := b\<rparr>) k = filled s k"
  "filled (s\<lparr>trace := t\<rparr>) k = filled s k"
  "filled (s\<lparr>world := w\<rparr>) k = filled s k"
  by (simp_all add: filled_def)

lemma same_averages_filled: "same_averages s s' \<Longrightarrow> filled s' k = filled s k"
  by (simp add: same_averages_def filled_def)

lemma same_averages_keys_ready: "same_averages s s' \<Longrightarrow> keys_ready s' = keys_ready s"
  by (simp add: same_averages_def keys_ready_def)

lemma run_cycle_quiet:
  fixes s :: "('w, 'd) state"
  assumes q: "quiet_loop env" and k: "keys_ready s" and c: "c < 2" and ne: "range_list sg \<noteq> []"
  shows "post (run_cycle env cfg ds dsl sevs sg c) s
           (\<lambda>_ s'. (\<forall>i\<in>set (range_list sg). i < length dsl) \<and> sevs \<noteq> [] \<and> keys_ready s'
                    \<and> filled s' (c + 1) \<and> (\<forall>j. filled s j \<longrightarrow> filled s' j)
                    \<and> length (subgroup_cycle_errs s') = Suc (length (subgroup_cycle_errs s))
                    \<and> subgroup_avgs s' = subgroup_avgs s)
           (\<lambda>e _. loop_raise dsl sevs (range_list sg) e)"
proof -
  let ?s0 = "s\<lparr>cycle_errs := []\<rparr>"
  have c12: "Suc c = 1 \<or> Suc c = 2" using c by auto
  show ?thesis
    unfolding run_cycle_def
  proof (simp, rule post_mono [OF domains_quiet [OF q, of cfg ds dsl sevs sg c "range_list sg" ?s0]],
      goal_cases)
    case (1 v s1)
    let ?avg = "sum_list (cycle_errs s1) / real (length (cycle_errs s1))"
    let ?s2 = "s1\<lparr>subgroup_cycle_errs := subgroup_cycle_errs s1 @ [?avg]\<rparr>"
    have empty: "cycle_errs s1 = [] \<longleftrightarrow> sevs = []"
      using 1 ne by (cases "cycle_errs s1") auto
    have sa: "same_averages s s1"
      using 1 by (simp add: same_averages_def)
    have k2: "keys_ready ?s2"
      using sa k by (simp add: same_averages_keys_ready)
    have f: "filled ?s2 j = filled s j" for j
      using sa by (simp add: same_averages_filled)
    have u: "subgroup_cycle_errs s1 = subgroup_cycle_errs s" "subgroup_avgs s1 = subgroup_avgs s"
      using sa by (simp_all add: same_averages_def)
    have all: "\<forall>i\<in>set (range_list sg). i < length dsl"
      using 1 by simp
    show ?case
    proof (cases "sevs = []")
      case True
      with empty all show ?thesis by (simp add: loop_raise_def)
    next
      case False
      with empty have "cycle_errs s1 \<noteq> []" by simp
      then show ?thesis
        apply simp
        apply (rule post_mono [OF dict_append_ready [OF k2 c12]])
        using all False f u apply simp_all
        done
    qed
  next
    case (2 e s1)
    then show ?case by (simp add: loop_raise_def)
  qed
qed

lemma quiet_reset:
  "quiet_loop env \<Longrightarrow>
     (\<exists>w'. model_reset env w = (Inr (), w')) \<or> (\<exists>w'. model_reset env w = (Inl AttributeError, w'))"
proof -
  assume q: "quiet_loop env"
  obtain r w' where r: "model_reset env w = (r, w')" by fastforce
  from q have "case r of Inr _ \<Rightarrow> True | Inl e \<Rightarrow> e = AttributeError"
    unfolding quiet_loop_def using r by (auto dest!: spec [of _ w])
  with r show ?thesis by (cases r) auto
qed

lemma run_subgroup_quiet:
  fixes s :: "('w, 'd) state"
  assumes q: "quiet_loop env" and k: "keys_ready s" and ne: "range_list sg \<noteq> []"
  shows "post (run_subgroup env cfg ds dsl sevs sg) s
           (\<lambda>_ s'. (\<forall>i\<in>set (range_list sg). i < length dsl) \<and> sevs \<noteq> [] \<and> keys_ready s'
                    \<and> filled s' 1 \<and> filled s' 2 \<and> subgroup_avgs s' \<noteq> [])
           (\<lambda>e _. loop_raise dsl sevs (range_list sg) e)"
proof -
  have cycles: "post (for_each (run_cycle env cfg ds dsl sevs sg) [0 ..< 2]) t
      (\<lambda>_ s'. (\<forall>i\<in>set (range_list sg). i < length dsl) \<and> sevs \<noteq> [] \<and> keys_ready s'
               \<and> filled s' 1 \<and> filled s' 2 \<and> subgroup_cycle_errs s' \<noteq> [])
      (\<lambda>e _. loop_raise dsl sevs (range_list sg) e)"
    if kt: "keys_ready t" for t :: "('w, 'd) state"
    unfolding upt_0_2
  proof (simp, rule post_mono [OF run_cycle_quiet [OF q kt _ ne, of 0]], goal_cases)
    case 1
    show ?case by simp
  next
    case (2 v t1)
    then have kt1: "keys_ready t1" and f1: "filled t1 (Suc 0)" by simp_all
    show ?case
    proof (rule post_mono [OF run_cycle_quiet [OF q kt1 _ ne, of "Suc 0"]], goal_cases)
      case 1
      show ?case by simp
    next
      case (2 u t2)
      with f1 show ?case by (auto simp add: numeral_2_eq_2)
    next
      case (3 e t2)
      then show ?case .
    qed
  next
    case (3 e t1)
    then show ?case .
  qed
  have rest: "post (and_then (for_each (run_cycle env cfg ds dsl sevs sg) [0 ..< 2]) (\<lambda>_.
     and_then (and_then (read_var subgroup_cycle_errs) py_mean) (\<lambda>subgroup_avg.
     and_then (modify (\<lambda>s. s\<lparr>subgroup_avgs := subgroup_avgs s @ [subgroup_avg]\<rparr>)) (\<lambda>_.
     info (InfoSubgroupAvg sg subgroup_avg))))) t
           (\<lambda>_ s'. (\<forall>i\<in>set (range_list sg). i < length dsl) \<and> sevs \<noteq> [] \<and> keys_ready s'
                    \<and> filled s' 1 \<and> filled s' 2 \<and> subgroup_avgs s' \<noteq> [])
           (\<lambda>e _. loop_raise dsl sevs (range_list sg) e)"
    if kt: "keys_ready t" for t :: "('w, 'd) state"
    apply (subst post_and_then)
    apply (rule post_mono [OF cycles [OF kt]])
     apply simp
    apply simp
    done
  have reset: "post (try_except_AttributeError
             (and_then (ext_call (AtSubgroup sg) ModelReset (\<lambda>_. Returned) (model_reset env))
                (\<lambda>_. info (InfoReset sg)))
             (info WarningResetNotAvailable)) t
           (\<lambda>_ s'. keys_ready s') (\<lambda>_ _. False)"
    if kt: "keys_ready t" for t :: "('w, 'd) state"
    using quiet_reset [OF q, of "world t"] kt
    by (auto simp add: post_ext_call)
  show ?thesis
    unfolding run_subgroup_def reset_model_def run_cycles_def
    apply (subst post_and_then, subst post_modify)
    apply (subst post_and_then)
    apply (rule post_mono [OF reset])
      apply (simp add: k)
     apply (rule rest, assumption)
    apply simp
    done
qed

lemma subgroups_ranges:
  assumes "sg \<in> set subgroups"
  shows "range_list sg \<noteq> []" and "\<forall>i\<in>set (range_list sg). i < 15"
    and "snd sg - 1 \<in> set (range_list sg) \<and> 2 \<le> snd sg - 1"
  using assms by (auto simp add: subgroups_def range_list_def)

lemma run_subgroups_quiet:
  fixes s :: "('w, 'd) state"
  assumes q: "quiet_loop env" and k: "keys_ready s"
  shows "post (run_subgroups env cfg ds dsl sevs) s
           (\<lambda>_ s'. 15 \<le> length dsl \<and> sevs \<noteq> [] \<and> ready_to_report s')
           (\<lambda>e _. (e = IndexError \<and> length dsl < 15)
                   \<or> (e = ZeroDivisionError \<and> sevs = [] \<and> 3 \<le> length dsl))"
proof -
  let ?I = "\<lambda>done s'. keys_ready s'
      \<and> (\<forall>sg\<in>set done. \<forall>i\<in>set (range_list sg). i < length dsl)
      \<and> (done \<noteq> [] \<longrightarrow> sevs \<noteq> [] \<and> ready_to_report s')"
  let ?E = "\<lambda>e (_ :: ('w, 'd) state). (e = IndexError \<and> length dsl < 15)
                   \<or> (e = ZeroDivisionError \<and> sevs = [] \<and> 3 \<le> length dsl)"
  have main: "post (for_each (run_subgroup env cfg ds dsl sevs) subgroups) s (\<lambda>_. ?I subgroups) ?E"
  proof (rule post_for_each [where I = ?I], goal_cases)
    case 1
    show ?case using k by simp
  next
    case (2 ys x zs t)
    have "x \<in> set (ys @ x # zs)" by simp
    with 2 have x: "x \<in> set subgroups" and kt: "keys_ready t" by simp_all
    show ?case
    proof (rule post_mono [OF run_subgroup_quiet [OF q kt subgroups_ranges(1) [OF x]]], goal_cases)
      case (1 v t')
      with 2 show ?case by (simp add: ready_to_report_def)
    next
      case (2 e t')
      then show ?case
        using subgroups_ranges(2,3) [OF x] unfolding loop_raise_def
        by (elim disjE conjE bexE) (force, force)
    qed
  qed
  have long: "15 \<le> length dsl"
    if "\<forall>sg\<in>set subgroups. \<forall>i\<in>set (range_list sg). i < length dsl"
  proof -
    have "(12, 15) \<in> set subgroups" and "14 \<in> set (range_list (12, 15))"
      by (simp_all add: subgroups_def range_list_def)
    with that have "14 < length dsl" by blast
    then show ?thesis by simp
  qed
  have nonempty: "subgroups \<noteq> []"
    by (simp add: subgroups_def)
  show ?thesis
    unfolding run_subgroups_def
    by (rule post_mono [OF main]) (use long nonempty in auto)
qed

lemma post_const: "P \<Longrightarrow> post f s (\<lambda>_ _. P) (\<lambda>_ _. True)"
  by (simp add: post_def split: prod.splits sum.splits)

lemma post_for_each_all:
  assumes "\<And>x s. x \<in> set xs \<Longrightarrow> post (body x) s (\<lambda>_ _. P x) (\<lambda>_ _. True)"
  shows "post (for_each body xs) s (\<lambda>_ _. \<forall>x\<in>set xs. P x) (\<lambda>_ _. True)"
proof -
  have "post (for_each body xs) s (\<lambda>_. (\<lambda>ys _. \<forall>x\<in>set ys. P x) xs) (\<lambda>_ _. True)"
  proof (rule post_for_each, goal_cases)
    case 1
    show ?case by simp
  next
    case (2 ys x zs t)
    have "x \<in> set (ys @ x # zs)" by simp
    with 2 have "x \<in> set xs" by simp
    from post_mono [OF assms [OF this, of t]] 2 show ?case by simp
  qed
  then show ?thesis .
qed

lemma run_domain_in_range:
  "post (run_domain env cfg ds dsl sevs sg c i) s (\<lambda>_ _. i < length dsl) (\<lambda>_ _. True)"
  unfolding run_domain_def by (simp add: post_const)

lemma run_cycle_in_range:
  "post (run_cycle env cfg ds dsl sevs sg c) s
     (\<lambda>_ _. \<forall>i\<in>set (range_list sg). i < length dsl) (\<lambda>_ _. True)"
  unfolding run_cycle_def
  apply (subst post_and_then, subst post_modify, subst post_and_then)
  apply (rule post_mono [OF post_for_each_all [where P = "\<lambda>i. i < length dsl"]])
    apply (rule run_domain_in_range)
   apply (rule post_const, assumption)
  apply simp
  done

lemma run_subgroup_in_range:
  "post (run_subgroup env cfg ds dsl sevs sg) s
     (\<lambda>_ _. \<forall>i\<in>set (range_list sg). i < length dsl) (\<lambda>_ _. True)"
proof -
  have cycles: "post (for_each (run_cycle env cfg ds dsl sevs sg) [0 ..< 2]) t
      (\<lambda>_ _. \<forall>i\<in>set (range_list sg). i < length dsl) (\<lambda>_ _. True)" for t :: "('a, 'b) state"
    unfolding upt_0_2
    apply simp
    apply (rule post_mono [OF run_cycle_in_range])
     apply (rule post_const, assumption)
    apply simp
    done
  have rest: "post (and_then (for_each (run_cycle env cfg ds dsl sevs sg) [0 ..< 2]) k) t
      (\<lambda>_ _. \<forall>i\<in>set (range_list sg). i < length dsl) (\<lambda>_ _. True)" for t :: "('a, 'b) state" and k
    apply (subst post_and_then)
    apply (rule post_mono [OF cycles])
     apply (rule post_const, assumption)
    apply simp
    done
  show ?thesis
    unfolding run_subgroup_def reset_model_def run_cycles_def
    apply (subst post_and_then, subst post_modify, subst post_and_then)
    apply (rule post_mono [OF post_const [of True]])
      apply simp
     apply (rule rest)
    apply simp
    done
qed

lemma run_subgroups_in_range:
  "post (run_subgroups env cfg ds dsl sevs) s (\<lambda>_ _. 15 \<le> length dsl) (\<lambda>_ _. True)"
proof -
  have "post (for_each (run_subgroup env cfg ds dsl sevs) subgroups) s
          (\<lambda>_ _. \<forall>sg\<in>set subgroups. \<forall>i\<in>set (range_list sg). i < length dsl) (\<lambda>_ _. True)"
    by (rule post_for_each_all) (rule run_subgroup_in_range)
  moreover have "15 \<le> length dsl"
    if "\<forall>sg\<in>set subgroups. \<forall>i\<in>set (range_list sg). i < length dsl"
  proof -
    have "(12, 15) \<in> set subgroups" and "14 \<in> set (range_list (12, 15))"
      by (simp_all add: subgroups_def range_list_def)
    with that have "14 < length dsl" by blast
    then show ?thesis by simp
  qed
  ultimately show ?thesis
    unfolding run_subgroups_def
    by (auto simp add: post_def split: prod.splits sum.splits)
qed

lemma keys_ready_init:
  "cycle_avgs_all_subgroups s = [(1, []), (2, [])] \<Longrightarrow> keys_ready s"
  by (simp add: keys_ready_def)

lemma evaluation_phase_in_range:
  "post (evaluation_phase env cfg ds) s
     (\<lambda>_ _. 15 \<le> length (domain_seq_loop_of cfg ds)) (\<lambda>_ _. True)"
  unfolding evaluation_phase_def init_lists_def
  by (auto intro: run_subgroups_in_range)

lemma evaluation_phase_quiet:
  fixes s :: "('w, 'd) state"
  assumes "quiet_loop env"
  shows "post (evaluation_phase env cfg ds) s
           (\<lambda>_ s'. 15 \<le> length (domain_seq_loop_of cfg ds) \<and> severities_of cfg \<noteq> []
                    \<and> ready_to_report s')
           (\<lambda>e _. (e = IndexError \<and> length (domain_seq_loop_of cfg ds) < 15)
                   \<or> (e = ZeroDivisionError \<and> severities_of cfg = []
                       \<and> 3 \<le> length (domain_seq_loop_of cfg ds)))"
  unfolding evaluation_phase_def init_lists_def
  by (auto intro!: run_subgroups_quiet [OF assms] keys_ready_init)

text \<open>
  C7, as amended. The subgroup loop indexes the looped domain sequence at every index from
  0 to 14. When that sequence has fewer than 15 entries the evaluation phase never returns:
  it ends with an exception. When moreover \<^verbatim>\<open>model.reset\<close>, the loader factory and the
  accuracy routine do not raise (a missing \<^verbatim>\<open>reset\<close> apart) and the severity sequence is
  not empty or the domain sequence has fewer than 3 entries, that exception is IndexError.
  For every setting that contains \<^verbatim>\<open>mixed_domains\<close> the looped sequence is the single
  entry \<^verbatim>\<open>mixed\<close>.
\<close>

theorem short_sequence_raises:
  assumes "length (domain_seq_loop_of cfg ds) < 15"
  shows "fst (evaluation_phase env cfg ds s) \<noteq> Inr ()
         \<and> (quiet_loop env \<and> (severities_of cfg \<noteq> [] \<or> length (domain_seq_loop_of cfg ds) < 3)
              \<longrightarrow> fst (evaluation_phase env cfg ds s) = Inl IndexError)
         \<and> (str_in ''mixed_domains'' (SETTING cfg) \<longrightarrow> domain_seq_loop_of cfg ds = [''mixed''])"
proof (intro conjI impI)
  show "fst (evaluation_phase env cfg ds s) \<noteq> Inr ()"
    using evaluation_phase_in_range [of env cfg ds s] assms
    by (auto simp add: post_def split: prod.splits sum.splits)
next
  assume "quiet_loop env \<and> (severities_of cfg \<noteq> [] \<or> length (domain_seq_loop_of cfg ds) < 3)"
  then show "fst (evaluation_phase env cfg ds s) = Inl IndexError"
    using evaluation_phase_quiet [of env cfg ds s] assms
    by (auto simp add: post_def split: prod.splits sum.splits)
next
  assume "str_in ''mixed_domains'' (SETTING cfg)"
  then show "domain_seq_loop_of cfg ds = [''mixed'']"
    by (simp add: domain_seq_loop_of_def)
qed

lemma quiet_loop_example [simp]: "quiet_loop (example_env c)"
  by (simp add: quiet_loop_def example_env_def returns_def)

lemma ready_dict:
  assumes "ready_to_report s"
  obtains l1 l2 where "cycle_avgs_all_subgroups s = [(1, l1), (2, l2)]" "l1 \<noteq> []" "l2 \<noteq> []"
proof -
  from assms have k: "map fst (cycle_avgs_all_subgroups s) = [1, 2]"
    and f: "filled s 1" "filled s 2"
    by (simp_all add: ready_to_report_def keys_ready_def)
  from k obtain l1 l2 where d: "cycle_avgs_all_subgroups s = [(1, l1), (2, l2)]"
    by (auto simp add: map_eq_Cons_conv)
  with f have "l1 \<noteq> []" "l2 \<noteq> []" by (simp_all add: filled_def)
  with d that show thesis by blast
qed

lemma final_subgroups_logged:
  "post (for_each (\<lambda>(idx, avg). info (g idx avg)) xs) s
     (\<lambda>_ s'. subgroup_avgs s' = subgroup_avgs s) (\<lambda>_ _. False)"
proof -
  have "post (for_each (\<lambda>(idx, avg). info (g idx avg)) xs) s
     (\<lambda>_. (\<lambda>ys s'. subgroup_avgs s' = subgroup_avgs s) xs) (\<lambda>_ _. False)"
    by (rule post_for_each) (auto split: prod.splits)
  then show ?thesis .
qed

lemma report_averages_completes:
  assumes "ready_to_report s"
  shows "post report_averages s (\<lambda>_ _. True) (\<lambda>_ _. False)"
proof -
  obtain l1 l2 where d: "cycle_avgs_all_subgroups s = [(1, l1), (2, l2)]" "l1 \<noteq> []" "l2 \<noteq> []"
    using assms by (rule ready_dict)
  have ne: "subgroup_avgs s \<noteq> []"
    using assms by (simp add: ready_to_report_def)
  show ?thesis
    unfolding report_averages_def
    apply (simp add: d)
    apply (rule post_mono [OF final_subgroups_logged])
    using ne apply simp_all
    done
qed

lemma example_env_simps:
  "load_cfg_from_args (example_env c) = (\<lambda>description w. (Inr c, w))"
  "wandb_setup (example_env c) = (\<lambda>cfg w. (Inr (), w))"
  "get_num_classes (example_env c) = (\<lambda>dataset_name w. (Inr 1000, w))"
  "get_model (example_env c) = (\<lambda>cfg num_classes w. (Inr (), w))"
  "registered_names (example_env c) = (\<lambda>w. (Inr [''source'', ''ours''], w))"
  "build_adaptation (example_env c) = (\<lambda>cfg num_classes w. (Inr (), w))"
  "wandb_summary (example_env c) = (\<lambda>student_losses t2_losses w. (Inr (), w))"
  "ckpt_path_to_domain_seq (example_env c) = (\<lambda>ckpt_path w. (Inr [], w))"
  "model_reset (example_env c) = (\<lambda>w. (Inl AttributeError, w))"
  "get_test_loader (example_env c) =
     (\<lambda>cfg setting domain_name domain_names_all severity w. (Inr (), w))"
  "get_accuracy (example_env c) =
     (\<lambda>cfg loader domain_name setting dd w. (Inr (1 / (real w + 2), dd + 1, 10), w + 1))"
  "empty_dict (example_env c) = 0"
  "dict_len (example_env c) = (\<lambda>dd. dd)"
  "eval_domain_dict (example_env c) = (\<lambda>dd domain_seq w. (Inr (), w))"
  "print_memory_info (example_env c) = (\<lambda>w. (Inr (), w))"
  "wandb_save (example_env c) = (\<lambda>w. (Inr (), w))"
  "wandb_finish (example_env c) = (\<lambda>w. (Inr (), w))"
  by (simp_all add: example_env_def)

lemma evaluate_mixed_quiet:
  fixes s :: "('w, 'd) state"
  assumes "quiet_loop env"
  shows "post (evaluate_mixed env cfg ds sev) s (\<lambda>_ _. True) (\<lambda>_ _. False)"
proof -
  obtain ld w1 where ld:
    "get_test_loader env cfg ''mixed_domains'' ''mixed'' ds sev (world s) = (Inr ld, w1)"
    using quiet_loader [OF assms] by blast
  obtain r w2 where acc:
    "get_accuracy env cfg ld ''mixed'' ''mixed_domains'' (domain_dict s) w1 = (Inr r, w2)"
    using quiet_accuracy [OF assms] by blast
  show ?thesis
    unfolding evaluate_mixed_def
    by (cases r) (simp add: post_ext_call ld acc)
qed

lemma mixed_pass_quiet:
  fixes s :: "('w, 'd) state"
  assumes "quiet_loop env"
  shows "post (for_each (evaluate_mixed env cfg ds) sevs) s (\<lambda>_ _. True) (\<lambda>_ _. False)"
proof -
  have "post (for_each (evaluate_mixed env cfg ds) sevs) s (\<lambda>_. (\<lambda>ys _. True) sevs) (\<lambda>_ _. False)"
    by (rule post_for_each) (simp_all add: evaluate_mixed_quiet [OF assms])
  then show ?thesis .
qed

lemma finish_example:
  "post (finish (example_env c) cfg ds) s (\<lambda>_ _. True) (\<lambda>_ _. False)"
  unfolding finish_def
  by (simp add: post_ext_call example_env_simps)

lemma fst_eq_post: "fst (f s) = Inr () \<longleftrightarrow> post f s (\<lambda>_ _. True) (\<lambda>_ _. False)"
  by (simp add: post_def split: prod.splits sum.splits)

lemma example_run_completes:
  assumes "SETTING c \<in> set valid_settings" and "MODEL_ADAPTATION c = ''source''"
    and "CORRUPTION_DATASET c = ''imagenet_c''"
    and "15 \<le> length (domain_seq_loop_of c (CORRUPTION_TYPE c))"
    and "severities_of c \<noteq> []"
  shows "fst (evaluate (example_env c) description w) = Inr ()"
proof -
  have tail: "post (and_then (evaluation_phase (example_env c) c (CORRUPTION_TYPE c)) (\<lambda>_.
       and_then report_averages (\<lambda>_.
       and_then (when_do (SETTING c = ''continual_mixed_domain'')
                   (for_each (evaluate_mixed (example_env c) c (CORRUPTION_TYPE c))
                      (severities_of c))) (\<lambda>_.
       finish (example_env c) c (CORRUPTION_TYPE c))))) t (\<lambda>_ _. True) (\<lambda>_ _. False)"
    for t :: "(nat, nat) state"
    apply (subst post_and_then)
    apply (rule post_mono [OF evaluation_phase_quiet [OF quiet_loop_example]])
     apply (subst post_and_then)
     apply (rule post_mono [OF report_averages_completes])
       apply simp
      apply (subst post_and_then)
      apply (subst post_when_do)
      apply (rule conjI impI | rule post_mono [OF mixed_pass_quiet [OF quiet_loop_example]]
              | rule finish_example | simp)+
    using assms apply auto
    done
  show ?thesis
    unfolding evaluate_def fst_eq_post evaluate_stmt_def after_validation_def
      after_wandb_setup_def
    apply (subst post_and_then)
    apply (simp only: post_ext_call example_env_simps prod.case sum.case)
    apply (subst post_and_then, subst post_py_assert, simp only: assms if_True)
    apply (subst post_and_then)
    apply (simp only: post_ext_call example_env_simps prod.case sum.case)
    apply (subst post_and_then)
    apply (rule post_mono [where Q = "\<lambda>_ _. True" and E = "\<lambda>_ _. False"])
      apply (simp add: setup_model_def post_ext_call example_env_simps assms)
     apply (subst post_and_then)
     apply (rule post_mono [where Q = "\<lambda>_ _. True" and E = "\<lambda>_ _. False"])
       apply (simp add: describe_ours_def assms)
      apply (subst post_and_then)
      apply (rule post_mono [where Q = "\<lambda>v _. v = CORRUPTION_TYPE c" and E = "\<lambda>_ _. False"])
        apply (simp add: get_domain_sequence_def assms)
       apply (subst post_and_then, subst post_info)
       apply (simp only:, rule tail)
      apply simp_all
    done
qed

lemma severities_example [simp]: "severities_of example_cfg = [5]"
  by (simp add: severities_of_def gradual_severities_def example_cfg_def)

lemma severities_mixed [simp]: "severities_of mixed_cfg = [5]"
  by (simp add: severities_of_def gradual_severities_def example_cfg_def mixed_cfg_def)

lemma example_cfg_runs: "fst (evaluate (example_env example_cfg) ''Evaluation.'' 0) = Inr ()"
  by (rule example_run_completes)
     (simp_all add: example_cfg_def valid_settings_def domain_seq_loop_of_def
        severities_of_def gradual_severities_def)

text \<open>
  C1, as amended. Let \<^verbatim>\<open>load_cfg_from_args\<close> have delivered the configuration. Inside the
  subgroup loop the data-loader factory and the accuracy routine are called as the plan
  says: subgroups 0-2, 3-6, 7-9, 10-11, 12-14 in this order, two cycles each, the domain
  indices of the subgroup in increasing order, every severity of the severity sequence in
  order, one loader call followed by one accuracy call for each. A run of \<^verbatim>\<open>evaluate\<close> that
  returns has made exactly these calls; a run that raises has made an initial part of them.
\<close>

theorem evaluate_follows_plan:
  assumes "load_cfg_from_args env description w = (Inr cfg, w')"
  shows "(fst (evaluate env description w) = Inr ()
            \<longrightarrow> eval_calls (trace (snd (evaluate env description w)))
                  = plan_calls (severities_of cfg))
         \<and> prefix (eval_calls (trace (snd (evaluate env description w))))
              (plan_calls (severities_of cfg))"
  using emits_evaluate_stmt [OF assms]
  by (auto simp add: evaluate_def post_def split: prod.splits sum.splits)

text \<open>The example run returns and makes the sixty calls of the plan for severity 5.\<close>

theorem evaluate_follows_plan_witness:
  "load_cfg_from_args (example_env example_cfg) ''Evaluation.'' 0 = (Inr example_cfg, 0)
   \<and> fst (evaluate (example_env example_cfg) ''Evaluation.'' 0) = Inr ()
   \<and> eval_calls (trace (snd (evaluate (example_env example_cfg) ''Evaluation.'' 0)))
       = plan_calls [5]"
  using evaluate_follows_plan [of "example_env example_cfg" "''Evaluation.''" 0 example_cfg 0]
    example_cfg_runs
  by (simp add: example_env_simps)

lemmas prog_defs = evaluate_stmt_def initial_state_def after_validation_def after_wandb_setup_def
  setup_model_def describe_ours_def get_domain_sequence_def domain_seq_loop_of_def
  gradual_severities_def severities_of_def init_lists_def subgroups_def evaluate_one_def
  dict_append_def run_domain_def run_cycle_def run_subgroup_def reset_model_def
  run_cycles_def run_subgroups_def
  evaluation_phase_def report_averages_def
  evaluate_mixed_def np_mean_def finish_def valid_settings_def loss_name_def
  range_list_def range_start_def

lemma result_eq_post: "f s = (Inl e, s') \<longleftrightarrow> post f s (\<lambda>_ _. False) (\<lambda>e' t. e' = e \<and> t = s')"
  by (auto simp add: post_def split: prod.splits sum.splits)

lemma mixed_run:
  "evaluate (example_env mixed_cfg) ''Evaluation.'' 0 =
     (Inl IndexError,
      \<lparr>world = 1, domain_dict = 1, errs = [1 / 2], errs_5 = [1 / 2], subgroup_avgs = [],
       cycle_avgs_all_subgroups = [(1, []), (2, [])], subgroup_cycle_errs = [],
       cycle_errs = [1 / 2],
       logged = [InfoPrepared ''source'',
                 InfoDomainSequence ''imagenet_c'' (CORRUPTION_TYPE example_cfg),
                 WarningResetNotAvailable, InfoTransform,
                 InfoError ''imagenet_c'' ''mixed'' 5 10 (1 / 2)],
       trace = [Ev Setup (LoadCfgFromArgs ''Evaluation.'') Returned,
                Ev Setup WandbSetup Returned,
                Ev Setup (GetNumClasses ''imagenet_c'') Returned,
                Ev Setup GetModel Returned,
                Ev Setup RegisteredNames Returned,
                Ev Setup (BuildAdaptation ''source'') Returned,
                Ev (AtSubgroup (0, 3)) ModelReset (Raises AttributeError),
                Ev (AtEval (0, 3) 0 0) (GetTestLoader ''mixed_domains'' ''mixed'' 5) Returned,
                Ev (AtEval (0, 3) 0 0) (GetAccuracy ''mixed_domains'' ''mixed'' 5)
                  (ReturnedAcc (1 / 2) 10)]\<rparr>)"
  unfolding evaluate_def result_eq_post
  by (simp add: prog_defs post_ext_call example_env_simps mixed_cfg_def example_cfg_def
        upt_0_2 upt_0_3)

text \<open>
  C1 as stated fails: with the setting \<^verbatim>\<open>mixed_domains\<close> the run reaches the subgroup loop
  (the reset of subgroup 0-2 is attempted), makes one loader call and one accuracy call
  and then stops with IndexError; the other calls of the plan are never made.
\<close>

theorem plan_cut_short_counterexample:
  "Ev (AtSubgroup (0, 3)) ModelReset (Raises AttributeError)
     \<in> set (trace (snd (evaluate (example_env mixed_cfg) ''Evaluation.'' 0)))
   \<and> eval_calls (trace (snd (evaluate (example_env mixed_cfg) ''Evaluation.'' 0)))
       = [(Loader, (0, 3), 0, 0, 5), (Accuracy, (0, 3), 0, 0, 5)]
   \<and> eval_calls (trace (snd (evaluate (example_env mixed_cfg) ''Evaluation.'' 0)))
       \<noteq> plan_calls (severities_of mixed_cfg)"
  by (simp add: mixed_run eval_call_def plan_calls_def)

text \<open>The setting \<^verbatim>\<open>mixed_domains\<close> with routines that return: IndexError.\<close>

theorem short_sequence_raises_witness:
  "length (domain_seq_loop_of mixed_cfg (CORRUPTION_TYPE mixed_cfg)) < 15
   \<and> quiet_loop (example_env mixed_cfg)
   \<and> severities_of mixed_cfg \<noteq> []
   \<and> str_in ''mixed_domains'' (SETTING mixed_cfg)
   \<and> fst (evaluation_phase (example_env mixed_cfg) mixed_cfg (CORRUPTION_TYPE mixed_cfg)
             (initial_state (example_env mixed_cfg) 0)) = Inl IndexError
   \<and> domain_seq_loop_of mixed_cfg (CORRUPTION_TYPE mixed_cfg) = [''mixed'']"
proof -
  have m: "str_in ''mixed_domains'' (SETTING mixed_cfg)"
    by (simp add: mixed_cfg_def)
  then have l: "length (domain_seq_loop_of mixed_cfg (CORRUPTION_TYPE mixed_cfg)) < 15"
    by (simp add: domain_seq_loop_of_def)
  from short_sequence_raises [OF l, of "example_env mixed_cfg"
      "initial_state (example_env mixed_cfg) 0"] m l
  show ?thesis by simp
qed

lemma no_severity_run:
  "evaluate (example_env no_severity_cfg) ''Evaluation.'' 0 =
     (Inl ZeroDivisionError,
      \<lparr>world = 0, domain_dict = 0, errs = [], errs_5 = [], subgroup_avgs = [],
       cycle_avgs_all_subgroups = [(1, []), (2, [])], subgroup_cycle_errs = [],
       cycle_errs = [],
       logged = [InfoPrepared ''source'',
                 InfoDomainSequence ''imagenet_c'' (CORRUPTION_TYPE no_severity_cfg),
                 WarningResetNotAvailable],
       trace = [Ev Setup (LoadCfgFromArgs ''Evaluation.'') Returned,
                Ev Setup WandbSetup Returned,
                Ev Setup (GetNumClasses ''imagenet_c'') Returned,
                Ev Setup GetModel Returned,
                Ev Setup RegisteredNames Returned,
                Ev Setup (BuildAdaptation ''source'') Returned,
                Ev (AtSubgroup (0, 3)) ModelReset (Raises AttributeError)]\<rparr>)"
  unfolding evaluate_def result_eq_post
  by (simp add: prog_defs post_ext_call example_env_simps no_severity_cfg_def example_cfg_def
        upt_0_2 upt_0_3)

text \<open>
  C7 as stated fails: with five domains and an empty severity sequence the first cycle ends
  with no error recorded, and \<^verbatim>\<open>sum(cycle_errs) / len(cycle_errs)\<close> raises
  ZeroDivisionError before any index beyond the sequence is used.
\<close>

theorem no_severity_counterexample:
  "length (domain_seq_loop_of no_severity_cfg (CORRUPTION_TYPE no_severity_cfg)) < 15
   \<and> InfoDomainSequence ''imagenet_c'' (CORRUPTION_TYPE no_severity_cfg)
        \<in> set (logged (snd (evaluate (example_env no_severity_cfg) ''Evaluation.'' 0)))
   \<and> fst (evaluate (example_env no_severity_cfg) ''Evaluation.'' 0) = Inl ZeroDivisionError
   \<and> fst (evaluate (example_env no_severity_cfg) ''Evaluation.'' 0) \<noteq> Inl IndexError"
  by (simp add: no_severity_run)
     (simp add: no_severity_cfg_def example_cfg_def domain_seq_loop_of_def)

lemma emits_grows:
  assumes "emits f P"
  shows "prefix (trace s) (trace (snd (f s)))"
  using assms [unfolded emits_def, rule_format, of s]
  by (auto simp add: post_def split: prod.splits sum.splits)

text \<open>
  C4. Let \<^verbatim>\<open>load_cfg_from_args\<close> have delivered the configuration. \<^verbatim>\<open>evaluate\<close> goes on to
  the statement after the validation (the setting up of \<^verbatim>\<open>wandb\<close>) if and only if
  \<^verbatim>\<open>cfg.SETTING\<close> is one of the nine settings; otherwise it raises AssertionError, and
  the only routine called has been \<^verbatim>\<open>load_cfg_from_args\<close>: no model is built and no
  data is loaded.
\<close>

theorem setting_validation:
  assumes "load_cfg_from_args env description w = (Inr cfg, w')"
  shows "((\<exists>oc. Ev Setup WandbSetup oc \<in> set (trace (snd (evaluate env description w))))
           \<longleftrightarrow> SETTING cfg \<in> {''reset_each_shift'', ''continual'', ''gradual'',
                  ''mixed_domains'', ''correlated'', ''mixed_domains_correlated'',
                  ''gradual_correlated'', ''reset_each_shift_correlated'',
                  ''continual_mixed_domain''})
         \<and> (SETTING cfg \<notin> {''reset_each_shift'', ''continual'', ''gradual'',
                  ''mixed_domains'', ''correlated'', ''mixed_domains_correlated'',
                  ''gradual_correlated'', ''reset_each_shift_correlated'',
                  ''continual_mixed_domain''}
              \<longrightarrow> evaluate env description w =
                    (Inl AssertionError,
                     (initial_state env w)\<lparr>world := w',
                        trace := [Ev Setup (LoadCfgFromArgs description) Returned]\<rparr>))"
proof -
  let ?s1 = "(initial_state env w)\<lparr>world := w',
      trace := [Ev Setup (LoadCfgFromArgs description) Returned]\<rparr>"
  let ?valid = "{''reset_each_shift'', ''continual'', ''gradual'',
                  ''mixed_domains'', ''correlated'', ''mixed_domains_correlated'',
                  ''gradual_correlated'', ''reset_each_shift_correlated'',
                  ''continual_mixed_domain''}"
  have set: "set valid_settings = ?valid"
    by (simp add: valid_settings_def)
  have invalid: "evaluate env description w = (Inl AssertionError, ?s1)" if "SETTING cfg \<notin> ?valid"
    using that assms set
    by (simp add: evaluate_def evaluate_stmt_def and_then_def ext_call_def py_assert_def
        raise_exn_def initial_state_def)
  have valid: "\<exists>oc. Ev Setup WandbSetup oc \<in> set (trace (snd (evaluate env description w)))"
    if v: "SETTING cfg \<in> ?valid"
  proof -
    have e: "evaluate env description w = after_validation env cfg ?s1"
      using v assms set
      by (simp add: evaluate_def evaluate_stmt_def and_then_def ext_call_def py_assert_def
          ret_def initial_state_def)
    obtain r w2 where r: "wandb_setup env cfg w' = (r, w2)" by fastforce
    let ?oc = "case r of Inl e \<Rightarrow> Raises e | Inr v \<Rightarrow> Returned"
    let ?s2 = "?s1\<lparr>world := w2, trace := trace ?s1 @ [Ev Setup WandbSetup ?oc]\<rparr>"
    have "Ev Setup WandbSetup ?oc \<in> set (trace (snd (after_validation env cfg ?s1)))"
    proof (cases r)
      case (Inl x)
      with r show ?thesis
        by (simp add: after_validation_def and_then_def ext_call_def initial_state_def)
    next
      case (Inr u)
      with r have "after_validation env cfg ?s1 = after_wandb_setup env cfg ?s2"
        by (simp add: after_validation_def and_then_def ext_call_def initial_state_def)
      moreover have "prefix (trace ?s2) (trace (snd (after_wandb_setup env cfg ?s2)))"
        by (rule emits_grows [OF emits_after_wandb_setup])
      ultimately show ?thesis
        by (auto simp add: prefix_def)
    qed
    with e show ?thesis by auto
  qed
  have "\<not> (\<exists>oc. Ev Setup WandbSetup oc \<in> set (trace (snd (evaluate env description w))))"
    if "SETTING cfg \<notin> ?valid"
    using invalid [OF that] by simp
  with valid invalid show ?thesis by blast
qed

text \<open>An unknown setting is refused, the setting \<^verbatim>\<open>continual\<close> is let through.\<close>

theorem setting_validation_witness:
  "load_cfg_from_args (example_env bogus_cfg) ''Evaluation.'' 0 = (Inr bogus_cfg, 0)
   \<and> SETTING bogus_cfg \<notin> set valid_settings
   \<and> fst (evaluate (example_env bogus_cfg) ''Evaluation.'' 0) = Inl AssertionError
   \<and> trace (snd (evaluate (example_env bogus_cfg) ''Evaluation.'' 0))
       = [Ev Setup (LoadCfgFromArgs ''Evaluation.'') Returned]
   \<and> load_cfg_from_args (example_env example_cfg) ''Evaluation.'' 0 = (Inr example_cfg, 0)
   \<and> SETTING example_cfg \<in> set valid_settings
   \<and> (\<exists>oc. Ev Setup WandbSetup oc
          \<in> set (trace (snd (evaluate (example_env example_cfg) ''Evaluation.'' 0))))"
  using setting_validation [of "example_env bogus_cfg" "''Evaluation.''" 0 bogus_cfg 0]
    setting_validation [of "example_env example_cfg" "''Evaluation.''" 0 example_cfg 0]
  by (simp add: example_env_simps bogus_cfg_def example_cfg_def valid_settings_def)

named_theorems preserves_intros

lemma preservesD: "preserves I E f \<Longrightarrow> I s \<Longrightarrow> post f s (\<lambda>_. I) E"
  by (simp add: preserves_def)

lemma preserves_ret [preserves_intros]: "preserves I E (ret v)"
  by (simp add: preserves_def)

lemma preserves_read_var [preserves_intros]: "preserves I E (read_var x)"
  by (simp add: preserves_def)

lemma preserves_raise_exn [preserves_intros]:
  "(\<And>s. I s \<Longrightarrow> E e s) \<Longrightarrow> preserves I E (raise_exn e)"
  by (simp add: preserves_def)

lemma preserves_modify [preserves_intros]:
  "(\<And>s. I s \<Longrightarrow> I (f s)) \<Longrightarrow> preserves I E (modify f)"
  by (simp add: preserves_def)

lemma preserves_info [preserves_intros]:
  "(\<And>s. I s \<Longrightarrow> I (s\<lparr>logged := logged s @ [entry]\<rparr>)) \<Longrightarrow> preserves I E (info entry)"
  by (simp add: preserves_def)

lemma preserves_py_assert [preserves_intros]:
  "(\<And>s. I s \<Longrightarrow> E AssertionError s) \<Longrightarrow> preserves I E (py_assert b)"
  by (simp add: preserves_def)

lemma preserves_py_index [preserves_intros]:
  "(\<And>s. I s \<Longrightarrow> E IndexError s) \<Longrightarrow> preserves I E (py_index xs i)"
  by (simp add: preserves_def)

lemma preserves_py_mean [preserves_intros]:
  "(\<And>s. I s \<Longrightarrow> E ZeroDivisionError s) \<Longrightarrow> preserves I E (py_mean xs)"
  by (simp add: preserves_def)

lemma preserves_when_do [preserves_intros]:
  "preserves I E f \<Longrightarrow> preserves I E (when_do b f)"
  by (simp add: preserves_def)

lemma preserves_if [preserves_intros]:
  "preserves I E f \<Longrightarrow> preserves I E g \<Longrightarrow> preserves I E (if b then f else g)"
  by simp

lemma preserves_case_prod [preserves_intros]:
  "(\<And>a b. preserves I E (f a b)) \<Longrightarrow> preserves I E (case x of (a, b) \<Rightarrow> f a b)"
  by (cases x) simp

lemma preserves_case_option [preserves_intros]:
  "preserves I E f \<Longrightarrow> (\<And>a. preserves I E (g a))
     \<Longrightarrow> preserves I E (case x of None \<Rightarrow> f | Some a \<Rightarrow> g a)"
  by (cases x) simp_all

lemma preserves_and_then [preserves_intros]:
  assumes "preserves I E f" and "\<And>v. preserves I E (g v)"
  shows "preserves I E (and_then f g)"
  unfolding preserves_def
proof (intro allI impI)
  fix s
  assume "I s"
  show "post (and_then f g) s (\<lambda>_. I) E"
    by (simp, rule post_mono [OF preservesD [OF assms(1) \<open>I s\<close>]])
       (auto intro: preservesD [OF assms(2)])
qed

lemma preserves_for_each [preserves_intros]:
  assumes "\<And>x. preserves I E (body x)"
  shows "preserves I E (for_each body xs)"
  unfolding preserves_def
proof (intro allI impI)
  fix s
  assume "I s"
  have "post (for_each body xs) s (\<lambda>_. (\<lambda>_. I) xs) E"
    by (rule post_for_each) (auto intro: \<open>I s\<close> preservesD [OF assms])
  then show "post (for_each body xs) s (\<lambda>_. I) E" .
qed

lemma preserves_ext_call [preserves_intros]:
  assumes "\<And>s v w'. I s \<Longrightarrow> I (s\<lparr>world := w', trace := trace s @ [Ev p c (oc v)]\<rparr>)"
    and "\<And>s e w'. I s \<Longrightarrow> E e (s\<lparr>world := w', trace := trace s @ [Ev p c (Raises e)]\<rparr>)"
  shows "preserves I E (ext_call p c oc f)"
  unfolding preserves_def
  by (auto simp add: post_ext_call assms split: prod.splits sum.splits)

lemma preserves_loss_names [preserves_intros]:
  "(\<And>s. I s \<Longrightarrow> E KeyError s) \<Longrightarrow> preserves I E (loss_names keep losses)"
  by (induction losses) (auto intro!: preserves_intros split: option.splits)

lemma cycle_rel_refl: "cycle_rel sg c s s"
  by (simp add: cycle_rel_def reported_averages_def)

lemma evaluate_one_rel:
  fixes s :: "('w, 'd) state"
  assumes "cycle_rel sg c s0 s"
  shows "post (evaluate_one env cfg ds sg c i dn sev) s (\<lambda>_. cycle_rel sg c s0) (\<lambda>_ _. True)"
proof -
  from assms obtain T L where TL: "trace s = trace s0 @ T" "logged s = logged s0 @ L"
    "list_all (in_cycle sg c) T" "reported_averages L = []"
    "cycle_errs s = cycle_errs s0 @ concat (map error_of T)"
    and rest: "subgroup_cycle_errs s = subgroup_cycle_errs s0" "subgroup_avgs s = subgroup_avgs s0"
    "cycle_avgs_all_subgroups s = cycle_avgs_all_subgroups s0"
    by (auto simp add: cycle_rel_def)
  obtain r1 w1 where r1:
    "get_test_loader env cfg (SETTING cfg) dn ds sev (world s) = (r1, w1)" by fastforce
  show ?thesis
  proof (cases r1)
    case (Inl e)
    with r1 show ?thesis by (simp add: evaluate_one_def post_ext_call)
  next
    case (Inr ld)
    obtain r2 w2 where r2:
      "get_accuracy env cfg ld dn (SETTING cfg) (domain_dict s) w1 = (r2, w2)" by fastforce
    show ?thesis
    proof (cases r2)
      case (Inl e)
      with r1 r2 Inr show ?thesis by (simp add: evaluate_one_def post_ext_call)
    next
      case (Inr res)
      obtain acc dd n where res: "res = (acc, dd, n)" by (cases res) auto
      let ?T = "T @ [Ev (AtEval sg c i) (GetTestLoader (SETTING cfg) dn sev) Returned,
                     Ev (AtEval sg c i) (GetAccuracy (SETTING cfg) dn sev) (ReturnedAcc acc n)]"
      have T': "list_all (in_cycle sg c) ?T"
        "concat (map error_of ?T) = concat (map error_of T) @ [1 - acc]"
        using TL(3) by (simp_all add: in_cycle_def error_of_def)
      have L': "reported_averages (L @ [InfoTransform, InfoError (CORRUPTION_DATASET cfg) dn sev n (1 - acc)]) = []"
        "reported_averages (L @ [InfoError (CORRUPTION_DATASET cfg) dn sev n (1 - acc)]) = []"
        using TL(4) by (simp_all add: reported_averages_def is_average_def)
      show ?thesis
        using r1 r2 \<open>r1 = Inr ld\<close> Inr res TL rest T' L'
        by (auto simp add: evaluate_one_def post_ext_call cycle_rel_def)
    qed
  qed
qed

lemma preserves_evaluate_one_rel:
  "preserves (cycle_rel sg c s0) (\<lambda>_ _. True) (evaluate_one env cfg ds sg c i dn sev)"
  unfolding preserves_def by (auto intro: evaluate_one_rel)

lemma preserves_run_domain_rel:
  "preserves (cycle_rel sg c s0) (\<lambda>_ _. True) (run_domain env cfg ds dsl sevs sg c i)"
  unfolding run_domain_def
  by (intro preserves_intros preserves_evaluate_one_rel) simp

lemma run_cycle_effect:
  fixes s :: "('w, 'd) state"
  shows "post (run_cycle env cfg ds dsl sevs sg c) s (\<lambda>_. cycle_effect sg c s) (\<lambda>_ _. True)"
proof -
  let ?s0 = "s\<lparr>cycle_errs := []\<rparr>"
  have loop: "post (for_each (run_domain env cfg ds dsl sevs sg c) (range_list sg)) ?s0
                (\<lambda>_. cycle_rel sg c ?s0) (\<lambda>_ _. True)"
    by (rule preservesD [OF preserves_for_each [OF preserves_run_domain_rel] cycle_rel_refl])
  show ?thesis
    unfolding run_cycle_def
  proof (subst post_and_then, subst post_modify, subst post_and_then,
      rule post_mono [OF loop], goal_cases)
    case (1 v s1)
    then obtain T L where TL: "trace s1 = trace s @ T" "logged s1 = logged s @ L"
      "list_all (in_cycle sg c) T" "reported_averages L = []"
      "cycle_errs s1 = concat (map error_of T)"
      and rest: "subgroup_cycle_errs s1 = subgroup_cycle_errs s" "subgroup_avgs s1 = subgroup_avgs s"
      by (auto simp add: cycle_rel_def)
    have L': "reported_averages (L @ [InfoCycleAvg sg (Suc c) m]) = [InfoCycleAvg sg (Suc c) m]" for m
      using TL(4) by (simp add: reported_averages_def is_average_def)
    show ?case
      using TL rest L'
      by (auto simp add: dict_append_def cycle_effect_def arithmetic_mean_def split: option.splits)
  next
    case (2 e s1)
    show ?case by simp
  qed
qed

lemma filter_in_cycle_same: "list_all (in_cycle sg c) T \<Longrightarrow> filter (in_cycle sg c) T = T"
  by (induction T) auto

lemma filter_in_cycle_other:
  "list_all (in_cycle sg c') T \<Longrightarrow> c \<noteq> c' \<Longrightarrow> filter (in_cycle sg c) T = []"
  by (induction T) (auto simp add: in_cycle_def split: place.splits)

lemma filter_in_cycle_no_eval: "list_all no_eval T \<Longrightarrow> filter (in_cycle sg c) T = []"
  by (induction T) (auto simp add: in_cycle_def no_eval_def split: place.splits)

lemma filter_in_cycle_other_subgroup:
  "list_all (eval_of sg') T \<Longrightarrow> sg \<noteq> sg' \<Longrightarrow> filter (in_cycle sg c) T = []"
  by (induction T) (auto simp add: in_cycle_def eval_of_def split: place.splits)

lemma in_cycle_eval_of: "list_all (in_cycle sg c) T \<Longrightarrow> list_all (eval_of sg) T"
  by (induction T) (auto simp add: in_cycle_def eval_of_def split: place.splits)

lemma no_eval_eval_of: "list_all no_eval T \<Longrightarrow> list_all (eval_of sg) T"
  by (induction T) (auto simp add: no_eval_def eval_of_def split: place.splits)

lemma cycle_errors_append [simp]:
  "cycle_errors sg c (xs @ ys) = cycle_errors sg c xs @ cycle_errors sg c ys"
  by (simp add: cycle_errors_def)

lemma cycle_errors_same:
  "list_all (in_cycle sg c) T \<Longrightarrow> cycle_errors sg c T = concat (map error_of T)"
  by (simp add: cycle_errors_def filter_in_cycle_same)

lemma cycle_errors_other:
  "list_all (in_cycle sg c') T \<Longrightarrow> c \<noteq> c' \<Longrightarrow> cycle_errors sg c T = []"
  by (simp add: cycle_errors_def filter_in_cycle_other)

lemma cycle_errors_no_eval: "list_all no_eval T \<Longrightarrow> cycle_errors sg c T = []"
  by (simp add: cycle_errors_def filter_in_cycle_no_eval)

lemma cycle_errors_other_subgroup:
  "list_all (eval_of sg') T \<Longrightarrow> sg \<noteq> sg' \<Longrightarrow> cycle_errors sg c T = []"
  by (simp add: cycle_errors_def filter_in_cycle_other_subgroup)

lemma reset_model_effect:
  fixes s :: "('w, 'd) state"
  shows "post (reset_model env sg) s
           (\<lambda>_ s1. (\<exists>R L. trace s1 = trace s @ R \<and> logged s1 = logged s @ L
                       \<and> list_all no_eval R \<and> reported_averages L = [])
                    \<and> subgroup_cycle_errs s1 = subgroup_cycle_errs s
                    \<and> subgroup_avgs s1 = subgroup_avgs s)
           (\<lambda>_ _. True)"
proof -
  obtain r w' where r: "model_reset env (world s) = (r, w')" by fastforce
  show ?thesis
    unfolding reset_model_def
    using r
    by (cases r)
       (auto simp add: post_ext_call no_eval_def reported_averages_def is_average_def)
qed

lemma run_cycles_effect:
  fixes s :: "('w, 'd) state"
  assumes "subgroup_cycle_errs s = []"
  shows "post (run_cycles env cfg ds dsl sevs sg) s
           (\<lambda>_ s'. \<exists>T L. trace s' = trace s @ T \<and> logged s' = logged s @ L
                      \<and> list_all (eval_of sg) T
                      \<and> reported_averages L = subgroup_report T sg
                      \<and> subgroup_avgs s' = subgroup_avgs s @ [subgroup_mean sg T])
           (\<lambda>_ _. True)"
  unfolding run_cycles_def upt_0_2
proof (subst post_and_then, subst post_for_each_Cons,
    rule post_mono [OF run_cycle_effect], goal_cases)
  case (1 u s1)
  then obtain T0 L0 where 0: "trace s1 = trace s @ T0" "logged s1 = logged s @ L0"
    "list_all (in_cycle sg 0) T0"
    "reported_averages L0 = [InfoCycleAvg sg 1 (arithmetic_mean (concat (map error_of T0)))]"
    "subgroup_cycle_errs s1 = [arithmetic_mean (concat (map error_of T0))]"
    "subgroup_avgs s1 = subgroup_avgs s"
    using assms by (auto simp add: cycle_effect_def)
  show ?case
  proof (subst post_for_each_Cons, rule post_mono [OF run_cycle_effect], goal_cases)
    case (1 u' s2)
    then obtain T1 L1 where 1: "trace s2 = trace s1 @ T1" "logged s2 = logged s1 @ L1"
      "list_all (in_cycle sg 1) T1"
      "reported_averages L1 = [InfoCycleAvg sg 2 (arithmetic_mean (concat (map error_of T1)))]"
      "subgroup_cycle_errs s2 = subgroup_cycle_errs s1 @ [arithmetic_mean (concat (map error_of T1))]"
      "subgroup_avgs s2 = subgroup_avgs s1"
      by (auto simp add: cycle_effect_def)
    let ?m0 = "arithmetic_mean (concat (map error_of T0))"
    let ?m1 = "arithmetic_mean (concat (map error_of T1))"
    have c0: "cycle_mean sg 0 (T0 @ T1) = ?m0"
      using 0(3) 1(3) by (simp add: cycle_mean_def cycle_errors_same cycle_errors_other)
    have c1: "cycle_mean sg 1 (T0 @ T1) = ?m1"
      using 0(3) 1(3) by (simp add: cycle_mean_def cycle_errors_same cycle_errors_other)
    have tags: "list_all (eval_of sg) (T0 @ T1)"
      using 0(3) 1(3) by (simp add: in_cycle_eval_of)
    have mean2: "arithmetic_mean [a, b] = (a + b) / 2" for a b
      by (simp add: arithmetic_mean_def)
    have sm: "subgroup_mean sg (T0 @ T1) = (?m0 + ?m1) / 2"
      unfolding subgroup_mean_def c0 c1 by (rule mean2)
    have "reported_averages (L0 @ L1 @ [InfoSubgroupAvg sg ((?m0 + ?m1) / 2)])
            = [InfoCycleAvg sg 1 ?m0, InfoCycleAvg sg 2 ?m1, InfoSubgroupAvg sg ((?m0 + ?m1) / 2)]"
      using 0(4) 1(4) by (simp add: reported_averages_def is_average_def)
    also have "\<dots> = subgroup_report (T0 @ T1) sg"
      unfolding subgroup_report_def c0 c1 sm ..
    finally have rep: "reported_averages (L0 @ L1 @ [InfoSubgroupAvg sg ((?m0 + ?m1) / 2)])
                 = subgroup_report (T0 @ T1) sg" .
    let ?s3 = "s2\<lparr>subgroup_avgs := subgroup_avgs s2 @ [(?m0 + ?m1) / 2],
                  logged := logged s2 @ [InfoSubgroupAvg sg ((?m0 + ?m1) / 2)]\<rparr>"
    have "trace ?s3 = trace s @ (T0 @ T1) \<and> logged ?s3 = logged s @ (L0 @ L1 @ [InfoSubgroupAvg sg ((?m0 + ?m1) / 2)])
        \<and> list_all (eval_of sg) (T0 @ T1)
        \<and> reported_averages (L0 @ L1 @ [InfoSubgroupAvg sg ((?m0 + ?m1) / 2)]) = subgroup_report (T0 @ T1) sg
        \<and> subgroup_avgs ?s3 = subgroup_avgs s @ [subgroup_mean sg (T0 @ T1)]"
      using 0 1 tags rep sm by simp
    then have "\<exists>T L. trace ?s3 = trace s @ T \<and> logged ?s3 = logged s @ L
        \<and> list_all (eval_of sg) T \<and> reported_averages L = subgroup_report T sg
        \<and> subgroup_avgs ?s3 = subgroup_avgs s @ [subgroup_mean sg T]"
      by blast
    then show ?case
      using 0(5) 1(5) by simp
  next
    case (2 e s2)
    show ?case by simp
  qed
next
  case (2 e s1)
  show ?case by simp
qed

lemma subgroup_report_no_eval:
  "list_all no_eval R \<Longrightarrow> subgroup_report (R @ T) sg = subgroup_report T sg"
  by (simp add: subgroup_report_def subgroup_mean_def cycle_mean_def cycle_errors_no_eval)

lemma subgroup_mean_no_eval:
  "list_all no_eval R \<Longrightarrow> subgroup_mean sg (R @ T) = subgroup_mean sg T"
  by (simp add: subgroup_mean_def cycle_mean_def cycle_errors_no_eval)

lemma run_subgroup_effect:
  fixes s :: "('w, 'd) state"
  shows "post (run_subgroup env cfg ds dsl sevs sg) s (\<lambda>_. subgroup_effect sg s) (\<lambda>_ _. True)"
  unfolding run_subgroup_def
proof (subst post_and_then, subst post_modify, subst post_and_then,
    rule post_mono [OF reset_model_effect], goal_cases)
  case (1 u s1)
  then obtain R L where R: "trace s1 = trace s @ R" "logged s1 = logged s @ L"
    "list_all no_eval R" "reported_averages L = []"
    and rest: "subgroup_cycle_errs s1 = []" "subgroup_avgs s1 = subgroup_avgs s"
    by auto
  show ?case
  proof (rule post_mono [OF run_cycles_effect [OF rest(1)]], goal_cases)
    case (1 u' s2)
    then obtain T L' where T: "trace s2 = trace s1 @ T" "logged s2 = logged s1 @ L'"
      "list_all (eval_of sg) T" "reported_averages L' = subgroup_report T sg"
      "subgroup_avgs s2 = subgroup_avgs s1 @ [subgroup_mean sg T]"
      by auto
    have "trace s2 = trace s @ (R @ T) \<and> logged s2 = logged s @ (L @ L')
        \<and> list_all (eval_of sg) (R @ T)
        \<and> reported_averages (L @ L') = subgroup_report (R @ T) sg
        \<and> subgroup_avgs s2 = subgroup_avgs s @ [subgroup_mean sg (R @ T)]"
      using R rest T
      by (simp add: subgroup_report_no_eval subgroup_mean_no_eval no_eval_eval_of
          reported_averages_def)
    then show ?case
      unfolding subgroup_effect_def by blast
  next
    case (2 e s2)
    show ?case by simp
  qed
next
  case (2 e s1)
  show ?case by simp
qed

lemma tagged_mono: "list_all (tagged ys) tr \<Longrightarrow> list_all (tagged (ys @ [x])) tr"
  by (induction tr) (auto simp add: tagged_def split: place.splits)

lemma eval_of_tagged: "list_all (eval_of x) T \<Longrightarrow> list_all (tagged (ys @ [x])) T"
  by (induction T) (auto simp add: tagged_def eval_of_def split: place.splits)

lemma cycle_errors_untagged:
  "list_all (tagged ys) tr \<Longrightarrow> x \<notin> set ys \<Longrightarrow> cycle_errors x c tr = []"
  by (induction tr) (auto simp add: cycle_errors_def tagged_def in_cycle_def split: place.splits)

lemma reported_averages_append [simp]:
  "reported_averages (xs @ ys) = reported_averages xs @ reported_averages ys"
  by (simp add: reported_averages_def)

lemma loop_report_step:
  assumes inv: "loop_report ys t" and eff: "subgroup_effect x t t'" and new: "x \<notin> set ys"
  shows "loop_report (ys @ [x]) t'"
proof -
  from eff obtain T L where T: "trace t' = trace t @ T" "logged t' = logged t @ L"
    "list_all (eval_of x) T" "reported_averages L = subgroup_report T x"
    "subgroup_avgs t' = subgroup_avgs t @ [subgroup_mean x T]"
    by (auto simp add: subgroup_effect_def)
  from inv have I: "list_all (tagged ys) (trace t)"
    "reported_averages (logged t) = concat (map (subgroup_report (trace t)) ys)"
    "subgroup_avgs t = map (\<lambda>sg. subgroup_mean sg (trace t)) ys"
    by (simp_all add: loop_report_def)
  have old: "cycle_errors sg c (trace t @ T) = cycle_errors sg c (trace t)" if "sg \<in> set ys" for sg c
  proof -
    from that new have "sg \<noteq> x" by auto
    with T(3) show ?thesis by (simp add: cycle_errors_other_subgroup)
  qed
  have new': "cycle_errors x c (trace t @ T) = cycle_errors x c T" for c
    using I(1) new by (simp add: cycle_errors_untagged)
  have m_old: "subgroup_mean sg (trace t @ T) = subgroup_mean sg (trace t)" if "sg \<in> set ys" for sg
    using old [OF that] by (simp add: subgroup_mean_def cycle_mean_def)
  have m_new: "subgroup_mean x (trace t @ T) = subgroup_mean x T"
    using new' by (simp add: subgroup_mean_def cycle_mean_def)
  have r_old: "subgroup_report (trace t @ T) sg = subgroup_report (trace t) sg" if "sg \<in> set ys" for sg
    using old [OF that] m_old [OF that] by (simp add: subgroup_report_def cycle_mean_def)
  have r_new: "subgroup_report (trace t @ T) x = subgroup_report T x"
    using new' m_new by (simp add: subgroup_report_def cycle_mean_def)
  have "list_all (tagged (ys @ [x])) (trace t')"
    using T(1,3) I(1) by (simp add: tagged_mono eval_of_tagged)
  moreover have "reported_averages (logged t') = concat (map (subgroup_report (trace t')) (ys @ [x]))"
    using T(1,2,4) I(2) r_old r_new by (simp cong: map_cong)
  moreover have "subgroup_avgs t' = map (\<lambda>sg. subgroup_mean sg (trace t')) (ys @ [x])"
    using T(1,5) I(3) m_old m_new by (simp cong: map_cong)
  ultimately show ?thesis by (simp add: loop_report_def)
qed

lemma run_subgroups_report:
  fixes s :: "('w, 'd) state"
  assumes "loop_report [] s"
  shows "post (run_subgroups env cfg ds dsl sevs) s (\<lambda>_. loop_report subgroups) (\<lambda>_ _. True)"
  unfolding run_subgroups_def
proof (rule post_for_each [where I = loop_report], goal_cases)
  case 1
  show ?case by (rule assms)
next
  case (2 ys x zs t)
  have "distinct subgroups" by (simp add: subgroups_def)
  then have "distinct (ys @ x # zs)" unfolding 2(1) .
  then have new: "x \<notin> set ys" by simp
  show ?case
    by (rule post_mono [OF run_subgroup_effect]) (auto intro: loop_report_step [OF 2(2) _ new])
qed

lemma clean_simps [simp]:
  "clean (s\<lparr>world := w\<rparr>) = clean s"
  "clean (s\<lparr>errs := a\<rparr>) = clean s"
  "clean (s\<lparr>errs_5 := a\<rparr>) = clean s"
  "clean (s\<lparr>domain_dict := d\<rparr>) = clean s"
  "clean (s\<lparr>subgroup_avgs := a\<rparr>) = clean s"
  "clean (s\<lparr>cycle_avgs_all_subgroups := m\<rparr>) = clean s"
  by (simp_all add: clean_def)

lemma clean_trace:
  "clean s \<Longrightarrow> no_eval ev \<Longrightarrow> clean (s\<lparr>world := w, trace := trace s @ [ev]\<rparr>)"
  by (simp add: clean_def)

lemma clean_logged:
  "clean s \<Longrightarrow> \<not> is_average entry \<Longrightarrow> clean (s\<lparr>logged := logged s @ [entry]\<rparr>)"
  by (simp add: clean_def reported_averages_def)

lemma no_eval_simps [simp]:
  "no_eval (Ev Setup c oc)" "no_eval (Ev (AtSubgroup sg) c oc)"
  "no_eval (Ev AtMixedPass c oc)" "no_eval (Ev AtFinish c oc)"
  by (simp_all add: no_eval_def)

lemma is_average_simps [simp]:
  "\<not> is_average (InfoPrepared a)" "\<not> is_average (InfoDescription l1 l2)"
  "\<not> is_average (InfoDomainSequence a l)" "\<not> is_average (InfoSeverities sv)"
  "\<not> is_average (InfoReset sg)" "\<not> is_average WarningResetNotAvailable"
  "\<not> is_average InfoTransform" "\<not> is_average (InfoError a b sev n e)"
  "\<not> is_average (InfoCycleAcross c v)" "\<not> is_average (InfoFinalSubgroup i v)"
  "\<not> is_average (InfoMeanError m m5)"
  "is_average (InfoCycleAvg sg c v)" "is_average (InfoSubgroupAvg sg v)"
  "is_average (InfoTotalAvg v)"
  by (simp_all add: is_average_def)

lemma preserves_clean_setup_model: "preserves clean (\<lambda>_ _. True) (setup_model env cfg)"
  unfolding setup_model_def
  by (intro preserves_intros) (simp_all add: clean_trace clean_logged)

lemma preserves_clean_describe_ours: "preserves clean (\<lambda>_ _. True) (describe_ours env cfg)"
  unfolding describe_ours_def
  by (intro preserves_intros) (simp_all add: clean_trace clean_logged)

lemma preserves_clean_get_domain_sequence:
  "preserves clean (\<lambda>_ _. True) (get_domain_sequence env cfg)"
  unfolding get_domain_sequence_def
  by (intro preserves_intros) (simp_all add: clean_trace clean_logged)

lemma evaluation_phase_report:
  fixes s :: "('w, 'd) state"
  assumes "clean s"
  shows "post (evaluation_phase env cfg ds) s (\<lambda>_. loop_report subgroups) (\<lambda>_ _. True)"
proof -
  have start: "loop_report [] t"
    if "list_all no_eval (trace t)" "reported_averages (logged t) = []" "subgroup_avgs t = []"
    for t :: "('w, 'd) state"
    using that
    by (auto simp add: loop_report_def list_all_iff tagged_def no_eval_def split: place.splits)
  show ?thesis
    unfolding evaluation_phase_def init_lists_def
    using assms
    by (auto intro!: run_subgroups_report start simp add: clean_def reported_averages_def)
qed

lemma expected_averages_no_eval:
  "no_eval ev \<Longrightarrow> expected_averages (tr @ [ev]) = expected_averages tr"
  by (simp add: expected_averages_def subgroup_report_def subgroup_mean_def cycle_mean_def
      cycle_errors_no_eval)

lemma final_report_simps [simp]:
  "final_report (s\<lparr>world := w\<rparr>) = final_report s"
  "final_report (s\<lparr>errs := a\<rparr>) = final_report s"
  "final_report (s\<lparr>errs_5 := a\<rparr>) = final_report s"
  "final_report (s\<lparr>domain_dict := d\<rparr>) = final_report s"
  by (simp_all add: final_report_def)

lemma final_report_trace:
  "final_report s \<Longrightarrow> no_eval ev \<Longrightarrow> final_report (s\<lparr>world := w, trace := trace s @ [ev]\<rparr>)"
  by (simp add: final_report_def expected_averages_no_eval)

lemma final_report_logged:
  "final_report s \<Longrightarrow> \<not> is_average entry \<Longrightarrow> final_report (s\<lparr>logged := logged s @ [entry]\<rparr>)"
  by (simp add: final_report_def reported_averages_def)

lemma preserves_final_evaluate_mixed:
  "preserves final_report (\<lambda>_ _. True) (evaluate_mixed env cfg ds sev)"
  unfolding evaluate_mixed_def
  by (intro preserves_intros) (simp_all add: final_report_trace final_report_logged)

lemma preserves_final_finish: "preserves final_report (\<lambda>_ _. True) (finish env cfg ds)"
  unfolding finish_def
  by (intro preserves_intros) (simp_all add: final_report_trace final_report_logged)

lemma report_averages_final:
  fixes s :: "('w, 'd) state"
  assumes "loop_report subgroups s"
  shows "post report_averages s (\<lambda>_. final_report) (\<lambda>_ _. True)"
proof -
  have across: "preserves (report_frame s) (\<lambda>_ _. True)
      (and_then (read_var cycle_avgs_all_subgroups)
         (for_each (\<lambda>(cycle, cycle_errors).
            and_then (py_mean cycle_errors) (\<lambda>cycle_avg_across_subgroups.
              info (InfoCycleAcross cycle cycle_avg_across_subgroups)))))"
    by (intro preserves_intros) (simp_all add: report_frame_def reported_averages_def)
  have finals: "preserves (report_frame s) (\<lambda>_ _. True)
      (and_then (read_var subgroup_avgs) (\<lambda>avgs.
         for_each (\<lambda>(idx, avg). info (InfoFinalSubgroup (idx + 1) avg)) (enumerate 0 avgs)))"
    by (intro preserves_intros) (simp_all add: report_frame_def reported_averages_def)
  have last: "final_report (t\<lparr>logged := logged t @ [InfoTotalAvg (sum_list (subgroup_avgs t) / real (length (subgroup_avgs t)))]\<rparr>)"
    if "report_frame s t" for t :: "('w, 'd) state"
    using that assms
    by (simp add: report_frame_def final_report_def loop_report_def expected_averages_def
        subgroups_def arithmetic_mean_def reported_averages_def)
  show ?thesis
    unfolding report_averages_def
    apply (subst post_and_then)
    apply (rule post_mono [OF preservesD [OF across]])
      apply (simp add: report_frame_def)
     apply (subst post_and_then)
     apply (rule post_mono [OF preservesD [OF finals]])
       apply assumption
      apply (auto simp add: last)
    done
qed

lemma after_wandb_setup_report:
  fixes s :: "('w, 'd) state"
  assumes "clean s"
  shows "post (after_wandb_setup env cfg) s (\<lambda>_. final_report) (\<lambda>_ _. True)"
proof -
  have tail: "preserves final_report (\<lambda>_ _. True)
      (and_then (when_do (SETTING cfg = ''continual_mixed_domain'')
                   (for_each (evaluate_mixed env cfg ds) (severities_of cfg))) (\<lambda>_.
       finish env cfg ds))" for ds
    by (intro preserves_intros preserves_final_evaluate_mixed preserves_final_finish)
  show ?thesis
    unfolding after_wandb_setup_def
    apply (subst post_and_then)
    apply (rule post_mono [OF preservesD [OF preserves_clean_setup_model assms]])
     apply (subst post_and_then)
     apply (rule post_mono [OF preservesD [OF preserves_clean_describe_ours]])
       apply assumption
      apply (subst post_and_then)
      apply (rule post_mono [OF preservesD [OF preserves_clean_get_domain_sequence]])
        apply assumption
       apply (subst post_and_then, subst post_info)
       apply (subst post_and_then)
       apply (rule post_mono [OF evaluation_phase_report])
         apply (simp add: clean_logged)
        apply (subst post_and_then)
        apply (rule post_mono [OF report_averages_final])
          apply assumption
         apply (rule preservesD [OF tail])
         apply assumption
        apply simp_all
    done
qed

lemma after_validation_report:
  fixes s :: "('w, 'd) state"
  assumes "clean s"
  shows "post (after_validation env cfg) s (\<lambda>_. final_report) (\<lambda>_ _. True)"
proof -
  have av: "preserves clean (\<lambda>_ _. True)
      (ext_call Setup WandbSetup (\<lambda>_. Returned) (wandb_setup env cfg))"
    by (intro preserves_intros) (simp_all add: clean_trace)
  show ?thesis
    unfolding after_validation_def
    apply (subst post_and_then)
    apply (rule post_mono [OF preservesD [OF av assms]])
     apply (rule after_wandb_setup_report)
     apply assumption
    apply simp
    done
qed

lemma evaluate_report:
  "post (evaluate_stmt env description) (initial_state env w) (\<lambda>_. final_report) (\<lambda>_ _. True)"
proof -
  have c0: "clean (initial_state env w)"
    by (simp add: clean_def initial_state_def reported_averages_def)
  have ld: "preserves clean (\<lambda>_ _. True)
      (ext_call Setup (LoadCfgFromArgs description) (\<lambda>_. Returned)
         (load_cfg_from_args env description))"
    by (intro preserves_intros) (simp_all add: clean_trace)
  show ?thesis
    unfolding evaluate_stmt_def
    apply (subst post_and_then)
    apply (rule post_mono [OF preservesD [OF ld c0]])
     apply (simp add: after_validation_report)
    apply simp
    done
qed



lemma evaluate_one_step:
  fixes s :: "('w, 'd) state"
  shows "post (evaluate_one env cfg ds sg c i dn sev) s
           (\<lambda>_ s'. \<exists>acc n. trace s' = trace s
                        @ [Ev (AtEval sg c i) (GetTestLoader (SETTING cfg) dn sev) Returned,
                           Ev (AtEval sg c i) (GetAccuracy (SETTING cfg) dn sev) (ReturnedAcc acc n)]
                    \<and> errs s' = errs s @ [1 - acc]
                    \<and> cycle_errs s' = cycle_errs s @ [1 - acc]
                    \<and> errs_5 s' = (if sev = 5 \<and> dn \<noteq> ''none'' then errs_5 s @ [1 - acc]
                                   else errs_5 s))
           (\<lambda>_ s'. (\<exists>T. trace s' = trace s @ T \<and> list_all (\<lambda>ev. error_of ev = []) T)
                    \<and> errs s' = errs s \<and> errs_5 s' = errs_5 s)"
proof -
  obtain r1 w1 where r1:
    "get_test_loader env cfg (SETTING cfg) dn ds sev (world s) = (r1, w1)" by fastforce
  show ?thesis
  proof (cases r1)
    case (Inl e)
    with r1 show ?thesis by (simp add: evaluate_one_def post_ext_call error_of_def)
  next
    case (Inr ld)
    obtain r2 w2 where r2:
      "get_accuracy env cfg ld dn (SETTING cfg) (domain_dict s) w1 = (r2, w2)" by fastforce
    show ?thesis
    proof (cases r2)
      case (Inl e)
      with r1 r2 Inr show ?thesis by (simp add: evaluate_one_def post_ext_call error_of_def)
    next
      case (Inr res)
      obtain acc dd n where res: "res = (acc, dd, n)" by (cases res) auto
      show ?thesis
        using r1 r2 \<open>r1 = Inr ld\<close> Inr res
        by (simp add: evaluate_one_def post_ext_call)
    qed
  qed
qed

lemma evaluate_mixed_step:
  fixes s :: "('w, 'd) state"
  shows "post (evaluate_mixed env cfg ds sev) s
           (\<lambda>_ s'. \<exists>acc n. trace s' = trace s
                        @ [Ev AtMixedPass (GetTestLoader ''mixed_domains'' ''mixed'' sev) Returned,
                           Ev AtMixedPass (GetAccuracy ''mixed_domains'' ''mixed'' sev)
                             (ReturnedAcc acc n)]
                    \<and> errs s' = errs s @ [1 - acc]
                    \<and> cycle_errs s' = cycle_errs s
                    \<and> errs_5 s' = (if sev = 5 then errs_5 s @ [1 - acc] else errs_5 s))
           (\<lambda>_ s'. (\<exists>T. trace s' = trace s @ T \<and> list_all (\<lambda>ev. error_of ev = []) T)
                    \<and> errs s' = errs s \<and> errs_5 s' = errs_5 s)"
proof -
  obtain r1 w1 where r1:
    "get_test_loader env cfg ''mixed_domains'' ''mixed'' ds sev (world s) = (r1, w1)"
    by fastforce
  show ?thesis
  proof (cases r1)
    case (Inl e)
    with r1 show ?thesis by (simp add: evaluate_mixed_def post_ext_call error_of_def)
  next
    case (Inr ld)
    obtain r2 w2 where r2:
      "get_accuracy env cfg ld ''mixed'' ''mixed_domains'' (domain_dict s) w1 = (r2, w2)"
      by fastforce
    show ?thesis
    proof (cases r2)
      case (Inl e)
      with r1 r2 Inr show ?thesis by (simp add: evaluate_mixed_def post_ext_call error_of_def)
    next
      case (Inr res)
      obtain acc dd n where res: "res = (acc, dd, n)" by (cases res) auto
      show ?thesis
        using r1 r2 \<open>r1 = Inr ld\<close> Inr res
        by (simp add: evaluate_mixed_def post_ext_call)
    qed
  qed
qed

lemma preserves_recorded_evaluate_one:
  "preserves recorded (\<lambda>_. recorded) (evaluate_one env cfg ds sg c i dn sev)"
  unfolding preserves_def
proof (intro allI impI)
  fix s :: "('a, 'b) state"
  assume "recorded s"
  then show "post (evaluate_one env cfg ds sg c i dn sev) s (\<lambda>_. recorded) (\<lambda>_. recorded)"
    by (intro post_mono [OF evaluate_one_step])
       (auto simp add: recorded_def error_of_def error_5_of_def list_all_iff
          split: call.splits)
qed

lemma preserves_recorded_evaluate_mixed:
  "preserves recorded (\<lambda>_. recorded) (evaluate_mixed env cfg ds sev)"
  unfolding preserves_def
proof (intro allI impI)
  fix s :: "('a, 'b) state"
  assume "recorded s"
  then show "post (evaluate_mixed env cfg ds sev) s (\<lambda>_. recorded) (\<lambda>_. recorded)"
    by (intro post_mono [OF evaluate_mixed_step])
       (auto simp add: recorded_def error_of_def error_5_of_def list_all_iff
          split: call.splits)
qed

lemma error_of_other [simp]:
  "error_of (Ev p c Returned) = []" "error_of (Ev p c (Raises e)) = []"
  by (simp_all add: error_of_def)

lemma error_5_of_other [simp]:
  "error_5_of (Ev p c Returned) = []" "error_5_of (Ev p c (Raises e)) = []"
  by (simp_all add: error_5_of_def split: call.splits)

lemma recorded_simps [simp]:
  "recorded (s\<lparr>logged := a\<rparr>) = recorded s"
  "recorded (s\<lparr>subgroup_cycle_errs := b\<rparr>) = recorded s"
  "recorded (s\<lparr>subgroup_avgs := b\<rparr>) = recorded s"
  "recorded (s\<lparr>cycle_errs := b\<rparr>) = recorded s"
  "recorded (s\<lparr>domain_dict := d\<rparr>) = recorded s"
  "recorded (s\<lparr>cycle_avgs_all_subgroups := m\<rparr>) = recorded s"
  by (simp_all add: recorded_def)

lemma recorded_trace:
  "recorded s \<Longrightarrow> recorded (s\<lparr>world := w, trace := trace s @ [Ev p c Returned]\<rparr>)"
  "recorded s \<Longrightarrow> recorded (s\<lparr>world := w, trace := trace s @ [Ev p c (Raises e)]\<rparr>)"
  by (simp_all add: recorded_def)

lemma blank_simps [simp]:
  "blank (s\<lparr>logged := a\<rparr>) = blank s"
  "blank (s\<lparr>domain_dict := d\<rparr>) = blank s"
  "blank (s\<lparr>subgroup_avgs := b\<rparr>) = blank s"
  "blank (s\<lparr>cycle_avgs_all_subgroups := m\<rparr>) = blank s"
  by (simp_all add: blank_def)

lemma blank_trace:
  "blank s \<Longrightarrow> blank (s\<lparr>world := w, trace := trace s @ [Ev p c Returned]\<rparr>)"
  "blank s \<Longrightarrow> blank (s\<lparr>world := w, trace := trace s @ [Ev p c (Raises e)]\<rparr>)"
  by (simp_all add: blank_def)

lemma blank_recorded: "blank s \<Longrightarrow> recorded s"
  by (simp add: blank_def recorded_def list_all_iff error_5_of_def split: call.splits)

lemma preserves_try_except:
  assumes "preserves I (\<lambda>e s. if is_AttributeError e then I s else E e s) body"
    and "preserves I E handler"
  shows "preserves I E (try_except_AttributeError body handler)"
  unfolding preserves_def
proof (intro allI impI)
  fix s
  assume "I s"
  show "post (try_except_AttributeError body handler) s (\<lambda>_. I) E"
    by (simp, rule post_mono [OF preservesD [OF assms(1) \<open>I s\<close>]])
       (auto intro: preservesD [OF assms(2)])
qed

lemma preserves_recorded_reset_model:
  "preserves recorded (\<lambda>_. recorded) (reset_model env sg)"
  unfolding reset_model_def
  by (intro preserves_try_except preserves_intros) (simp_all add: recorded_trace)

lemma preserves_recorded_run_subgroups:
  "preserves recorded (\<lambda>_. recorded) (run_subgroups env cfg ds dsl sevs)"
  unfolding run_subgroups_def run_subgroup_def run_cycles_def run_cycle_def run_domain_def
    dict_append_def
  by (intro preserves_intros preserves_recorded_evaluate_one preserves_recorded_reset_model)
     simp_all

lemma preserves_recorded_tail:
  "preserves recorded (\<lambda>_. recorded)
     (and_then report_averages (\<lambda>_.
      and_then (when_do (SETTING cfg = ''continual_mixed_domain'')
                  (for_each (evaluate_mixed env cfg ds) (severities_of cfg))) (\<lambda>_.
      finish env cfg ds)))"
  unfolding report_averages_def finish_def
  by (intro preserves_intros preserves_recorded_evaluate_mixed) (simp_all add: recorded_trace)

lemma evaluation_phase_recorded:
  fixes s :: "('w, 'd) state"
  assumes "blank s"
  shows "post (evaluation_phase env cfg ds) s (\<lambda>_. recorded) (\<lambda>_. recorded)"
proof -
  have "recorded (t\<lparr>errs := [], errs_5 := [], domain_dict := d, subgroup_avgs := [],
                    cycle_avgs_all_subgroups := m\<rparr>)" if "blank t" for t :: "('w, 'd) state" and d m
    using that by (simp add: blank_def recorded_def list_all_iff error_5_of_def split: call.splits)
  then show ?thesis
    unfolding evaluation_phase_def init_lists_def
    using assms
    by (auto intro!: preservesD [OF preserves_recorded_run_subgroups])
qed

lemma preserves_blank_setup:
  "preserves blank (\<lambda>_. blank) (setup_model env cfg)"
  "preserves blank (\<lambda>_. blank) (describe_ours env cfg)"
  "preserves blank (\<lambda>_. blank) (get_domain_sequence env cfg)"
  unfolding setup_model_def describe_ours_def get_domain_sequence_def
  by (intro preserves_intros; simp add: blank_trace)+

lemma after_wandb_setup_recorded:
  fixes s :: "('w, 'd) state"
  assumes "blank s"
  shows "post (after_wandb_setup env cfg) s (\<lambda>_. recorded) (\<lambda>_. recorded)"
  unfolding after_wandb_setup_def
  apply (subst post_and_then)
  apply (rule post_mono [OF preservesD [OF preserves_blank_setup(1) assms]])
   apply (subst post_and_then)
   apply (rule post_mono [OF preservesD [OF preserves_blank_setup(2)]])
     apply assumption
    apply (subst post_and_then)
    apply (rule post_mono [OF preservesD [OF preserves_blank_setup(3)]])
      apply assumption
     apply (subst post_and_then, subst post_info)
     apply (subst post_and_then)
     apply (rule post_mono [OF evaluation_phase_recorded])
       apply simp
      apply (rule preservesD [OF preserves_recorded_tail])
      apply assumption
     apply (simp_all add: blank_recorded)
  done

lemma evaluate_recorded:
  "post (evaluate_stmt env description) (initial_state env w) (\<lambda>_. recorded) (\<lambda>_. recorded)"
proof -
  have b0: "blank (initial_state env w)"
    by (simp add: blank_def initial_state_def)
  have ld: "preserves blank (\<lambda>_. blank)
      (ext_call Setup (LoadCfgFromArgs description) (\<lambda>_. Returned)
         (load_cfg_from_args env description))"
    by (intro preserves_intros) (simp_all add: blank_trace)
  have av: "preserves blank (\<lambda>_. blank)
      (ext_call Setup WandbSetup (\<lambda>_. Returned) (wandb_setup env cfg))" for cfg
    by (intro preserves_intros) (simp_all add: blank_trace)
  have after: "post (after_validation env cfg) t (\<lambda>_. recorded) (\<lambda>_. recorded)"
    if "blank t" for cfg and t :: "('a, 'b) state"
    unfolding after_validation_def
    apply (subst post_and_then)
    apply (rule post_mono [OF preservesD [OF av that]])
     apply (rule after_wandb_setup_recorded)
     apply assumption
    apply (simp add: blank_recorded)
    done
  show ?thesis
    unfolding evaluate_stmt_def
    apply (subst post_and_then)
    apply (rule post_mono [OF preservesD [OF ld b0]])
     apply (simp add: after blank_recorded)
    apply (simp add: blank_recorded)
    done
qed

lemma mixed_pass_step:
  "evaluate_mixed (example_env continual_mixed_cfg) continual_mixed_cfg
       (CORRUPTION_TYPE continual_mixed_cfg) 5
       (initial_state (example_env continual_mixed_cfg) 0) =
     (Inr (),
      (initial_state (example_env continual_mixed_cfg) 0)
        \<lparr>world := 1, domain_dict := 1, errs := [1 / 2], errs_5 := [1 / 2],
         logged := [InfoTransform, InfoError ''imagenet_c'' ''mixed'' 5 10 (1 / 2)],
         trace := [Ev AtMixedPass (GetTestLoader ''mixed_domains'' ''mixed'' 5) Returned,
                   Ev AtMixedPass (GetAccuracy ''mixed_domains'' ''mixed'' 5)
                     (ReturnedAcc (1 / 2) 10)]\<rparr>)"
  by (simp add: evaluate_mixed_def and_then_def ext_call_def read_var_def modify_def when_do_def
      info_def ret_def example_env_simps initial_state_def continual_mixed_cfg_def
      example_cfg_def)

text \<open>
  C2, as amended. In every run of \<^verbatim>\<open>evaluate\<close>, whether it returns or raises, the global
  error list holds \<open>1 - acc\<close> for every accuracy that \<^verbatim>\<open>get_accuracy\<close> returned, in the order
  of the calls, and the severity-5 list holds those of them whose severity is 5 and whose
  domain name is not \<^verbatim>\<open>none\<close>. An evaluation inside the subgroup loop appends its error
  to the global list and to the list of the current cycle, and to the severity-5 list
  exactly when the severity is 5 and the domain name is not \<^verbatim>\<open>none\<close>. An evaluation of
  the extra pass of the setting \<^verbatim>\<open>continual_mixed_domain\<close> appends its error to the global
  list, and to the severity-5 list exactly when the severity is 5; it leaves the cycle
  list as it is.
\<close>

theorem errors_are_recorded:
  "errs (snd (evaluate env description w))
     = concat (map error_of (trace (snd (evaluate env description w))))
   \<and> errs_5 (snd (evaluate env description w))
       = concat (map error_5_of (trace (snd (evaluate env description w))))
   \<and> (fst (evaluate_one env cfg ds sg c i dn sev s) = Inr () \<longrightarrow>
        (\<exists>acc n.
           trace (snd (evaluate_one env cfg ds sg c i dn sev s)) = trace s
             @ [Ev (AtEval sg c i) (GetTestLoader (SETTING cfg) dn sev) Returned,
                Ev (AtEval sg c i) (GetAccuracy (SETTING cfg) dn sev) (ReturnedAcc acc n)]
           \<and> errs (snd (evaluate_one env cfg ds sg c i dn sev s)) = errs s @ [1 - acc]
           \<and> cycle_errs (snd (evaluate_one env cfg ds sg c i dn sev s))
               = cycle_errs s @ [1 - acc]
           \<and> errs_5 (snd (evaluate_one env cfg ds sg c i dn sev s))
               = (if sev = 5 \<and> dn \<noteq> ''none'' then errs_5 s @ [1 - acc] else errs_5 s)))
   \<and> (fst (evaluate_mixed env cfg ds sev s) = Inr () \<longrightarrow>
        (\<exists>acc n.
           trace (snd (evaluate_mixed env cfg ds sev s)) = trace s
             @ [Ev AtMixedPass (GetTestLoader ''mixed_domains'' ''mixed'' sev) Returned,
                Ev AtMixedPass (GetAccuracy ''mixed_domains'' ''mixed'' sev) (ReturnedAcc acc n)]
           \<and> errs (snd (evaluate_mixed env cfg ds sev s)) = errs s @ [1 - acc]
           \<and> cycle_errs (snd (evaluate_mixed env cfg ds sev s)) = cycle_errs s
           \<and> errs_5 (snd (evaluate_mixed env cfg ds sev s))
               = (if sev = 5 then errs_5 s @ [1 - acc] else errs_5 s)))"
proof (intro conjI impI)
  have "recorded (snd (evaluate env description w))"
    using evaluate_recorded [of env description w]
    by (auto simp add: evaluate_def post_def split: prod.splits sum.splits)
  then show "errs (snd (evaluate env description w))
     = concat (map error_of (trace (snd (evaluate env description w))))"
    and "errs_5 (snd (evaluate env description w))
       = concat (map error_5_of (trace (snd (evaluate env description w))))"
    by (simp_all add: recorded_def)
next
  assume "fst (evaluate_one env cfg ds sg c i dn sev s) = Inr ()"
  with evaluate_one_step [of env cfg ds sg c i dn sev s]
  show "\<exists>acc n.
           trace (snd (evaluate_one env cfg ds sg c i dn sev s)) = trace s
             @ [Ev (AtEval sg c i) (GetTestLoader (SETTING cfg) dn sev) Returned,
                Ev (AtEval sg c i) (GetAccuracy (SETTING cfg) dn sev) (ReturnedAcc acc n)]
           \<and> errs (snd (evaluate_one env cfg ds sg c i dn sev s)) = errs s @ [1 - acc]
           \<and> cycle_errs (snd (evaluate_one env cfg ds sg c i dn sev s))
               = cycle_errs s @ [1 - acc]
           \<and> errs_5 (snd (evaluate_one env cfg ds sg c i dn sev s))
               = (if sev = 5 \<and> dn \<noteq> ''none'' then errs_5 s @ [1 - acc] else errs_5 s)"
    by (cases "evaluate_one env cfg ds sg c i dn sev s") (simp add: post_def)
next
  assume "fst (evaluate_mixed env cfg ds sev s) = Inr ()"
  with evaluate_mixed_step [of env cfg ds sev s]
  show "\<exists>acc n.
           trace (snd (evaluate_mixed env cfg ds sev s)) = trace s
             @ [Ev AtMixedPass (GetTestLoader ''mixed_domains'' ''mixed'' sev) Returned,
                Ev AtMixedPass (GetAccuracy ''mixed_domains'' ''mixed'' sev) (ReturnedAcc acc n)]
           \<and> errs (snd (evaluate_mixed env cfg ds sev s)) = errs s @ [1 - acc]
           \<and> cycle_errs (snd (evaluate_mixed env cfg ds sev s)) = cycle_errs s
           \<and> errs_5 (snd (evaluate_mixed env cfg ds sev s))
               = (if sev = 5 then errs_5 s @ [1 - acc] else errs_5 s)"
    by (cases "evaluate_mixed env cfg ds sev s") (simp add: post_def)
qed

text \<open>One evaluation of the example inside the loop and one of the extra pass.\<close>

theorem errors_are_recorded_witness:
  "fst (evaluate_one (example_env example_cfg) example_cfg (CORRUPTION_TYPE example_cfg)
          (0, 3) 0 0 ''gaussian_noise'' 5 (initial_state (example_env example_cfg) 0)) = Inr ()
   \<and> (\<exists>acc n.
        errs (snd (evaluate_one (example_env example_cfg) example_cfg
                (CORRUPTION_TYPE example_cfg) (0, 3) 0 0 ''gaussian_noise'' 5
                (initial_state (example_env example_cfg) 0))) = [1 - acc]
        \<and> cycle_errs (snd (evaluate_one (example_env example_cfg) example_cfg
                (CORRUPTION_TYPE example_cfg) (0, 3) 0 0 ''gaussian_noise'' 5
                (initial_state (example_env example_cfg) 0))) = [1 - acc]
        \<and> errs_5 (snd (evaluate_one (example_env example_cfg) example_cfg
                (CORRUPTION_TYPE example_cfg) (0, 3) 0 0 ''gaussian_noise'' 5
                (initial_state (example_env example_cfg) 0))) = [1 - acc])
   \<and> fst (evaluate_mixed (example_env continual_mixed_cfg) continual_mixed_cfg
            (CORRUPTION_TYPE continual_mixed_cfg) 5
            (initial_state (example_env continual_mixed_cfg) 0)) = Inr ()
   \<and> (\<exists>acc n.
        errs (snd (evaluate_mixed (example_env continual_mixed_cfg) continual_mixed_cfg
                (CORRUPTION_TYPE continual_mixed_cfg) 5
                (initial_state (example_env continual_mixed_cfg) 0))) = [1 - acc]
        \<and> cycle_errs (snd (evaluate_mixed (example_env continual_mixed_cfg) continual_mixed_cfg
                (CORRUPTION_TYPE continual_mixed_cfg) 5
                (initial_state (example_env continual_mixed_cfg) 0))) = [])"
proof -
  let ?s = "initial_state (example_env example_cfg) 0"
  let ?t = "initial_state (example_env continual_mixed_cfg) 0"
  have a: "fst (evaluate_one (example_env example_cfg) example_cfg (CORRUPTION_TYPE example_cfg)
          (0, 3) 0 0 ''gaussian_noise'' 5 ?s) = Inr ()"
    unfolding fst_eq_post
    by (rule post_mono [OF evaluate_one_quiet [OF quiet_loop_example]]) simp_all
  have b: "fst (evaluate_mixed (example_env continual_mixed_cfg) continual_mixed_cfg
            (CORRUPTION_TYPE continual_mixed_cfg) 5 ?t) = Inr ()"
    unfolding fst_eq_post
    by (rule evaluate_mixed_quiet [OF quiet_loop_example])
  have s0: "errs ?s = []" "cycle_errs ?s = []" "errs_5 ?s = []"
    "errs ?t = []" "cycle_errs ?t = []" "errs_5 ?t = []"
    by (simp_all add: initial_state_def)
  from errors_are_recorded [of "example_env example_cfg" "''Evaluation.''" 0 example_cfg
      "CORRUPTION_TYPE example_cfg" "(0, 3)" 0 0 "''gaussian_noise''" 5 ?s] a s0
  have 1: "\<exists>acc n.
        errs (snd (evaluate_one (example_env example_cfg) example_cfg
                (CORRUPTION_TYPE example_cfg) (0, 3) 0 0 ''gaussian_noise'' 5 ?s)) = [1 - acc]
        \<and> cycle_errs (snd (evaluate_one (example_env example_cfg) example_cfg
                (CORRUPTION_TYPE example_cfg) (0, 3) 0 0 ''gaussian_noise'' 5 ?s)) = [1 - acc]
        \<and> errs_5 (snd (evaluate_one (example_env example_cfg) example_cfg
                (CORRUPTION_TYPE example_cfg) (0, 3) 0 0 ''gaussian_noise'' 5 ?s)) = [1 - acc]"
    by auto
  from errors_are_recorded [of "example_env continual_mixed_cfg" "''Evaluation.''" 0
      continual_mixed_cfg "CORRUPTION_TYPE continual_mixed_cfg" "(0, 3)" 0 0 "''gaussian_noise''"
      5 ?t] b s0
  have 2: "\<exists>acc n.
        errs (snd (evaluate_mixed (example_env continual_mixed_cfg) continual_mixed_cfg
                (CORRUPTION_TYPE continual_mixed_cfg) 5 ?t)) = [1 - acc]
        \<and> cycle_errs (snd (evaluate_mixed (example_env continual_mixed_cfg) continual_mixed_cfg
                (CORRUPTION_TYPE continual_mixed_cfg) 5 ?t)) = []"
    by auto
  from a b 1 2 show ?thesis by blast
qed

text \<open>
  C2 as stated fails: the evaluation of the extra pass (lines 233 to 274) appends its
  error \<open>1/2\<close> to the global list, but the cycle list does not receive it.
\<close>

theorem mixed_pass_counterexample:
  "fst (evaluate_mixed (example_env continual_mixed_cfg) continual_mixed_cfg
          (CORRUPTION_TYPE continual_mixed_cfg) 5
          (initial_state (example_env continual_mixed_cfg) 0)) = Inr ()
   \<and> errs (snd (evaluate_mixed (example_env continual_mixed_cfg) continual_mixed_cfg
              (CORRUPTION_TYPE continual_mixed_cfg) 5
              (initial_state (example_env continual_mixed_cfg) 0)))
       = errs (initial_state (example_env continual_mixed_cfg) 0) @ [1 - 1 / 2]
   \<and> cycle_errs (snd (evaluate_mixed (example_env continual_mixed_cfg) continual_mixed_cfg
              (CORRUPTION_TYPE continual_mixed_cfg) 5
              (initial_state (example_env continual_mixed_cfg) 0)))
       \<noteq> cycle_errs (initial_state (example_env continual_mixed_cfg) 0) @ [1 - 1 / 2]"
  by (simp add: mixed_pass_step) (simp add: initial_state_def)

named_theorems makes_intros

lemma loop_steps_simps [simp]:
  "loop_steps [] = []"
  "loop_steps (xs @ ys) = loop_steps xs @ loop_steps ys"
  "loop_steps (ev # xs) = loop_step ev @ loop_steps xs"
  by (simp_all add: loop_steps_def)

lemma loop_step_outcome: "loop_step (Ev p c oc) = loop_step (Ev p c Returned)"
  by (simp add: loop_step_def split: place.splits)

lemma makes_ext_call: "makes (ext_call p c oc f) (loop_step (Ev p c Returned))"
  by (simp add: makes_def post_ext_call loop_step_outcome [of p c "Raises _"]
        loop_step_outcome [of p c "oc _"] split: prod.splits sum.splits)

lemma makes_ret [makes_intros]: "makes (ret v) []"
  by (simp add: makes_def)

lemma makes_raise_exn [makes_intros]: "makes (raise_exn e) P"
  by (simp add: makes_def)

lemma makes_read_var [makes_intros]: "makes (read_var x) []"
  by (simp add: makes_def)

lemma makes_modify [makes_intros]: "(\<And>s. trace (f s) = trace s) \<Longrightarrow> makes (modify f) []"
  by (simp add: makes_def)

lemma makes_info [makes_intros]: "makes (info entry) []"
  by (simp add: makes_def)

lemma makes_py_assert [makes_intros]: "makes (py_assert b) []"
  by (simp add: makes_def)

lemma makes_py_index [makes_intros]: "makes (py_index xs i) []"
  by (simp add: makes_def)

lemma makes_py_mean [makes_intros]: "makes (py_mean xs) []"
  by (simp add: makes_def)

lemma makes_and_then:
  fixes f :: "('a, ('w, 'd) state) stmt" and g :: "'a \<Rightarrow> ('b, ('w, 'd) state) stmt"
  assumes "makes f P" and "\<And>v. makes (g v) P'"
  shows "makes (and_then f g) (P @ P')"
  unfolding makes_def
proof
  fix s :: "('w, 'd) state"
  show "post (and_then f g) s (\<lambda>_ s'. \<exists>T. trace s' = trace s @ T \<and> loop_steps T = P @ P')
          (\<lambda>_ s'. \<exists>T. trace s' = trace s @ T \<and> prefix (loop_steps T) (P @ P'))"
  proof (simp, rule post_mono [OF assms(1) [unfolded makes_def, rule_format, of s]])
    fix v and s1 :: "('w, 'd) state"
    assume "\<exists>T. trace s1 = trace s @ T \<and> loop_steps T = P"
    then obtain T where T: "trace s1 = trace s @ T" "loop_steps T = P" by blast
    show "post (g v) s1 (\<lambda>_ s'. \<exists>T. trace s' = trace s @ T \<and> loop_steps T = P @ P')
            (\<lambda>_ s'. \<exists>T. trace s' = trace s @ T \<and> prefix (loop_steps T) (P @ P'))"
    proof (rule post_mono [OF assms(2) [unfolded makes_def, rule_format, of v s1]])
      fix u and s2 :: "('w, 'd) state"
      assume "\<exists>T'. trace s2 = trace s1 @ T' \<and> loop_steps T' = P'"
      then obtain T' where "trace s2 = trace s1 @ T'" "loop_steps T' = P'" by blast
      with T have "trace s2 = trace s @ (T @ T') \<and> loop_steps (T @ T') = P @ P'" by simp
      then show "\<exists>T. trace s2 = trace s @ T \<and> loop_steps T = P @ P'" by blast
    next
      fix e and s2 :: "('w, 'd) state"
      assume "\<exists>T'. trace s2 = trace s1 @ T' \<and> prefix (loop_steps T') P'"
      then obtain T' where "trace s2 = trace s1 @ T'" "prefix (loop_steps T') P'" by blast
      with T have "trace s2 = trace s @ (T @ T') \<and> prefix (loop_steps (T @ T')) (P @ P')" by simp
      then show "\<exists>T. trace s2 = trace s @ T \<and> prefix (loop_steps T) (P @ P')" by blast
    qed
  next
    fix e and s1 :: "('w, 'd) state"
    assume "\<exists>T. trace s1 = trace s @ T \<and> prefix (loop_steps T) P"
    then show "\<exists>T. trace s1 = trace s @ T \<and> prefix (loop_steps T) (P @ P')"
      by auto
  qed
qed

lemma makes_and_then_Nil [makes_intros]:
  assumes "makes f []" and "\<And>v. makes (g v) P"
  shows "makes (and_then f g) P"
  using makes_and_then [OF assms] by simp

lemma makes_for_each:
  assumes "\<And>x. x \<in> set xs \<Longrightarrow> makes (body x) (P x)"
  shows "makes (for_each body xs) (concat (map P xs))"
  using assms
proof (induction xs)
  case Nil
  then show ?case by (simp add: makes_def)
next
  case (Cons x xs)
  have "for_each body (x # xs) = and_then (body x) (\<lambda>_. for_each body xs)"
    by (rule ext) (simp add: for_each.simps and_then_def split: prod.splits sum.splits)
  moreover have "makes (and_then (body x) (\<lambda>_. for_each body xs)) (P x @ concat (map P xs))"
    by (rule makes_and_then) (simp_all add: Cons)
  ultimately show ?case by simp
qed

lemma makes_when_do_Nil [makes_intros]: "makes f [] \<Longrightarrow> makes (when_do b f) []"
  by (simp add: makes_def)

lemma makes_for_each_Nil [makes_intros]:
  assumes "\<And>x. makes (body x) []"
  shows "makes (for_each body xs) []"
proof -
  have "concat (map (\<lambda>_. []) xs) = ([] :: step list)"
    by (induction xs) simp_all
  with makes_for_each [of xs body "\<lambda>_. []"] assms show ?thesis by simp
qed

lemma makes_if [makes_intros]: "makes f P \<Longrightarrow> makes g P \<Longrightarrow> makes (if b then f else g) P"
  by simp

lemma makes_case_prod [makes_intros]:
  "(\<And>a b. makes (f a b) P) \<Longrightarrow> makes (case x of (a, b) \<Rightarrow> f a b) P"
  by (cases x) simp

lemma makes_case_option [makes_intros]:
  "makes f P \<Longrightarrow> (\<And>a. makes (g a) P) \<Longrightarrow> makes (case x of None \<Rightarrow> f | Some a \<Rightarrow> g a) P"
  by (cases x) simp_all

lemma makes_loss_names [makes_intros]: "makes (loss_names keep losses) []"
  by (induction losses) (auto intro!: makes_intros split: option.splits)

lemma makes_ext_call_Setup [makes_intros]: "makes (ext_call Setup c oc f) []"
  using makes_ext_call [of Setup c oc f] by (simp add: loop_step_def)

lemma makes_ext_call_AtMixedPass [makes_intros]: "makes (ext_call AtMixedPass c oc f) []"
  using makes_ext_call [of AtMixedPass c oc f] by (simp add: loop_step_def)

lemma makes_ext_call_AtFinish [makes_intros]: "makes (ext_call AtFinish c oc f) []"
  using makes_ext_call [of AtFinish c oc f] by (simp add: loop_step_def)

lemma makes_evaluate_one:
  "makes (evaluate_one env cfg ds sg c i dn sev) [EvalOf Loader sg c i sev, EvalOf Accuracy sg c i sev]"
proof -
  have "makes (evaluate_one env cfg ds sg c i dn sev)
          (loop_step (Ev (AtEval sg c i) (GetTestLoader (SETTING cfg) dn sev) Returned)
           @ loop_step (Ev (AtEval sg c i) (GetAccuracy (SETTING cfg) dn sev) Returned) @ [])"
    unfolding evaluate_one_def
    by (intro makes_and_then makes_ext_call makes_intros allI) (auto intro!: makes_intros split: prod.splits)
  then show ?thesis by (simp add: loop_step_def)
qed

lemma makes_run_domain:
  "makes (run_domain env cfg ds dsl sevs sg c i)
     (concat (map (\<lambda>sev. [EvalOf Loader sg c i sev, EvalOf Accuracy sg c i sev]) sevs))"
  unfolding run_domain_def
  by (intro makes_and_then_Nil makes_py_index makes_for_each makes_evaluate_one)

lemma makes_dict_append: "makes (dict_append k v) []"
  unfolding dict_append_def
  by (auto intro!: makes_intros split: option.splits)

lemma makes_run_cycle:
  "makes (run_cycle env cfg ds dsl sevs sg c)
     (concat (map (\<lambda>i. concat (map (\<lambda>sev. [EvalOf Loader sg c i sev, EvalOf Accuracy sg c i sev]) sevs))
        (range_list sg)))"
proof -
  have "makes (run_cycle env cfg ds dsl sevs sg c)
     (concat (map (\<lambda>i. concat (map (\<lambda>sev. [EvalOf Loader sg c i sev, EvalOf Accuracy sg c i sev]) sevs))
        (range_list sg)) @ [])"
    unfolding run_cycle_def
    apply (rule makes_and_then_Nil)
     apply (rule makes_modify, simp)
    apply (rule makes_and_then)
     apply (rule makes_for_each, rule makes_run_domain)
    apply (intro makes_intros makes_dict_append)
    apply simp
    done
  then show ?thesis by simp
qed

lemma makes_reset_model: "makes (reset_model env sg) [ResetOf sg]"
  unfolding makes_def
proof
  fix s :: "('a, 'b) state"
  obtain r w' where r: "model_reset env (world s) = (r, w')" by fastforce
  show "post (reset_model env sg) s (\<lambda>_ s'. \<exists>T. trace s' = trace s @ T \<and> loop_steps T = [ResetOf sg])
          (\<lambda>_ s'. \<exists>T. trace s' = trace s @ T \<and> prefix (loop_steps T) [ResetOf sg])"
    using r
    by (cases r) (simp_all add: reset_model_def post_ext_call loop_step_def)
qed

lemma makes_run_subgroup:
  "makes (run_subgroup env cfg ds dsl sevs sg)
     (ResetOf sg # concat (map (\<lambda>c. concat (map (\<lambda>i. concat (map (\<lambda>sev.
        [EvalOf Loader sg c i sev, EvalOf Accuracy sg c i sev]) sevs)) (range_list sg))) [0 ..< 2]))"
proof -
  have "makes (run_subgroup env cfg ds dsl sevs sg)
     ([ResetOf sg] @ concat (map (\<lambda>c. concat (map (\<lambda>i. concat (map (\<lambda>sev.
        [EvalOf Loader sg c i sev, EvalOf Accuracy sg c i sev]) sevs)) (range_list sg))) [0 ..< 2]) @ [])"
    unfolding run_subgroup_def run_cycles_def
    apply (rule makes_and_then_Nil)
     apply (rule makes_modify, simp)
    apply (rule makes_and_then)
     apply (rule makes_reset_model)
    apply (rule makes_and_then)
     apply (rule makes_for_each, rule makes_run_cycle)
    apply (intro makes_intros)
    apply simp
    done
  then show ?thesis by simp
qed

lemma makes_run_subgroups: "makes (run_subgroups env cfg ds dsl sevs) (loop_plan sevs)"
proof -
  have "makes (run_subgroups env cfg ds dsl sevs)
     (concat (map (\<lambda>sg. ResetOf sg # concat (map (\<lambda>c. concat (map (\<lambda>i. concat (map (\<lambda>sev.
        [EvalOf Loader sg c i sev, EvalOf Accuracy sg c i sev]) sevs)) (range_list sg))) [0 ..< 2]))
        subgroups))"
    unfolding run_subgroups_def by (intro makes_for_each makes_run_subgroup)
  also have "concat (map (\<lambda>sg. ResetOf sg # concat (map (\<lambda>c. concat (map (\<lambda>i. concat (map (\<lambda>sev.
        [EvalOf Loader sg c i sev, EvalOf Accuracy sg c i sev]) sevs)) (range_list sg))) [0 ..< 2]))
        subgroups) = loop_plan sevs"
    by (simp add: loop_plan_def subgroups_def range_list_def upt_0_2 upt_0_3)
  finally show ?thesis .
qed

lemma makes_setup_model [makes_intros]: "makes (setup_model env cfg) []"
  unfolding setup_model_def by (intro makes_intros)

lemma makes_describe_ours [makes_intros]: "makes (describe_ours env cfg) []"
  unfolding describe_ours_def by (intro makes_intros)

lemma makes_get_domain_sequence [makes_intros]: "makes (get_domain_sequence env cfg) []"
  unfolding get_domain_sequence_def by (intro makes_intros)

lemma makes_init_lists [makes_intros]: "makes (init_lists env) []"
  unfolding init_lists_def by (intro makes_intros) simp

lemma makes_report_averages [makes_intros]: "makes report_averages []"
  unfolding report_averages_def by (intro makes_intros)

lemma makes_evaluate_mixed [makes_intros]: "makes (evaluate_mixed env cfg ds sev) []"
  unfolding evaluate_mixed_def by (intro makes_intros) simp_all

lemma makes_finish [makes_intros]: "makes (finish env cfg ds) []"
  unfolding finish_def by (intro makes_intros)

lemma makes_evaluation_phase:
  "makes (evaluation_phase env cfg ds) (loop_plan (severities_of cfg))"
  unfolding evaluation_phase_def
  by (intro makes_and_then_Nil makes_run_subgroups makes_intros)

lemma makes_after_wandb_setup:
  "makes (after_wandb_setup env cfg) (loop_plan (severities_of cfg))"
proof -
  have "makes (after_wandb_setup env cfg) (loop_plan (severities_of cfg) @ [])"
    unfolding after_wandb_setup_def
    apply (rule makes_and_then_Nil, intro makes_intros)+
    apply (rule makes_and_then)
     apply (rule makes_evaluation_phase)
    apply (intro makes_intros)
    done
  then show ?thesis by simp
qed

lemma makes_after_validation:
  "makes (after_validation env cfg) (loop_plan (severities_of cfg))"
  unfolding after_validation_def
  by (intro makes_and_then_Nil makes_after_wandb_setup makes_intros)

lemma makes_evaluate_stmt:
  assumes "load_cfg_from_args env description w = (Inr cfg, w')"
  shows "post (evaluate_stmt env description) (initial_state env w)
           (\<lambda>_ s'. loop_steps (trace s') = loop_plan (severities_of cfg))
           (\<lambda>_ s'. prefix (loop_steps (trace s')) (loop_plan (severities_of cfg)))"
proof -
  let ?s1 = "(initial_state env w)\<lparr>world := w',
      trace := [Ev Setup (LoadCfgFromArgs description) Returned]\<rparr>"
  have "post (after_validation env cfg) ?s1
          (\<lambda>_ s'. loop_steps (trace s') = loop_plan (severities_of cfg))
          (\<lambda>_ s'. prefix (loop_steps (trace s')) (loop_plan (severities_of cfg)))"
    by (rule post_mono [OF makes_after_validation [unfolded makes_def, rule_format, of _ _ ?s1]])
       (auto simp add: loop_step_def)
  then show ?thesis
    by (simp add: evaluate_stmt_def post_ext_call assms initial_state_def loop_step_def)
qed

lemma in_order_update [simp]:
  "in_order (s\<lparr>subgroup_cycle_errs := b\<rparr>) = in_order s"
  "in_order (s\<lparr>subgroup_avgs := b\<rparr>) = in_order s"
  "in_order (s\<lparr>cycle_errs := b\<rparr>) = in_order s"
  "in_order (s\<lparr>errs := b\<rparr>) = in_order s"
  "in_order (s\<lparr>errs_5 := b\<rparr>) = in_order s"
  "in_order (s\<lparr>domain_dict := d\<rparr>) = in_order s"
  "in_order (s\<lparr>cycle_avgs_all_subgroups := m\<rparr>) = in_order s"
  "in_order (s\<lparr>world := w\<rparr>) = in_order s"
  by (simp_all add: in_order_def reset_log_def)

lemma in_order_logged [simp]:
  "\<not> about_reset entry \<Longrightarrow> in_order (s\<lparr>logged := logged s @ [entry]\<rparr>) = in_order s"
  by (simp add: in_order_def reset_log_def)

lemma about_reset_simps [simp]:
  "about_reset (InfoReset sg)"
  "about_reset WarningResetNotAvailable"
  "\<not> about_reset (InfoPrepared a)"
  "\<not> about_reset (InfoDescription l1 l2)"
  "\<not> about_reset (InfoDomainSequence a l)"
  "\<not> about_reset (InfoSeverities sevs)"
  "\<not> about_reset InfoTransform"
  "\<not> about_reset (InfoError a b sev n x)"
  "\<not> about_reset (InfoCycleAvg sg c x)"
  "\<not> about_reset (InfoSubgroupAvg sg x)"
  "\<not> about_reset (InfoCycleAcross c x)"
  "\<not> about_reset (InfoFinalSubgroup c x)"
  "\<not> about_reset (InfoTotalAvg x)"
  "\<not> about_reset (InfoMeanError m1 m2)"
  by (simp_all add: about_reset_def)

lemma raised_update [simp]:
  "raised e (s\<lparr>world := w\<rparr>) = raised e s"
  by (simp add: raised_def reset_log_def)

lemma in_order_raised [simp]:
  "in_order s \<Longrightarrow> raised AssertionError s"
  "in_order s \<Longrightarrow> raised IndexError s"
  "in_order s \<Longrightarrow> raised ZeroDivisionError s"
  "in_order s \<Longrightarrow> raised KeyError s"
  by (simp_all add: raised_def in_order_def own_exception_def)

lemma in_order_returned:
  "in_order s \<Longrightarrow> c \<noteq> ModelReset \<Longrightarrow>
     in_order (s\<lparr>world := w, trace := trace s @ [Ev p c Returned]\<rparr>)"
  "in_order s \<Longrightarrow> c \<noteq> ModelReset \<Longrightarrow>
     in_order (s\<lparr>world := w, trace := trace s @ [Ev p c (ReturnedAcc a n)]\<rparr>)"
  by (simp_all add: in_order_def recovered_def reset_log_def reset_entry_def
        split: place.splits call.splits)

lemma in_order_raises:
  "in_order s \<Longrightarrow> c \<noteq> ModelReset \<Longrightarrow>
     raised e (s\<lparr>world := w, trace := trace s @ [Ev p c (Raises e)]\<rparr>)"
  by (simp add: in_order_def raised_def recovered_def reset_log_def reset_entry_def
        split: place.splits call.splits)

lemma propagates_ext_call:
  "c \<noteq> ModelReset \<Longrightarrow> preserves in_order raised (ext_call p c (\<lambda>_. Returned) f)"
  by (rule preserves_ext_call) (simp_all add: in_order_returned in_order_raises)

lemma propagates_ext_call_acc:
  "c \<noteq> ModelReset \<Longrightarrow> preserves in_order raised
     (ext_call p c (\<lambda>(acc, dd, num_samples). ReturnedAcc acc num_samples) f)"
  by (rule preserves_ext_call)
     (simp_all add: in_order_returned in_order_raises split: prod.splits)

lemmas propagates_intros = propagates_ext_call propagates_ext_call_acc preserves_intros

lemma propagates_evaluate_one:
  "preserves in_order raised (evaluate_one env cfg ds sg c i dn sev)"
  unfolding evaluate_one_def
  by (intro propagates_intros) simp_all

lemma propagates_evaluate_mixed:
  "preserves in_order raised (evaluate_mixed env cfg ds sev)"
  unfolding evaluate_mixed_def
  by (intro propagates_intros) simp_all

lemma propagates_reset_model:
  "preserves in_order raised (reset_model env sg)"
  unfolding preserves_def
proof (intro allI impI)
  fix s :: "('a, 'b) state"
  assume s: "in_order s"
  obtain r w' where r: "model_reset env (world s) = (r, w')" by fastforce
  show "post (reset_model env sg) s (\<lambda>_. in_order) raised"
  proof (cases r)
    case (Inr u)
    with r s show ?thesis
      by (simp add: reset_model_def post_ext_call in_order_def recovered_def reset_log_def
          reset_entry_def)
  next
    case (Inl e)
    with r s show ?thesis
      by (cases "is_AttributeError e")
         (simp_all add: reset_model_def post_ext_call in_order_def raised_def recovered_def
            reset_log_def reset_entry_def)
  qed
qed

lemma propagates_dict_append:
  "preserves in_order raised (dict_append k v)"
  unfolding dict_append_def
  by (intro propagates_intros) simp_all

lemma propagates_run_subgroups:
  "preserves in_order raised (run_subgroups env cfg ds dsl sevs)"
  unfolding run_subgroups_def run_subgroup_def run_cycles_def run_cycle_def run_domain_def
  by (intro propagates_intros propagates_evaluate_one propagates_reset_model
        propagates_dict_append) simp_all

lemma propagates_after_validation:
  "preserves in_order raised (after_validation env cfg)"
  unfolding after_validation_def after_wandb_setup_def setup_model_def describe_ours_def
    get_domain_sequence_def evaluation_phase_def init_lists_def report_averages_def finish_def
  by (intro propagates_intros propagates_evaluate_mixed propagates_run_subgroups) simp_all

lemma propagates_evaluate_stmt:
  "preserves in_order raised (evaluate_stmt env description)"
  unfolding evaluate_stmt_def
  by (intro propagates_intros propagates_after_validation) simp_all

lemma propagates_evaluate:
  "post (evaluate_stmt env description) (initial_state env w) (\<lambda>_. in_order) raised"
  by (rule preservesD [OF propagates_evaluate_stmt])
     (simp add: in_order_def reset_log_def initial_state_def)

lemma unrecovered_is_last:
  assumes "raised e' s" and "Ev p c (Raises e) \<in> set (trace s)"
    and "\<not> (c = ModelReset \<and> is_AttributeError e)"
  shows "e' = e \<and> last (trace s) = Ev p c (Raises e)"
proof -
  have n: "\<not> recovered (Ev p c (Raises e))"
    using assms(3) by (simp add: recovered_def)
  with assms(2) have na: "\<not> list_all recovered (trace s)"
    by (auto simp add: list_all_iff)
  with assms(1) have t: "trace s \<noteq> []" and l: "ev_outcome (last (trace s)) = Raises e'"
    and r: "list_all recovered (butlast (trace s))"
    by (simp_all add: raised_def)
  from r n have "Ev p c (Raises e) \<notin> set (butlast (trace s))"
    by (auto simp add: list_all_iff)
  with assms(2) t have "last (trace s) = Ev p c (Raises e)"
    by (metis append_butlast_last_id in_set_conv_decomp rotate1.simps(2) set_ConsD set_rotate1 empty_iff empty_set)
  with l show ?thesis by simp
qed

lemma post_conj:
  "post f s Q E \<Longrightarrow> post f s Q' E' \<Longrightarrow> post f s (\<lambda>v t. Q v t \<and> Q' v t) (\<lambda>e t. E e t \<and> E' e t)"
  by (simp add: post_def split: prod.splits sum.splits)

lemma run_subgroups_no_severity:
  fixes s :: "('w, 'd) state"
  assumes q: "quiet_loop env" and k: "keys_ready s" and l: "3 \<le> length dsl"
  shows "post (run_subgroups env cfg ds dsl [] ) s (\<lambda>_ _. False) (\<lambda>e _. e = ZeroDivisionError)"
proof -
  have ne: "range_list (0, 3) \<noteq> []" by (simp add: range_list_def)
  have "post (run_subgroup env cfg ds dsl [] (0, 3)) s (\<lambda>_ _. False) (\<lambda>e _. e = ZeroDivisionError)"
    by (rule post_mono [OF run_subgroup_quiet [OF q k ne]])
       (use l in \<open>auto simp add: loop_raise_def range_list_def\<close>)
  then show ?thesis
    unfolding run_subgroups_def subgroups_def
    by (simp, rule post_mono) simp_all
qed

lemma evaluation_phase_outcome:
  fixes s :: "('w, 'd) state"
  assumes q: "quiet_loop env"
  shows "post (evaluation_phase env cfg ds) s
           (\<lambda>_ s'. loop_outcome (length (domain_seq_loop_of cfg ds)) (severities_of cfg) = Inr ()
                    \<and> ready_to_report s')
           (\<lambda>e _. loop_outcome (length (domain_seq_loop_of cfg ds)) (severities_of cfg) = Inl e)"
proof (cases "severities_of cfg = [] \<and> 3 \<le> length (domain_seq_loop_of cfg ds)")
  case True
  have "post (evaluation_phase env cfg ds) s (\<lambda>_ _. False) (\<lambda>e _. e = ZeroDivisionError)"
    unfolding evaluation_phase_def init_lists_def
    using True by (auto intro!: run_subgroups_no_severity [OF q] keys_ready_init)
  then show ?thesis
    by (rule post_mono) (use True in \<open>simp_all add: loop_outcome_def\<close>)
next
  case False
  show ?thesis
    by (rule post_mono [OF evaluation_phase_quiet [OF q]])
       (use False in \<open>auto simp add: loop_outcome_def\<close>)
qed

lemma loss_names_total:
  assumes "set keep \<subseteq> fst ` set loss_name"
  shows "post (loss_names keep losses) s (\<lambda>_ s'. s' = s) (\<lambda>_ _. False)"
proof (induction losses)
  case Nil
  show ?case by simp
next
  case (Cons loss losses)
  show ?case
  proof (cases "loss \<in> set keep")
    case True
    with assms have "loss \<in> fst ` set loss_name" by blast
    then obtain n where "map_of loss_name loss = Some n"
      by (metis domD dom_map_of_conv_image_fst)
    with True show ?thesis
      by (simp, intro post_mono [OF Cons.IH]) simp_all
  next
    case False
    with Cons.IH show ?thesis by simp
  qed
qed

lemma quiet_envD:
  assumes "quiet_env env names ckpt_seq"
  shows "quiet_loop env"
    and "\<exists>v w1. wandb_setup env c w = (Inr v, w1)"
    and "\<exists>v w1. get_num_classes env d w = (Inr v, w1)"
    and "\<exists>v w1. get_model env c n w = (Inr v, w1)"
    and "\<exists>w1. registered_names env w = (Inr names, w1)"
    and "\<exists>v w1. build_adaptation env c n w = (Inr v, w1)"
    and "\<exists>v w1. wandb_summary env l1 l2 w = (Inr v, w1)"
    and "\<exists>w1. ckpt_path_to_domain_seq env p w = (Inr ckpt_seq, w1)"
    and "\<exists>v w1. eval_domain_dict env dd ds w = (Inr v, w1)"
    and "\<exists>v w1. print_memory_info env w = (Inr v, w1)"
    and "\<exists>v w1. wandb_save env w = (Inr v, w1)"
    and "\<exists>v w1. wandb_finish env w = (Inr v, w1)"
proof -
  have fst_eq: "\<exists>w1. r = (Inr x, w1)" if "fst r = Inr x" for r :: "(exn + 'x) \<times> 'y" and x
    using that by (cases r) simp
  from assms show "quiet_loop env" by (simp add: quiet_env_def)
  from assms have "\<forall>c w. returns (wandb_setup env c w)" by (simp add: quiet_env_def)
  then show "\<exists>v w1. wandb_setup env c w = (Inr v, w1)" by (simp add: returns_iff)
  from assms have "\<forall>d w. returns (get_num_classes env d w)" by (simp add: quiet_env_def)
  then show "\<exists>v w1. get_num_classes env d w = (Inr v, w1)" by (simp add: returns_iff)
  from assms have "\<forall>c n w. returns (get_model env c n w)" by (simp add: quiet_env_def)
  then show "\<exists>v w1. get_model env c n w = (Inr v, w1)" by (simp add: returns_iff)
  from assms have "\<forall>w. fst (registered_names env w) = Inr names" by (simp add: quiet_env_def)
  then show "\<exists>w1. registered_names env w = (Inr names, w1)" by (simp add: fst_eq)
  from assms have "\<forall>c n w. returns (build_adaptation env c n w)" by (simp add: quiet_env_def)
  then show "\<exists>v w1. build_adaptation env c n w = (Inr v, w1)" by (simp add: returns_iff)
  from assms have "\<forall>l1 l2 w. returns (wandb_summary env l1 l2 w)" by (simp add: quiet_env_def)
  then show "\<exists>v w1. wandb_summary env l1 l2 w = (Inr v, w1)" by (simp add: returns_iff)
  from assms have "\<forall>p w. fst (ckpt_path_to_domain_seq env p w) = Inr ckpt_seq"
    by (simp add: quiet_env_def)
  then show "\<exists>w1. ckpt_path_to_domain_seq env p w = (Inr ckpt_seq, w1)" by (simp add: fst_eq)
  from assms have "\<forall>dd ds w. returns (eval_domain_dict env dd ds w)" by (simp add: quiet_env_def)
  then show "\<exists>v w1. eval_domain_dict env dd ds w = (Inr v, w1)" by (simp add: returns_iff)
  from assms have "\<forall>w. returns (print_memory_info env w)" by (simp add: quiet_env_def)
  then show "\<exists>v w1. print_memory_info env w = (Inr v, w1)" by (simp add: returns_iff)
  from assms have "\<forall>w. returns (wandb_save env w)" by (simp add: quiet_env_def)
  then show "\<exists>v w1. wandb_save env w = (Inr v, w1)" by (simp add: returns_iff)
  from assms have "\<forall>w. returns (wandb_finish env w)" by (simp add: quiet_env_def)
  then show "\<exists>v w1. wandb_finish env w = (Inr v, w1)" by (simp add: returns_iff)
qed

lemma never_raises_ext_call:
  fixes f :: "'w \<Rightarrow> (exn + 'a) \<times> 'w"
  assumes "\<And>w. \<exists>v w1. f w = (Inr v, w1)"
  shows "preserves (\<lambda>_ :: ('w, 'd) state. True) (\<lambda>_ _. False) (ext_call p c oc f)"
  unfolding preserves_def
proof (intro allI impI)
  fix s :: "('w, 'd) state"
  from assms [of "world s"] obtain v w1 where "f (world s) = (Inr v, w1)" by blast
  then show "post (ext_call p c oc f) s (\<lambda>_ _. True) (\<lambda>_ _. False)"
    by (simp add: post_ext_call)
qed

lemma never_raises_loss_names:
  assumes "set keep \<subseteq> fst ` set loss_name"
  shows "preserves (\<lambda>_. True) (\<lambda>_ _. False) (loss_names keep losses)"
  unfolding preserves_def
  by (intro allI impI, rule post_mono [OF loss_names_total [OF assms]]) simp_all

lemmas never_raises_intros =
  preserves_and_then preserves_read_var preserves_if preserves_info preserves_when_do
  preserves_ret never_raises_ext_call

lemma describe_ours_quiet:
  fixes s :: "('w, 'd) state"
  assumes "quiet_env env names ckpt_seq"
  shows "post (describe_ours env cfg) s (\<lambda>_ _. True) (\<lambda>_ _. False)"
proof -
  have "preserves (\<lambda>_. True) (\<lambda>_ _. False) (describe_ours env cfg)"
    unfolding describe_ours_def
    by (intro never_raises_intros never_raises_loss_names quiet_envD(7) [OF assms])
       (simp_all add: loss_name_def)
  then show ?thesis by (simp add: preserves_def)
qed

lemma setup_model_quiet:
  fixes s :: "('w, 'd) state"
  assumes "quiet_env env names ckpt_seq"
  shows "post (setup_model env cfg) s (\<lambda>_ _. MODEL_ADAPTATION cfg \<in> set names)
           (\<lambda>e _. e = AssertionError \<and> MODEL_ADAPTATION cfg \<notin> set names)"
proof -
  from quiet_envD(3) [OF assms] obtain n w1 where
    1: "get_num_classes env (CORRUPTION_DATASET cfg) (world s) = (Inr n, w1)" by blast
  from quiet_envD(4) [OF assms] obtain u w2 where 2: "get_model env cfg n w1 = (Inr u, w2)"
    by blast
  from quiet_envD(5) [OF assms] obtain w3 where 3: "registered_names env w2 = (Inr names, w3)"
    by blast
  from quiet_envD(6) [OF assms] obtain u' w4 where 4: "build_adaptation env cfg n w3 = (Inr u', w4)"
    by blast
  show ?thesis
    unfolding setup_model_def
    by (simp add: post_ext_call 1 2 3 4)
qed

lemma get_domain_sequence_quiet:
  fixes s :: "('w, 'd) state"
  assumes "quiet_env env names ckpt_seq"
  shows "post (get_domain_sequence env cfg) s
           (\<lambda>v _. v = domain_sequence_of cfg ckpt_seq
                   \<and> \<not> (CORRUPTION_DATASET cfg \<in> set [''imagenet_d'', ''imagenet_d109'']
                         \<and> CORRUPTION_TYPE cfg = []))
           (\<lambda>e _. e = IndexError
                   \<and> CORRUPTION_DATASET cfg \<in> set [''imagenet_d'', ''imagenet_d109'']
                   \<and> CORRUPTION_TYPE cfg = [])"
proof -
  from quiet_envD(8) [OF assms] obtain w1 where 1:
    "ckpt_path_to_domain_seq env (MODEL_CKPT_PATH cfg) (world s) = (Inr ckpt_seq, w1)"
    by blast
  show ?thesis
    unfolding get_domain_sequence_def domain_sequence_of_def
    by (cases "CORRUPTION_TYPE cfg") (auto simp add: post_ext_call 1 hd_conv_nth)
qed

lemma finish_quiet:
  fixes s :: "('w, 'd) state"
  assumes "quiet_env env names ckpt_seq"
  shows "post (finish env cfg ds) s (\<lambda>_ _. True) (\<lambda>_ _. False)"
proof -
  have "preserves (\<lambda>_. True) (\<lambda>_ _. False) (finish env cfg ds)"
    unfolding finish_def
    by (intro never_raises_intros quiet_envD(9-12) [OF assms]) simp_all
  then show ?thesis by (simp add: preserves_def)
qed

lemma report_and_finish_quiet:
  fixes t :: "('w, 'd) state"
  assumes q: "quiet_env env names ckpt_seq" and r: "ready_to_report t"
  shows "post (and_then report_averages (\<lambda>_.
           and_then (when_do b (for_each (evaluate_mixed env cfg ds) sevs)) (\<lambda>_.
           finish env cfg ds))) t (\<lambda>_ _. True) (\<lambda>_ _. False)"
proof -
  have fin: "post (finish env cfg ds) u (\<lambda>_ _. True) (\<lambda>_ _. False)" for u :: "('w, 'd) state"
    by (rule finish_quiet [OF q])
  have mixed: "post (and_then (when_do b (for_each (evaluate_mixed env cfg ds) sevs)) (\<lambda>_.
           finish env cfg ds)) u (\<lambda>_ _. True) (\<lambda>_ _. False)" for u :: "('w, 'd) state"
  proof (cases b)
    case True
    show ?thesis
      by (subst post_and_then, subst post_when_do, simp only: True if_True,
          rule post_mono [OF mixed_pass_quiet [OF quiet_envD(1) [OF q]]])
         (simp_all add: fin)
  next
    case False
    then show ?thesis by (simp add: fin)
  qed
  show ?thesis
    by (subst post_and_then, rule post_mono [OF report_averages_completes [OF r]], rule mixed,
        simp)
qed

lemma evaluate_outcome:
  assumes q: "quiet_env env names ckpt_seq"
    and l: "load_cfg_from_args env description w = (Inr cfg, w')"
  shows "fst (evaluate env description w) = own_outcome cfg names ckpt_seq"
proof -
  define out where "out = own_outcome cfg names ckpt_seq"
  let ?Q = "\<lambda>(_ :: unit) (_ :: ('a, 'b) state). out = Inr ()"
  let ?E = "\<lambda>e (_ :: ('a, 'b) state). out = Inl e"
  let ?ds = "domain_sequence_of cfg ckpt_seq"
  let ?missing = "CORRUPTION_DATASET cfg \<in> set [''imagenet_d'', ''imagenet_d109'']
                    \<and> CORRUPTION_TYPE cfg = []"
  have tail: "post (and_then (evaluation_phase env cfg ?ds) (\<lambda>_.
       and_then report_averages (\<lambda>_.
       and_then (when_do (SETTING cfg = ''continual_mixed_domain'')
                   (for_each (evaluate_mixed env cfg ?ds) (severities_of cfg))) (\<lambda>_.
       finish env cfg ?ds)))) t ?Q ?E"
    if "SETTING cfg \<in> set valid_settings" "MODEL_ADAPTATION cfg \<in> set names" "\<not> ?missing"
    for t :: "('a, 'b) state"
  proof (subst post_and_then,
      rule post_mono [OF evaluation_phase_outcome [OF quiet_envD(1) [OF q]]], goal_cases)
    case (1 v s')
    then have o: "out = Inr ()" and r: "ready_to_report s'"
      using that by (auto simp add: out_def own_outcome_def)
    show ?case
      by (rule post_mono [OF report_and_finish_quiet [OF q r]]) (simp_all add: o)
  next
    case (2 e s')
    then show ?case
      using that by (auto simp add: out_def own_outcome_def)
  qed
  have seq: "post (and_then (get_domain_sequence env cfg) (\<lambda>domain_sequence.
     and_then (info (InfoDomainSequence (CORRUPTION_DATASET cfg) domain_sequence)) (\<lambda>_.
     and_then (evaluation_phase env cfg domain_sequence) (\<lambda>_.
     and_then report_averages (\<lambda>_.
     and_then (when_do (SETTING cfg = ''continual_mixed_domain'')
                 (for_each (evaluate_mixed env cfg domain_sequence) (severities_of cfg))) (\<lambda>_.
     finish env cfg domain_sequence)))))) t ?Q ?E"
    if "SETTING cfg \<in> set valid_settings" "MODEL_ADAPTATION cfg \<in> set names"
    for t :: "('a, 'b) state"
  proof (subst post_and_then, rule post_mono [OF get_domain_sequence_quiet [OF q]], goal_cases)
    case (1 v s')
    then have v: "v = ?ds" and m: "\<not> ?missing" by simp_all
    show ?case
      unfolding v by (subst post_and_then, subst post_info, rule tail [OF that m])
  next
    case (2 e s')
    then show ?case
      using that by (auto simp add: out_def own_outcome_def)
  qed
  have prepared: "post (after_wandb_setup env cfg) t ?Q ?E"
    if "SETTING cfg \<in> set valid_settings" for t :: "('a, 'b) state"
    unfolding after_wandb_setup_def
  proof (subst post_and_then, rule post_mono [OF setup_model_quiet [OF q]], goal_cases)
    case (1 v s')
    show ?case
      by (subst post_and_then, rule post_mono [OF describe_ours_quiet [OF q]])
         (simp_all only: seq [OF that 1])
  next
    case (2 e s')
    then show ?case
      using that by (auto simp add: out_def own_outcome_def)
  qed
  have validated: "post (after_validation env cfg) t ?Q ?E"
    if "SETTING cfg \<in> set valid_settings" for t :: "('a, 'b) state"
  proof -
    from quiet_envD(2) [OF q] obtain v w1 where "wandb_setup env cfg (world t) = (Inr v, w1)"
      by blast
    then show ?thesis
      unfolding after_validation_def by (simp add: post_ext_call prepared [OF that])
  qed
  have "post (evaluate_stmt env description) (initial_state env w) ?Q ?E"
  proof (cases "SETTING cfg \<in> set valid_settings")
    case True
    then show ?thesis
      unfolding evaluate_stmt_def
      by (simp add: post_ext_call l validated [OF True] initial_state_def)
  next
    case False
    then show ?thesis
      unfolding evaluate_stmt_def
      by (simp add: post_ext_call l out_def own_outcome_def initial_state_def)
  qed
  then show ?thesis
    unfolding evaluate_def out_def
    by (cases "own_outcome cfg names ckpt_seq")
       (auto simp add: post_def split: prod.splits sum.splits)
qed

lemma reset_model_results:
  "model_reset env (world s) = (Inr (), w1) \<Longrightarrow>
     reset_model env sg s =
       (Inr (), s\<lparr>world := w1,
                  trace := trace s @ [Ev (AtSubgroup sg) ModelReset Returned],
                  logged := logged s @ [InfoReset sg]\<rparr>)"
  "model_reset env (world s) = (Inl e, w1) \<Longrightarrow> is_AttributeError e \<Longrightarrow>
     reset_model env sg s =
       (Inr (), s\<lparr>world := w1,
                  trace := trace s @ [Ev (AtSubgroup sg) ModelReset (Raises e)],
                  logged := logged s @ [WarningResetNotAvailable]\<rparr>)"
  "model_reset env (world s) = (Inl e, w1) \<Longrightarrow> \<not> is_AttributeError e \<Longrightarrow>
     reset_model env sg s =
       (Inl e, s\<lparr>world := w1,
                  trace := trace s @ [Ev (AtSubgroup sg) ModelReset (Raises e)]\<rparr>)"
  by (simp_all add: reset_model_def try_except_AttributeError_def and_then_def ext_call_def
        info_def modify_def)


lemma quiet_env_example: "quiet_env (example_env c) [''source'', ''ours''] []"
  by (simp add: quiet_env_def example_env_simps returns_def)

lemma no_wandb_run:
  "evaluate no_wandb_env ''Evaluation.'' 0 =
     (Inl (Raised ''CommError''),
      (initial_state no_wandb_env 0)
        \<lparr>trace := [Ev Setup (LoadCfgFromArgs ''Evaluation.'') Returned,
                   Ev Setup WandbSetup (Raises (Raised ''CommError''))]\<rparr>)"
  by (simp add: evaluate_def evaluate_stmt_def after_validation_def and_then_def ext_call_def
      py_assert_def ret_def no_wandb_env_def example_env_def example_cfg_def valid_settings_def
      initial_state_def)


subsection \<open>Rules for floats and tensors\<close>

lemma bind_exn_simps [simp]:
  "bind_exn (Inl e) f = Inl e"
  "bind_exn (Inr v) f = f v"
  by (simp_all add: bind_exn_def)

lemma fsum_simps [simp]:
  "fsum [] = Finite 0"
  "fsum (x # xs) = fadd x (fsum xs)"
  by (simp_all add: fsum_def)

lemma fsum_Finite: "fsum (map (\<lambda>x. Finite (f x)) xs) = Finite (sum_list (map f xs))"
  by (induction xs) simp_all

lemma sum_list_upt: "sum_list (map f [0 ..< n]) = (\<Sum>j<n. f j)"
  by (simp add: sum_list_sum_nth atLeast0LessThan)

lemma fsum_Finite_upt: "fsum (map (\<lambda>k. Finite (f k)) [0 ..< n]) = Finite (\<Sum>k<n. f k)"
  by (simp add: fsum_Finite sum_list_upt)

lemma is_finite_iff: "is_finite v \<longleftrightarrow> v = Finite (real_of v)"
  by (cases v) simp_all

lemma finite_tensor_nth:
  "finite_tensor t \<Longrightarrow> i < length (elems t) \<Longrightarrow> is_finite (elems t ! i)"
  by (simp add: finite_tensor_def list_all_length)

lemma fmul_finite: "is_finite x \<Longrightarrow> is_finite y \<Longrightarrow> fmul x y = Finite (real_of x * real_of y)"
  by (cases x; cases y) simp_all

lemma fadd_finite: "is_finite x \<Longrightarrow> is_finite y \<Longrightarrow> fadd x y = Finite (real_of x + real_of y)"
  by (cases x; cases y) simp_all

lemma fexp_finite: "is_finite x \<Longrightarrow> fexp x = Finite (exp (real_of x))"
  by (cases x) simp_all

lemma fsum_finite:
  "(\<And>x. x \<in> set xs \<Longrightarrow> is_finite (f x))
     \<Longrightarrow> fsum (map f xs) = Finite (sum_list (map (\<lambda>x. real_of (f x)) xs))"
  by (induction xs) (simp_all add: fadd_finite)

lemma length_grid [simp]: "length (grid r c f) = r * c"
  by (induction r) (simp_all add: grid_def)

lemma grid_Suc: "grid (Suc r) c f = grid r c f @ map (f r) [0 ..< c]"
  by (simp add: grid_def)

lemma nth_grid: "i < r \<Longrightarrow> j < c \<Longrightarrow> grid r c f ! (i * c + j) = f i j"
proof (induction r)
  case 0
  then show ?case by simp
next
  case (Suc r)
  show ?case
  proof (cases "i < r")
    case True
    then have "i * c + j < r * c"
      using Suc.prems(2)
      by (metis add.commute less_le_trans mult.commute mult_Suc_right mult_le_mono2
          nat_add_left_cancel_less Suc_leI)
    with True Suc show ?thesis by (simp add: grid_Suc nth_append)
  next
    case False
    with Suc.prems have "i = r" by simp
    with Suc.prems show ?thesis by (simp add: grid_Suc nth_append)
  qed
qed

lemma map_grid: "map h (grid r c f) = grid r c (\<lambda>i j. h (f i j))"
  by (simp add: grid_def map_concat o_def)

lemma grid_cong:
  "(\<And>i j. i < r \<Longrightarrow> j < c \<Longrightarrow> f i j = g i j) \<Longrightarrow> grid r c f = grid r c g"
  unfolding grid_def by (intro arg_cong [where f = concat] map_cong) simp_all

lemma fsum_append: "list_all is_finite xs \<Longrightarrow> list_all is_finite ys
    \<Longrightarrow> fsum (xs @ ys) = fadd (fsum xs) (fsum ys) \<and> is_finite (fsum (xs @ ys))"
proof (induction xs)
  case Nil
  then show ?case
  proof (induction ys)
    case Nil
    show ?case by simp
  next
    case (Cons y ys)
    then show ?case by (cases y; cases "fsum ys") auto
  qed
next
  case (Cons x xs)
  then show ?case
    by (cases x; cases "fsum xs"; cases "fsum ys"; cases "fsum (xs @ ys)") auto
qed

lemma fsum_grid_Finite:
  "fsum (grid r c (\<lambda>i j. Finite (f i j))) = Finite (\<Sum>i<r. \<Sum>j<c. f i j)"
proof (induction r)
  case 0
  show ?case by (simp add: grid_def)
next
  case (Suc r)
  have 1: "list_all is_finite (grid r c (\<lambda>i j. Finite (f i j)))"
    by (auto simp add: grid_def list_all_iff)
  have 2: "list_all is_finite (map (\<lambda>j. Finite (f r j)) [0 ..< c])"
    by (simp add: list_all_iff)
  from fsum_append [OF 1 2] Suc show ?case
    by (simp add: grid_Suc fsum_Finite_upt)
qed

lemma view_rows_shape:
  assumes "wf_tensor p" and "shape p = n # ds" and "0 < n"
  shows "torch_view_rows p n = Inr (p\<lparr>shape := [n, prod_list ds]\<rparr>)"
    and "numel p div n = prod_list ds" and "length (elems p) = n * prod_list ds"
  using assms by (simp_all add: torch_view_rows_def numel_def wf_tensor_def)

lemma gram_of_finite:
  assumes wf: "wf_tensor p" and fin: "finite_tensor p" and s: "shape p = n # ds" and n: "0 < n"
  shows "orthogonal_loss p =
           Inr (scalar (fdiv (Finite (gram_square_sum p n))
                          (Finite (real_of_int (int n * (int n - 1))))))"
proof -
  let ?m = "prod_list ds"
  let ?v = "\<lambda>idx. real_of (elems p ! idx)"
  let ?P = "p\<lparr>shape := [n, ?m]\<rparr>"
  have len: "length (elems p) = n * ?m"
    by (rule view_rows_shape(3) [OF wf s n])
  have idx: "i * ?m + k < n * ?m" if "i < n" "k < ?m" for i k
  proof -
    from that have "i * ?m + k < i * ?m + ?m" by simp
    also have "\<dots> = Suc i * ?m" by simp
    also from that have "\<dots> \<le> n * ?m" by (intro mult_le_mono1) simp
    finally show ?thesis .
  qed
  have val: "is_finite (elems p ! (i * ?m + k))" if "i < n" "k < ?m" for i k
    using finite_tensor_nth [OF fin] idx [OF that] len by simp
  have t: "torch_t ?P = Inr \<lparr>shape = [?m, n], elems = grid ?m n (\<lambda>k j. elems p ! (j * ?m + k))\<rparr>"
    by (simp add: torch_t_def)
  have g: "grid n n (\<lambda>i j. fsum (map (\<lambda>k. fmul (elems p ! (i * ?m + k))
                 (grid ?m n (\<lambda>k j. elems p ! (j * ?m + k)) ! (k * n + j))) [0 ..< ?m]))
           = grid n n (\<lambda>i j. Finite (gram_entry p ?m i j))"
  proof (rule grid_cong)
    fix i j
    assume i: "i < n" and j: "j < n"
    have eq: "map (\<lambda>k. fmul (elems p ! (i * ?m + k))
                 (grid ?m n (\<lambda>k j. elems p ! (j * ?m + k)) ! (k * n + j))) [0 ..< ?m]
          = map (\<lambda>k. Finite (?v (i * ?m + k) * ?v (j * ?m + k))) [0 ..< ?m]"
      by (rule map_cong) (simp_all add: nth_grid j val i fmul_finite)
    show "fsum (map (\<lambda>k. fmul (elems p ! (i * ?m + k))
                 (grid ?m n (\<lambda>k j. elems p ! (j * ?m + k)) ! (k * n + j))) [0 ..< ?m])
          = Finite (gram_entry p ?m i j)"
      unfolding eq by (simp add: fsum_Finite_upt gram_entry_def)
  qed
  have mm: "torch_mm ?P \<lparr>shape = [?m, n], elems = grid ?m n (\<lambda>k j. elems p ! (j * ?m + k))\<rparr>
          = Inr \<lparr>shape = [n, n], elems = grid n n (\<lambda>i j. Finite (gram_entry p ?m i j))\<rparr>"
    by (simp add: torch_mm_def g)
  have sq: "map (\<lambda>v. fmul v v) (grid n n (\<lambda>i j. Finite (gram_entry p ?m i j)))
          = grid n n (\<lambda>i j. Finite ((gram_entry p ?m i j)\<^sup>2))"
    by (simp add: map_grid power2_eq_square)
  show ?thesis
    unfolding orthogonal_loss_def
    by (simp add: torch_size0_def s view_rows_shape(1) [OF wf s n] t mm torch_pow2_def
        entrywise_def torch_sum_def scalar_def sq fsum_grid_Finite torch_div_number_def
        gram_square_sum_def view_rows_shape(2) [OF wf s n])
qed

text \<open>
  C9. \<^verbatim>\<open>orthogonal_loss\<close> divides the sum of the squares of the entries of the Gram matrix
  of the \<open>n\<close> prototypes by \<open>n * (n - 1)\<close>. For prototypes with finite entries: with two
  prototypes or more it returns that quotient; with a single prototype the divisor is 0
  and nothing guards the division, which gives infinity, or NaN when the prototype is 0;
  without any prototype \<^verbatim>\<open>view\<close> refuses the shape, and a tensor without dimensions has no
  size 0. So it returns a finite scalar only if there are at least two prototypes (and,
  rounding and overflow left out, whenever there are).
\<close>

theorem orthogonal_loss_needs_two_prototypes:
  assumes "wf_tensor p" and "finite_tensor p"
  shows "(shape p = [] \<longrightarrow> orthogonal_loss p = Inl IndexError)
       \<and> (shape p = n # ds \<longrightarrow>
            (2 \<le> n \<longrightarrow>
               orthogonal_loss p = Inr (scalar (Finite (gram_square_sum p n / real (n * (n - 1))))))
            \<and> (n = 1 \<longrightarrow>
                 orthogonal_loss p
                   = Inr (scalar (if 0 < gram_square_sum p 1 then PosInf else NaN)))
            \<and> (n = 0 \<longrightarrow> orthogonal_loss p = Inl (Raised ''RuntimeError''))
            \<and> (returns_finite_scalar (orthogonal_loss p) \<longleftrightarrow> 2 \<le> n))"
proof (intro conjI impI)
  assume "shape p = []"
  then show "orthogonal_loss p = Inl IndexError"
    by (simp add: orthogonal_loss_def torch_size0_def)
next
  assume s: "shape p = n # ds"
  have nonneg: "0 \<le> gram_square_sum p k" for k
    by (simp add: gram_square_sum_def sum_nonneg)
  have two: "orthogonal_loss p = Inr (scalar (Finite (gram_square_sum p n / real (n * (n - 1)))))"
    if "2 \<le> n"
  proof -
    from that have n: "0 < n" by simp
    from that have "int n * (int n - 1) = int (n * (n - 1))"
      by (simp add: of_nat_diff algebra_simps)
    moreover from that have "n * (n - 1) \<noteq> 0" by simp
    ultimately show ?thesis
      using gram_of_finite [OF assms s n] by simp
  qed
  have one: "orthogonal_loss p = Inr (scalar (if 0 < gram_square_sum p 1 then PosInf else NaN))"
    if "n = 1"
    using gram_of_finite [OF assms s] that nonneg [of 1]
    by (auto simp add: signed_inf_def sgn_real_def)
  have zero: "orthogonal_loss p = Inl (Raised ''RuntimeError'')" if "n = 0"
    using that s by (simp add: orthogonal_loss_def torch_size0_def torch_view_rows_def)
  { assume "2 \<le> n" then show "orthogonal_loss p
        = Inr (scalar (Finite (gram_square_sum p n / real (n * (n - 1)))))" by (rule two) }
  { assume "n = 1" then show "orthogonal_loss p
        = Inr (scalar (if 0 < gram_square_sum p 1 then PosInf else NaN))" by (rule one) }
  { assume "n = 0" then show "orthogonal_loss p = Inl (Raised ''RuntimeError'')" by (rule zero) }
  show "returns_finite_scalar (orthogonal_loss p) \<longleftrightarrow> 2 \<le> n"
  proof (cases "2 \<le> n")
    case True
    with two show ?thesis by (simp add: returns_finite_scalar_def scalar_def)
  next
    case False
    then consider "n = 0" | "n = 1" by linarith
    then show ?thesis
    proof cases
      case 1
      with zero False show ?thesis by (simp add: returns_finite_scalar_def)
    next
      case 2
      with one False show ?thesis by (simp add: returns_finite_scalar_def scalar_def)
    qed
  qed
qed

text \<open>
  Two orthogonal unit prototypes give 1; a single prototype gives infinity; no prototype
  and a tensor without dimensions are refused.
\<close>

theorem orthogonal_loss_needs_two_prototypes_witness:
  "orthogonal_loss two_prototypes = Inr (scalar (Finite 1))
   \<and> returns_finite_scalar (orthogonal_loss two_prototypes)
   \<and> orthogonal_loss one_prototype = Inr (scalar PosInf)
   \<and> \<not> returns_finite_scalar (orthogonal_loss one_prototype)
   \<and> orthogonal_loss no_prototype = Inl (Raised ''RuntimeError'')
   \<and> orthogonal_loss (scalar (Finite 1)) = Inl IndexError"
proof -
  have sum2: "(\<Sum>k<2. f k) = f 0 + f 1" for f :: "nat \<Rightarrow> real"
    by (simp add: numeral_2_eq_2)
  have two: "wf_tensor two_prototypes" "finite_tensor two_prototypes"
    "shape two_prototypes = [2, 2]"
    by (simp_all add: two_prototypes_def wf_tensor_def finite_tensor_def)
  have "numel two_prototypes div 2 = 2"
    by (simp add: two_prototypes_def numel_def)
  then have two_sum: "gram_square_sum two_prototypes 2 = 2"
    by (simp add: gram_square_sum_def gram_entry_def sum2 two_prototypes_def)
  have one: "wf_tensor one_prototype" "finite_tensor one_prototype"
    "shape one_prototype = [1, 2]"
    by (simp_all add: one_prototype_def wf_tensor_def finite_tensor_def)
  have "numel one_prototype div 1 = 2"
    by (simp add: one_prototype_def numel_def)
  then have one_sum: "gram_square_sum one_prototype 1 = 1"
    by (simp add: gram_square_sum_def gram_entry_def sum2 one_prototype_def)
  have none: "wf_tensor no_prototype" "finite_tensor no_prototype" "shape no_prototype = [0, 2]"
    by (simp_all add: no_prototype_def wf_tensor_def finite_tensor_def)
  have sc: "wf_tensor (scalar (Finite 1))" "finite_tensor (scalar (Finite 1))"
    "shape (scalar (Finite 1)) = []"
    by (simp_all add: scalar_def wf_tensor_def finite_tensor_def)
  from orthogonal_loss_needs_two_prototypes [OF two(1,2), of 2 "[2]"] two(3) two_sum
  have 1: "orthogonal_loss two_prototypes = Inr (scalar (Finite 1))
           \<and> returns_finite_scalar (orthogonal_loss two_prototypes)"
    by (simp add: returns_finite_scalar_def scalar_def)
  from orthogonal_loss_needs_two_prototypes [OF one(1,2), of 1 "[2]"] one(3) one_sum
  have 2: "orthogonal_loss one_prototype = Inr (scalar PosInf)
           \<and> \<not> returns_finite_scalar (orthogonal_loss one_prototype)"
    by (simp add: returns_finite_scalar_def scalar_def)
  from orthogonal_loss_needs_two_prototypes [OF none(1,2), of 0 "[2]"] none(3)
  have 3: "orthogonal_loss no_prototype = Inl (Raised ''RuntimeError'')"
    by simp
  from orthogonal_loss_needs_two_prototypes [OF sc(1,2), of 0 "[]"] sc(3)
  have 4: "orthogonal_loss (scalar (Finite 1)) = Inl IndexError"
    by simp
  from 1 2 3 4 show ?thesis by blast
qed

(*THEOREMS*)

end
